(* ===== verification/Prelude.thy ===== *)
theory Prelude
  imports Complex_Main "HOL-Library.AList" "HOL-Library.Product_Lexorder"
    "HOL-Library.List_Lexorder" "HOL-Library.Char_ord" "HOL-Library.Sublist"
begin

text \<open>
  The vocabulary the component theories share: JSON values, the exceptions of
  \<^verbatim>\<open>taroai/errors.py\<close>, the clock and the identifier generator of
  \<^verbatim>\<open>taroai/domain.py\<close>, the state-and-exception monad in which every operation is
  written (a Python exception keeps the mutations made before it), a small Hoare logic for
  that monad, Python dictionaries as association lists in insertion order, and Python's
  \<open>sorted\<close>, \<open>max\<close> and slices.
\<close>

named_theorems hoare_rules \<open>rules for valid: one per combinator and per operation\<close>
named_theorems frame_rules \<open>rules for preserves: one per combinator and per operation\<close>
named_theorems op_simps \<open>evaluation of the monad's combinators on a state\<close>

section \<open>Values\<close>

text \<open>An instant of the UTC time line, in microseconds.\<close>

type_synonym datetime = int

text \<open>
  \<^verbatim>\<open>dict[str, Any]\<close> payloads. Floats are exact rationals; an object lists its keys in
  insertion order.
\<close>

datatype json =
    JNull
  | JBool bool
  | JInt int
  | JFloat rat
  | JStr string
  | JArr "json list"
  | JObj "(string \<times> json) list"

type_synonym json_obj = "(string \<times> json) list"

definition opt_str :: "string option \<Rightarrow> json" where
  "opt_str v = (case v of None \<Rightarrow> JNull | Some x \<Rightarrow> JStr x)"

definition opt_float :: "rat option \<Rightarrow> json" where
  "opt_float v = (case v of None \<Rightarrow> JNull | Some x \<Rightarrow> JFloat x)"

text \<open>Python's \<open>==\<close> on such values: booleans are the integers 0 and 1, an integer equals the
  float of the same value, and two objects are equal when they bind the same keys.\<close>

fun json_number :: "json \<Rightarrow> rat option" where
  "json_number (JBool b) = Some (if b then 1 else 0)"
| "json_number (JInt i) = Some (of_int i)"
| "json_number (JFloat r) = Some r"
| "json_number _ = None"

fun py_eq :: "json \<Rightarrow> json \<Rightarrow> bool" where
  "py_eq (JArr xs) w =
     (case w of JArr ys \<Rightarrow> list_all2 py_eq xs ys | _ \<Rightarrow> False)"
| "py_eq (JObj kvs) w =
     (case w of
        JObj kws \<Rightarrow> length kvs = length kws \<and>
          list_all (\<lambda>kv. case map_of kws (fst kv) of
                            None \<Rightarrow> False | Some x \<Rightarrow> py_eq (snd kv) x) kvs
      | _ \<Rightarrow> False)"
| "py_eq v w =
     (case json_number v of
        Some r \<Rightarrow> json_number w = Some r
      | None \<Rightarrow> v = w)"

section \<open>Exceptions\<close>

text \<open>The exception classes the modelled code raises, with the message (FastAPI's
  \<open>HTTPException\<close> with the status code and the detail, some with their metadata).
  \<open>ValidationError\<close> is pydantic's (a subclass of \<open>ValueError\<close>).\<close>

datatype error =
    TenantAccessError string
  | NotFoundError string
  | RunTransitionError string
  | AgentActionLeaseConflictError string
  | ValueError string
  | ValidationError string
  | KeyError string
  | TypeError string
  | AttributeError string
  | HTTPException int string
  | IdempotencyConflictError string
  | InvalidPageCursorError string
  | OverflowError string
  | TriggerDisabledError string
  | TriggerWebhookSignatureError string
  | AgentHandoffDeniedError string
  | AuthRequiredError string
  | AuthInvalidCredentialsError string
  | AuthActionTokenError string
  | LicenseSignatureVerificationError string
  | LicenseEntitlementDeniedError string json_obj
  | ModelBudgetExceededError string json_obj
  | ModelPolicyDeniedError string json_obj
  | ModelProviderRateLimitError string json_obj
  | ToolExecutionError string
  | ToolApprovalRequiredError string
  | ToolSchemaValidationError string
  | SecretAccessDeniedError string
  | SecretLeaseExpiredError string
  | SecretNotFoundError string
  | MemoryWriteRejectedError string json_obj
  | RegexError string
  | IndexError string

fun is_value_error :: "error \<Rightarrow> bool" where
  "is_value_error (ValueError _) = True"
| "is_value_error (ValidationError _) = True"
| "is_value_error (RunTransitionError _) = True"
| "is_value_error (IdempotencyConflictError _) = True"
| "is_value_error (InvalidPageCursorError _) = True"
| "is_value_error (LicenseSignatureVerificationError _) = True"
| "is_value_error _ = False"

section \<open>The state-and-exception monad\<close>

type_synonym ('s, 'a) op = "'s \<Rightarrow> (error + 'a) \<times> 's"

definition ret :: "'a \<Rightarrow> ('s, 'a) op" where
  "ret x = (\<lambda>s. (Inr x, s))"

definition raise :: "error \<Rightarrow> ('s, 'a) op" where
  "raise e = (\<lambda>s. (Inl e, s))"

definition andThen :: "('s, 'a) op \<Rightarrow> ('a \<Rightarrow> ('s, 'b) op) \<Rightarrow> ('s, 'b) op" where
  "andThen m f = (\<lambda>s. case m s of (Inl e, s') \<Rightarrow> (Inl e, s') | (Inr x, s') \<Rightarrow> f x s')"

definition gets :: "('s \<Rightarrow> 'a) \<Rightarrow> ('s, 'a) op" where
  "gets f = (\<lambda>s. (Inr (f s), s))"

definition modify :: "('s \<Rightarrow> 's) \<Rightarrow> ('s, unit) op" where
  "modify f = (\<lambda>s. (Inr (), f s))"

definition require :: "bool \<Rightarrow> error \<Rightarrow> ('s, unit) op" where
  "require b e = (if b then ret () else raise e)"

definition whenever :: "bool \<Rightarrow> ('s, unit) op \<Rightarrow> ('s, unit) op" where
  "whenever b m = (if b then m else ret ())"

definition void :: "('s, 'a) op \<Rightarrow> ('s, unit) op" where
  "void m = andThen m (\<lambda>_. ret ())"

fun for_each :: "'a list \<Rightarrow> ('a \<Rightarrow> ('s, 'b) op) \<Rightarrow> ('s, 'b list) op" where
  "for_each [] f = ret []"
| "for_each (x # xs) f = andThen (f x) (\<lambda>y. andThen (for_each xs f) (\<lambda>ys. ret (y # ys)))"

definition result :: "(error + 'a) \<times> 's \<Rightarrow> error + 'a" where
  "result r = fst r"

lemma ret_apply [op_simps]: "ret x s = (Inr x, s)"
  by (simp add: ret_def)

lemma raise_apply [op_simps]: "raise e s = (Inl e, s)"
  by (simp add: raise_def)

lemma gets_apply [op_simps]: "gets f s = (Inr (f s), s)"
  by (simp add: gets_def)

lemma modify_apply [op_simps]: "modify f s = (Inr (), f s)"
  by (simp add: modify_def)

lemma require_apply [op_simps]:
  "require b e s = (if b then (Inr (), s) else (Inl e, s))"
  by (simp add: require_def ret_def raise_def)

lemma whenever_apply [op_simps]:
  "whenever b m s = (if b then m s else (Inr (), s))"
  by (simp add: whenever_def ret_def)

lemma andThen_apply [op_simps]:
  "andThen m f s = (case m s of (Inl e, s') \<Rightarrow> (Inl e, s') | (Inr x, s') \<Rightarrow> f x s')"
  by (simp add: andThen_def)

lemma void_apply [op_simps]:
  "void m s = (case m s of (Inl e, s') \<Rightarrow> (Inl e, s') | (Inr x, s') \<Rightarrow> (Inr (), s'))"
  by (simp add: void_def andThen_def ret_def)

lemma andThen_ret [simp]: "andThen (ret x) f = f x"
  by (simp add: andThen_def ret_def)

lemma andThen_raise [simp]: "andThen (raise e) f = raise e"
  by (simp add: andThen_def raise_def)

lemma andThen_assoc: "andThen (andThen m f) g = andThen m (\<lambda>x. andThen (f x) g)"
  by (auto simp: andThen_def fun_eq_iff split: prod.splits sum.splits)

lemma andThen_Inr_iff:
  "andThen m f s = (Inr y, t) \<longleftrightarrow> (\<exists>x s'. m s = (Inr x, s') \<and> f x s' = (Inr y, t))"
  by (auto simp: andThen_def split: prod.splits sum.splits)

lemma andThen_Inr_E:
  assumes "andThen m f s = (Inr y, t)"
  obtains x s' where "m s = (Inr x, s')" and "f x s' = (Inr y, t)"
  using assms by (auto simp: andThen_Inr_iff)

lemma require_Inr_iff: "require b e s = (Inr x, t) \<longleftrightarrow> b \<and> s = t"
  by (auto simp: require_apply)

lemma ret_Inr_iff: "ret x s = (Inr y, t) \<longleftrightarrow> x = y \<and> s = t"
  by (auto simp: ret_apply)

lemma raise_Inr_iff: "raise e s = (Inr y, t) \<longleftrightarrow> False"
  by (auto simp: raise_apply)

lemma gets_Inr_iff: "gets f s = (Inr y, t) \<longleftrightarrow> f s = y \<and> s = t"
  by (auto simp: gets_apply)

lemma modify_Inr_iff: "modify f s = (Inr y, t) \<longleftrightarrow> f s = t"
  by (auto simp: modify_apply)

lemmas Inr_iffs = andThen_Inr_iff require_Inr_iff ret_Inr_iff raise_Inr_iff gets_Inr_iff
  modify_Inr_iff

section \<open>Hoare triples\<close>

text \<open>
  \<open>valid P m Q E\<close>: from a state with \<open>P\<close>, \<open>m\<close> returns with \<open>Q\<close> or raises with \<open>E\<close>; both
  speak of the state left behind. \<open>preserves I m\<close> is the case of an invariant.
\<close>

definition valid ::
  "('s \<Rightarrow> bool) \<Rightarrow> ('s, 'a) op \<Rightarrow> ('a \<Rightarrow> 's \<Rightarrow> bool) \<Rightarrow> (error \<Rightarrow> 's \<Rightarrow> bool) \<Rightarrow> bool" where
  "valid P m Q E \<longleftrightarrow>
     (\<forall>s. P s \<longrightarrow> (case m s of (Inl e, t) \<Rightarrow> E e t | (Inr x, t) \<Rightarrow> Q x t))"

definition preserves :: "('s \<Rightarrow> bool) \<Rightarrow> ('s, 'a) op \<Rightarrow> bool" where
  "preserves I m \<longleftrightarrow> (\<forall>s. I s \<longrightarrow> I (snd (m s)))"

text \<open>An operation that never changes the state.\<close>

definition readonly :: "('s, 'a) op \<Rightarrow> bool" where
  "readonly m \<longleftrightarrow> (\<forall>s. snd (m s) = s)"

lemma validI:
  assumes "\<And>s x t. P s \<Longrightarrow> m s = (Inr x, t) \<Longrightarrow> Q x t"
    and "\<And>s e t. P s \<Longrightarrow> m s = (Inl e, t) \<Longrightarrow> E e t"
  shows "valid P m Q E"
  using assms by (auto simp: valid_def split: prod.splits sum.splits)

lemma validD:
  assumes "valid P m Q E" and "P s" and "m s = (Inr x, t)"
  shows "Q x t"
proof -
  from assms(1,2) have "case m s of (Inl e, t) \<Rightarrow> E e t | (Inr x, t) \<Rightarrow> Q x t"
    by (simp add: valid_def)
  with assms(3) show ?thesis by simp
qed

lemma validD_error:
  assumes "valid P m Q E" and "P s" and "m s = (Inl e, t)"
  shows "E e t"
proof -
  from assms(1,2) have "case m s of (Inl e, t) \<Rightarrow> E e t | (Inr x, t) \<Rightarrow> Q x t"
    by (simp add: valid_def)
  with assms(3) show ?thesis by simp
qed

lemma valid_andThen:
  assumes "valid P m R E" and "\<And>x. valid (R x) (f x) Q E"
  shows "valid P (andThen m f) Q E"
proof (rule validI)
  fix s y t assume P: "P s" and run: "andThen m f s = (Inr y, t)"
  then obtain x s' where m: "m s = (Inr x, s')" and f: "f x s' = (Inr y, t)"
    by (auto simp: andThen_Inr_iff)
  from assms(1) P m have "R x s'" by (rule validD)
  with assms(2) show "Q y t" using f by (blast dest: validD)
next
  fix s e t assume P: "P s" and run: "andThen m f s = (Inl e, t)"
  then consider "m s = (Inl e, t)"
    | x s' where "m s = (Inr x, s')" "f x s' = (Inl e, t)"
    by (auto simp: andThen_def split: prod.splits sum.splits)
  then show "E e t"
  proof cases
    case 1
    with assms(1) P show ?thesis by (rule validD_error)
  next
    case (2 x s')
    with assms(1) P have "R x s'" by (auto dest: validD)
    with assms(2) show ?thesis using 2 by (blast dest: validD_error)
  qed
qed

lemma valid_weaken:
  assumes "valid P' m Q' E'" and "\<And>s. P s \<Longrightarrow> P' s"
    and "\<And>x s. Q' x s \<Longrightarrow> Q x s" and "\<And>e s. E' e s \<Longrightarrow> E e s"
  shows "valid P m Q E"
  using assms by (auto simp: valid_def split: prod.splits sum.splits) fastforce+

lemma preservesI:
  assumes "\<And>s r t. I s \<Longrightarrow> m s = (r, t) \<Longrightarrow> I t"
  shows "preserves I m"
  unfolding preserves_def using assms [OF _ prod.collapse [symmetric]] by blast

lemma preservesD: "preserves I m \<Longrightarrow> I s \<Longrightarrow> m s = (r, t) \<Longrightarrow> I t"
  by (metis preserves_def snd_conv)

lemma preserves_snd: "preserves I m \<Longrightarrow> I s \<Longrightarrow> I (snd (m s))"
  by (simp add: preserves_def)

lemma preserves_valid: "preserves I m \<longleftrightarrow> valid I m (\<lambda>_. I) (\<lambda>_. I)"
  unfolding preserves_def valid_def
  by (intro arg_cong [where f = All] ext) (auto split: prod.splits sum.splits)

lemma preserves_ret [frame_rules]: "preserves I (ret x)"
  by (simp add: preserves_def ret_def)

lemma preserves_raise [frame_rules]: "preserves I (raise e)"
  by (simp add: preserves_def raise_def)

lemma preserves_gets [frame_rules]: "preserves I (gets f)"
  by (simp add: preserves_def gets_def)

lemma preserves_require [frame_rules]: "preserves I (require b e)"
  by (simp add: preserves_def require_apply)

lemma preserves_andThen [frame_rules]:
  "preserves I m \<Longrightarrow> (\<And>x. preserves I (f x)) \<Longrightarrow> preserves I (andThen m f)"
  unfolding preserves_def andThen_def
  by (simp split: prod.splits sum.splits) (metis snd_conv)

lemma preserves_whenever [frame_rules]:
  "(b \<Longrightarrow> preserves I m) \<Longrightarrow> preserves I (whenever b m)"
  by (simp add: preserves_def whenever_apply)

lemma preserves_void [frame_rules]: "preserves I m \<Longrightarrow> preserves I (void m)"
  unfolding void_def by (intro frame_rules)

lemma preserves_if [frame_rules]:
  "(b \<Longrightarrow> preserves I m) \<Longrightarrow> (\<not> b \<Longrightarrow> preserves I n) \<Longrightarrow> preserves I (if b then m else n)"
  by simp

lemma preserves_case_option [frame_rules]:
  "(x = None \<Longrightarrow> preserves I m) \<Longrightarrow> (\<And>y. x = Some y \<Longrightarrow> preserves I (f y)) \<Longrightarrow>
   preserves I (case x of None \<Rightarrow> m | Some y \<Rightarrow> f y)"
  by (cases x) simp_all

lemma preserves_case_prod [frame_rules]:
  "(\<And>x y. preserves I (f x y)) \<Longrightarrow> preserves I (case p of (x, y) \<Rightarrow> f x y)"
  by (cases p) simp

lemma preserves_case_list [frame_rules]:
  "preserves I m \<Longrightarrow> (\<And>y ys. preserves I (f y ys)) \<Longrightarrow>
   preserves I (case xs of [] \<Rightarrow> m | y # ys \<Rightarrow> f y ys)"
  by (cases xs) simp_all

lemma preserves_Let [frame_rules]: "(\<And>x. preserves I (f x)) \<Longrightarrow> preserves I (Let v f)"
  by (simp add: Let_def)

lemma preserves_for_each [frame_rules]:
  "(\<And>x. x \<in> set xs \<Longrightarrow> preserves I (f x)) \<Longrightarrow> preserves I (for_each xs f)"
  by (induction xs) (auto intro!: frame_rules)

lemma preserves_modify: "(\<And>s. I s \<Longrightarrow> I (g s)) \<Longrightarrow> preserves I (modify g)"
  by (simp add: preserves_def modify_def)

text \<open>A step that reads the state first may use what it read.\<close>

lemma preserves_gets_then:
  assumes "\<And>s. I s \<Longrightarrow> I (snd (f (g s) s))"
  shows "preserves I (andThen (gets g) f)"
  using assms by (simp add: preserves_def andThen_def gets_def)

lemma preserves_conj:
  "preserves I m \<Longrightarrow> preserves J m \<Longrightarrow> preserves (\<lambda>s. I s \<and> J s) m"
  by (simp add: preserves_def)

text \<open>\<open>keeps p m\<close>: \<open>m\<close> never changes the part \<open>p\<close> of the state.\<close>

definition keeps :: "('s \<Rightarrow> 'p) \<Rightarrow> ('s, 'a) op \<Rightarrow> bool" where
  "keeps p m \<longleftrightarrow> (\<forall>s. p (snd (m s)) = p s)"

lemma keeps_eq: "keeps p m \<longleftrightarrow> (\<forall>v. preserves (\<lambda>s. p s = v) m)"
  by (auto simp: keeps_def preserves_def)

lemma keepsI: "(\<And>v. preserves (\<lambda>s. p s = v) m) \<Longrightarrow> keeps p m"
  by (simp add: keeps_eq)

lemma keepsD: "keeps p m \<Longrightarrow> m s = (r, t) \<Longrightarrow> p t = p s"
  by (metis keeps_def snd_conv)

lemma keeps_preserves: "keeps p m \<Longrightarrow> preserves (\<lambda>s. P (p s)) m"
  by (simp add: keeps_def preserves_def)

lemma keeps_preserves_eq: "keeps p m \<Longrightarrow> preserves (\<lambda>s. p s = v) m"
  by (simp add: keeps_def preserves_def)

lemma readonly_preserves: "readonly m \<Longrightarrow> preserves I m"
  by (simp add: readonly_def preserves_def)

lemma readonlyD: "readonly m \<Longrightarrow> m s = (r, t) \<Longrightarrow> t = s"
  by (metis readonly_def snd_conv)

lemma readonly_ret: "readonly (ret x)"
  and readonly_raise: "readonly (raise e)"
  and readonly_gets: "readonly (gets f)"
  and readonly_require: "readonly (require b e)"
  by (simp_all add: readonly_def op_simps)

lemma readonly_andThen:
  "readonly m \<Longrightarrow> (\<And>x. readonly (f x)) \<Longrightarrow> readonly (andThen m f)"
  by (auto simp: readonly_def andThen_def split: prod.splits sum.splits) (metis snd_conv)+

lemma readonly_case_option:
  "readonly m \<Longrightarrow> (\<And>y. readonly (f y)) \<Longrightarrow> readonly (case x of None \<Rightarrow> m | Some y \<Rightarrow> f y)"
  by (cases x) simp_all

lemma readonly_if: "readonly m \<Longrightarrow> readonly n \<Longrightarrow> readonly (if b then m else n)"
  by simp

lemmas readonly_rules = readonly_ret readonly_raise readonly_gets readonly_require
  readonly_andThen readonly_case_option readonly_if

section \<open>Clock and identifiers\<close>

text \<open>
  \<^verbatim>\<open>domain.py\<close>: \<open>utc_now\<close> reads the system clock and \<open>new_id\<close> draws a random uuid. Both are
  streams the environment supplies: the \<open>n\<close>-th reading is \<open>clock n\<close>, the \<open>n\<close>-th hex string
  \<open>uuid4_hex n\<close>, and \<open>tick\<close> counts the readings made so far.
\<close>

record world =
  clock :: "nat \<Rightarrow> datetime"
  uuid4_hex :: "nat \<Rightarrow> string"
  tick :: nat

definition new_id :: "string \<Rightarrow> ('b world_scheme, string) op" where
  "new_id pfx =
     (\<lambda>s. (Inr (pfx @ ''_'' @ uuid4_hex s (tick s)), s\<lparr>tick := Suc (tick s)\<rparr>))"

definition utc_now :: "('b world_scheme, datetime) op" where
  "utc_now = (\<lambda>s. (Inr (clock s (tick s)), s\<lparr>tick := Suc (tick s)\<rparr>))"

text \<open>The hypothesis under which generated identifiers are fresh: uuid4 never repeats.\<close>

definition unique_uuids :: "'b world_scheme \<Rightarrow> bool" where
  "unique_uuids s \<longleftrightarrow> inj (uuid4_hex s)"

text \<open>\<open>x\<close> is an identifier with this prefix that the generator has already handed out.\<close>

definition issued :: "string \<Rightarrow> 'b world_scheme \<Rightarrow> string \<Rightarrow> bool" where
  "issued pfx s x \<longleftrightarrow> (\<exists>n < tick s. x = pfx @ ''_'' @ uuid4_hex s n)"

lemma issued_mono:
  "issued p s x \<Longrightarrow> uuid4_hex t = uuid4_hex s \<Longrightarrow> tick s \<le> tick t \<Longrightarrow> issued p t x"
  by (auto simp: issued_def intro: order.strict_trans2)

lemma new_id_fresh:
  assumes "unique_uuids s" and "issued p s x"
  shows "x \<noteq> p @ ''_'' @ uuid4_hex s (tick s)"
  using assms by (auto simp: issued_def unique_uuids_def dest: injD)

section \<open>Dictionaries\<close>

text \<open>
  A Python \<open>dict\<close> keeps the order in which keys were first inserted and overwrites in place:
  an association list with distinct keys, written with \<open>AList.update\<close> and \<open>AList.delete\<close>
  and read with \<open>map_of\<close>. \<open>dict_values\<close> is \<open>.values()\<close>; \<open>dict_setdefault\<close> keeps a present
  binding; \<open>dict_append\<close> is \<open>d.setdefault(k, []).append(x)\<close>.
\<close>

type_synonym ('k, 'v) dict = "('k \<times> 'v) list"

abbreviation dict_get :: "('k, 'v) dict \<Rightarrow> 'k \<Rightarrow> 'v option" where
  "dict_get d k \<equiv> map_of d k"

abbreviation dict_set :: "'k \<Rightarrow> 'v \<Rightarrow> ('k, 'v) dict \<Rightarrow> ('k, 'v) dict" where
  "dict_set k v d \<equiv> AList.update k v d"

definition dict_values :: "('k, 'v) dict \<Rightarrow> 'v list" where
  "dict_values d = map snd d"

definition dict_get_list :: "('k, 'v list) dict \<Rightarrow> 'k \<Rightarrow> 'v list" where
  "dict_get_list d k = (case map_of d k of None \<Rightarrow> [] | Some xs \<Rightarrow> xs)"

definition dict_setdefault :: "'k \<Rightarrow> 'v \<Rightarrow> ('k, 'v) dict \<Rightarrow> ('k, 'v) dict" where
  "dict_setdefault k v d = (case map_of d k of None \<Rightarrow> AList.update k v d | Some _ \<Rightarrow> d)"

definition dict_append :: "'k \<Rightarrow> 'v \<Rightarrow> ('k, 'v list) dict \<Rightarrow> ('k, 'v list) dict" where
  "dict_append k x d = AList.update k (dict_get_list d k @ [x]) d"

definition dict_ok :: "('k, 'v) dict \<Rightarrow> bool" where
  "dict_ok d \<longleftrightarrow> distinct (map fst d)"

lemma dict_ok_set [simp]: "dict_ok d \<Longrightarrow> dict_ok (dict_set k v d)"
  by (simp add: dict_ok_def distinct_update)

lemma dict_ok_delete [simp]: "dict_ok d \<Longrightarrow> dict_ok (AList.delete k d)"
  by (simp add: dict_ok_def distinct_delete)

lemma dict_ok_append [simp]: "dict_ok d \<Longrightarrow> dict_ok (dict_append k x d)"
  by (simp add: dict_append_def)

lemma dict_ok_Nil [simp]: "dict_ok []"
  by (simp add: dict_ok_def)

lemma dict_get_set [simp]:
  "dict_get (dict_set k v d) k' = (if k' = k then Some v else dict_get d k')"
  by (simp add: update_conv')

lemma dict_get_delete [simp]:
  "dict_get (AList.delete k d) k' = (if k' = k then None else dict_get d k')"
  by (simp add: delete_conv')

lemma dict_get_list_append [simp]:
  "dict_get_list (dict_append k x d) k' =
     (if k' = k then dict_get_list d k @ [x] else dict_get_list d k')"
  by (simp add: dict_append_def dict_get_list_def)

lemma dict_values_get:
  "dict_ok d \<Longrightarrow> v \<in> set (dict_values d) \<longleftrightarrow> (\<exists>k. dict_get d k = Some v)"
  by (force simp: dict_ok_def dict_values_def)

lemma dict_get_values: "dict_get d k = Some v \<Longrightarrow> v \<in> set (dict_values d)"
  by (force simp: dict_values_def dest: map_of_SomeD)

lemma dict_set_new: "dict_get d k = None \<Longrightarrow> dict_set k v d = d @ [(k, v)]"
  by (induction d) (auto split: if_splits)

lemma dict_values_set_subset:
  "set (dict_values (dict_set k v d)) \<subseteq> insert v (set (dict_values d))"
  by (induction d) (auto simp: dict_values_def)

lemma set_dict_subset: "set (dict_set k v d) \<subseteq> insert (k, v) (set d)"
  by (induction d) auto

lemma keys_dict_set: "fst ` set (dict_set k v d) = insert k (fst ` set d)"
  by (induction d) auto

section \<open>Orderings and slices\<close>

text \<open>Python's stable \<open>sorted(xs, key=f, reverse=True)\<close>, its \<open>max(xs, key=f)\<close> (the first of
  the maximal elements) and \<open>max(xs, default=0)\<close>.\<close>

definition sorted_desc :: "('a \<Rightarrow> 'k::linorder) \<Rightarrow> 'a list \<Rightarrow> 'a list" where
  "sorted_desc f xs = rev (sort_key f (rev xs))"

fun max_by :: "('a \<Rightarrow> 'k::linorder) \<Rightarrow> 'a \<Rightarrow> 'a list \<Rightarrow> 'a" where
  "max_by f b [] = b"
| "max_by f b (x # xs) = (if f b < f x then max_by f x xs else max_by f b xs)"

fun max_default :: "int list \<Rightarrow> int \<Rightarrow> int" where
  "max_default [] d = d"
| "max_default (x # xs) d = foldl max x xs"

lemma set_sorted_desc [simp]: "set (sorted_desc f xs) = set xs"
  by (simp add: sorted_desc_def)

lemma max_by_mem: "max_by f b xs \<in> insert b (set xs)"
  by (induction xs arbitrary: b) auto

lemma max_by_ge: "x \<in> insert b (set xs) \<Longrightarrow> f x \<le> f (max_by f b xs)"
proof (induction xs arbitrary: b x)
  case Nil
  then show ?case by simp
next
  case (Cons y ys)
  have "f b \<le> f (max_by f (if f b < f y then y else b) ys)"
    using Cons.IH [of "if f b < f y then y else b" "if f b < f y then y else b"]
    by (auto split: if_splits)
  moreover have "f y \<le> f (max_by f (if f b < f y then y else b) ys)"
    using Cons.IH [of "if f b < f y then y else b" "if f b < f y then y else b"]
    by (auto split: if_splits)
  ultimately show ?case
    using Cons.prems Cons.IH [of x "if f b < f y then y else b"] by auto
qed

lemma foldl_max_eq_Max: "foldl max x xs = Max (insert x (set xs))" for x :: int
proof (induction xs arbitrary: x)
  case Nil
  then show ?case by simp
next
  case (Cons y ys)
  have "Max (insert (max x y) (set ys)) = Max (insert x (set (y # ys)))"
    by (cases "ys = []") (auto simp: max.assoc)
  with Cons [of "max x y"] show ?case by simp
qed

lemma max_default_Max:
  "max_default xs d = (if xs = [] then d else Max (set xs))"
  by (cases xs) (simp_all add: foldl_max_eq_Max)

lemma max_default_ge: "x \<in> set xs \<Longrightarrow> x \<le> max_default xs d"
  by (auto simp: max_default_Max)

lemma max_default_nonneg:
  "(\<And>x. x \<in> set xs \<Longrightarrow> 0 \<le> x) \<Longrightarrow> 0 \<le> d \<Longrightarrow> 0 \<le> max_default xs d"
  by (auto simp: max_default_Max Max_ge_iff neq_Nil_conv)

text \<open>A list of consecutive numbers starting at 1: how event and checkpoint sequences look.\<close>

definition numbered :: "('a \<Rightarrow> int) \<Rightarrow> 'a list \<Rightarrow> bool" where
  "numbered f xs \<longleftrightarrow> map f xs = map int [1..<Suc (length xs)]"

lemma numbered_Nil [simp]: "numbered f []"
  by (simp add: numbered_def)

lemma numbered_snoc [simp]:
  "numbered f (xs @ [x]) \<longleftrightarrow> numbered f xs \<and> f x = int (length xs) + 1"
  by (auto simp: numbered_def)

lemma numbered_single [simp]: "numbered f [x] \<longleftrightarrow> f x = 1"
  by (simp add: numbered_def)

lemma numbered_nth: "numbered f xs \<Longrightarrow> i < length xs \<Longrightarrow> f (xs ! i) = int i + 1"
proof -
  assume n: "numbered f xs" and i: "i < length xs"
  then have "map f xs ! i = map int [1..<Suc (length xs)] ! i"
    by (simp add: numbered_def)
  with i show ?thesis by (simp del: upt_Suc)
qed

lemma numbered_max: "numbered f xs \<Longrightarrow> max_default (map f xs) 0 = int (length xs)"
proof (induction xs rule: rev_induct)
  case Nil
  then show ?case by simp
next
  case (snoc x xs)
  have "\<forall>y \<in> f ` set xs. y \<le> int (length xs)"
    using snoc max_default_ge [of _ "map f xs" 0] by auto
  with snoc.prems show ?case
    by (auto simp: max_default_Max intro!: Max_eqI)
qed

end
