(* ===== verification/Domain.thy ===== *)
theory Domain
  imports Prelude
begin

text \<open>
  The records and enumerations of \<^verbatim>\<open>taroai/domain.py\<close>. Each \<open>Enum\<close> is a datatype with its
  \<open>.value\<close> string as a function; each pydantic model is a record whose fields carry a short
  prefix (\<open>r_\<close> run, \<open>ev_\<close> run event, \<open>th_\<close> chat thread, \<open>m_\<close> chat message, \<open>nt_\<close> notification,
  \<open>ar_\<close> artifact, \<open>bm_\<close> billing meter, \<open>au_\<close> audit event, \<open>ap_\<close> approval, \<open>ir_\<close> idempotency
  record). A \<open>Literal\<close> field the store writes without validation stays a string.
\<close>

section \<open>Enumerations\<close>

datatype run_status =
    RS_CREATED | RS_QUEUED | RS_CLASSIFYING | RS_RETRIEVING_CONTEXT | RS_PLANNING
  | RS_AWAITING_POLICY | RS_RUNNING | RS_AWAITING_APPROVAL | RS_WAITING_FOR_USER | RS_RETRYING
  | RS_SUCCEEDED | RS_FAILED | RS_CANCELLED | RS_TIMED_OUT

fun run_status_value :: "run_status \<Rightarrow> string" where
  "run_status_value RS_CREATED = ''created''"
| "run_status_value RS_QUEUED = ''queued''"
| "run_status_value RS_CLASSIFYING = ''classifying''"
| "run_status_value RS_RETRIEVING_CONTEXT = ''retrieving_context''"
| "run_status_value RS_PLANNING = ''planning''"
| "run_status_value RS_AWAITING_POLICY = ''awaiting_policy''"
| "run_status_value RS_RUNNING = ''running''"
| "run_status_value RS_AWAITING_APPROVAL = ''awaiting_approval''"
| "run_status_value RS_WAITING_FOR_USER = ''waiting_for_user''"
| "run_status_value RS_RETRYING = ''retrying''"
| "run_status_value RS_SUCCEEDED = ''succeeded''"
| "run_status_value RS_FAILED = ''failed''"
| "run_status_value RS_CANCELLED = ''cancelled''"
| "run_status_value RS_TIMED_OUT = ''timed_out''"

datatype run_mode = MODE_CHAT | MODE_WORKFLOW | MODE_AUTONOMOUS

fun run_mode_value :: "run_mode \<Rightarrow> string" where
  "run_mode_value MODE_CHAT = ''chat''"
| "run_mode_value MODE_WORKFLOW = ''workflow''"
| "run_mode_value MODE_AUTONOMOUS = ''autonomous''"

datatype chat_thread_status = TS_ACTIVE | TS_ARCHIVED | TS_DELETED

datatype chat_message_role = ROLE_USER | ROLE_ASSISTANT | ROLE_SYSTEM | ROLE_TOOL

datatype dispatch_status =
    DS_READY | DS_QUEUED | DS_STEERING | DS_INFLIGHT | DS_COMPLETED | DS_CANCELLED | DS_FAILED

datatype delivery_status = DL_PENDING | DL_STREAMING | DL_DELIVERED | DL_FAILED

datatype approval_status = AP_PENDING | AP_APPROVED | AP_REJECTED | AP_CANCELLED

fun approval_status_value :: "approval_status \<Rightarrow> string" where
  "approval_status_value AP_PENDING = ''pending''"
| "approval_status_value AP_APPROVED = ''approved''"
| "approval_status_value AP_REJECTED = ''rejected''"
| "approval_status_value AP_CANCELLED = ''cancelled''"

section \<open>Records\<close>

record resource_reference =
  rr_type :: string
  rr_id :: string
  rr_version :: "string option"

record chat_thread_create =
  tc_workspace_id :: string
  tc_title :: string
  tc_provider_id :: "string option"
  tc_model_id :: "string option"
  tc_reasoning_effort :: "string option"
  tc_sandbox_session_id :: "string option"

record chat_thread =
  th_id :: string
  th_tenant_id :: string
  th_workspace_id :: string
  th_created_by_user_id :: string
  th_title :: string
  th_status :: chat_thread_status
  th_pinned :: bool
  th_provider_id :: "string option"
  th_model_id :: "string option"
  th_reasoning_effort :: "string option"
  th_sandbox_session_id :: "string option"
  th_created_at :: datetime
  th_updated_at :: datetime

record chat_message_create =
  mc_role :: chat_message_role
  mc_content :: string
  mc_execution_content :: "string option"
  mc_kind :: string
  mc_dispatch_status :: dispatch_status
  mc_delivery_status :: delivery_status
  mc_attachments :: "string list"
  mc_resource_refs :: "resource_reference list"

record chat_message =
  m_id :: string
  m_tenant_id :: string
  m_workspace_id :: string
  m_thread_id :: string
  m_sequence :: int
  m_created_by_user_id :: "string option"
  m_role :: chat_message_role
  m_content :: string
  m_execution_content :: "string option"
  m_kind :: string
  m_dispatch_status :: dispatch_status
  m_delivery_status :: delivery_status
  m_attachments :: "string list"
  m_resource_refs :: "resource_reference list"
  m_created_at :: datetime
  m_updated_at :: datetime

record run_create =
  rc_workspace_id :: string
  rc_agent_id :: "string option"
  rc_message :: string
  rc_attachments :: "string list"
  rc_mode :: run_mode
  rc_thread_id :: "string option"
  rc_trigger_message_id :: "string option"
  rc_provider_id :: "string option"
  rc_model_id :: "string option"
  rc_reasoning_effort :: "string option"
  rc_resource_refs :: "resource_reference list"

record run =
  r_id :: string
  r_tenant_id :: string
  r_workspace_id :: string
  r_user_id :: string
  r_agent_id :: "string option"
  r_message :: string
  r_attachments :: "string list"
  r_mode :: run_mode
  r_status :: run_status
  r_created_at :: datetime
  r_updated_at :: datetime
  r_thread_id :: "string option"
  r_trigger_message_id :: "string option"
  r_provider_id :: "string option"
  r_model_id :: "string option"
  r_reasoning_effort :: "string option"
  r_resource_refs :: "resource_reference list"

record notification =
  nt_id :: string
  nt_tenant_id :: string
  nt_user_id :: string
  nt_type :: string
  nt_title :: string
  nt_body :: string
  nt_run_id :: "string option"
  nt_thread_id :: "string option"
  nt_created_at :: datetime
  nt_read_at :: "datetime option"

record run_event =
  ev_id :: string
  ev_sequence :: int
  ev_tenant_id :: string
  ev_workspace_id :: string
  ev_run_id :: string
  ev_type :: string
  ev_payload :: json_obj
  ev_created_at :: datetime
  ev_thread_id :: "string option"
  ev_thread_sequence :: "int option"

record idempotency_record =
  ir_tenant_id :: string
  ir_key :: string
  ir_method :: string
  ir_path :: string
  ir_request_hash :: string
  ir_status_code :: int
  ir_response_body :: json_obj
  ir_created_at :: datetime

record artifact =
  ar_id :: string
  ar_tenant_id :: string
  ar_run_id :: string
  ar_name :: string
  ar_artifact_type :: string
  ar_uri :: string
  ar_created_at :: datetime
  ar_workspace_id :: "string option"
  ar_thread_id :: "string option"
  ar_message_id :: "string option"
  ar_storage_object_id :: "string option"
  ar_content_type :: "string option"
  ar_size_bytes :: int
  ar_preview_payload :: json_obj
  ar_dashboard_payload :: "json_obj option"
  ar_render_policy :: json_obj
  ar_metadata :: json_obj

record billing_meter_event =
  bm_id :: string
  bm_tenant_id :: string
  bm_workspace_id :: string
  bm_user_id :: string
  bm_run_id :: "string option"
  bm_agent_id :: "string option"
  bm_skill_id :: "string option"
  bm_meter_type :: string
  bm_quantity :: rat
  bm_unit :: string
  bm_provider :: "string option"
  bm_model :: "string option"
  bm_cost_estimate :: "rat option"
  bm_metadata :: json_obj
  bm_created_at :: datetime

text \<open>The values of the \<open>meter_type\<close> literal; any other is a pydantic validation error.\<close>

definition meter_types :: "string list" where
  "meter_types =
     [''model_tokens_input'', ''model_tokens_output'', ''model_tokens_cached_input'',
      ''model_call_count'', ''model_latency_ms'', ''embedding_call_count'', ''embedding_tokens'',
      ''sandbox_minutes'', ''browser_action_count'', ''tool_call_count'', ''storage_bytes'',
      ''artifact_bytes'', ''external_artifact_download_bytes'', ''egress_bytes'', ''run_count'',
      ''skill_call_count'', ''skill_management_operation_count'', ''trigger_invocation_count'',
      ''connector_invocation_count'', ''connector_sync_document_count'']"

record audit_event =
  au_id :: string
  au_tenant_id :: string
  au_workspace_id :: "string option"
  au_user_id :: "string option"
  au_run_id :: "string option"
  au_event_type :: string
  au_metadata :: json_obj
  au_created_at :: datetime

record approval_request =
  ap_id :: string
  ap_tenant_id :: string
  ap_workspace_id :: string
  ap_run_id :: string
  ap_step_id :: string
  ap_reason :: string
  ap_status :: approval_status
  ap_kind :: string
  ap_subject_type :: "string option"
  ap_subject_id :: "string option"
  ap_preview_payload :: json_obj
  ap_validation_payload :: json_obj
  ap_execution_status :: string
  ap_error :: "string option"
  ap_requested_by_user_id :: "string option"
  ap_resolved_by_user_id :: "string option"
  ap_created_at :: datetime
  ap_resolved_at :: "datetime option"

definition approval_kinds :: "string list" where
  "approval_kinds =
     [''action'', ''tool_action'', ''connector'', ''connector_action'', ''workflow'',
      ''guardrail'', ''memory'', ''agent_write'']"

section \<open>Notifications of agent runs\<close>

fun agent_run_notification_copy :: "run_status \<Rightarrow> (string \<times> string \<times> string) option" where
  "agent_run_notification_copy RS_SUCCEEDED =
     Some (''agent.run.succeeded'', ''Agent run completed'',
           ''The background run completed successfully.'')"
| "agent_run_notification_copy RS_FAILED =
     Some (''agent.run.failed'', ''Agent run failed'',
           ''The background run could not be completed.'')"
| "agent_run_notification_copy RS_AWAITING_APPROVAL =
     Some (''agent.run.awaiting_approval'', ''Agent run needs approval'',
           ''Review the pending action to continue this run.'')"
| "agent_run_notification_copy _ = None"

definition notification_for_agent_run_status ::
  "run \<Rightarrow> run_status \<Rightarrow> ('b world_scheme, notification option) op" where
  "notification_for_agent_run_status r status =
     (if r_agent_id r = None then ret None
      else case agent_run_notification_copy status of
        None \<Rightarrow> ret None
      | Some (ntype, title, body) \<Rightarrow>
          andThen (new_id ''notification'') (\<lambda>i.
          andThen utc_now (\<lambda>now.
          ret (Some \<lparr>nt_id = i, nt_tenant_id = r_tenant_id r, nt_user_id = r_user_id r,
                     nt_type = ntype, nt_title = title, nt_body = body,
                     nt_run_id = Some (r_id r), nt_thread_id = r_thread_id r,
                     nt_created_at = now, nt_read_at = None\<rparr>))))"

text \<open>A notification is made exactly for an agent's run reaching one of the three states.\<close>

lemma notification_for_agent_run_status_None_iff:
  "fst (notification_for_agent_run_status r st s) = Inr None \<longleftrightarrow>
     r_agent_id r = None \<or> st \<notin> {RS_SUCCEEDED, RS_FAILED, RS_AWAITING_APPROVAL}"
  by (cases st)
    (auto simp: notification_for_agent_run_status_def op_simps new_id_def utc_now_def)

end
