(* ===== verification/AgentModels.thy ===== *)
theory AgentModels
  imports Domain
begin

text \<open>
  The records of \<^verbatim>\<open>taroai/agent/models.py\<close> (decision \<open>dc_\<close>, observation \<open>ob_\<close>, verification
  result \<open>vr_\<close>, cycle \<open>cy_\<close>, action \<open>ac_\<close>, checkpoint \<open>cp_\<close>) and the snapshot of the runtime
  state that the store keeps (\<^verbatim>\<open>store.py\<close>, \<^verbatim>\<open>agent/state.py\<close>).
\<close>

record agent_observation =
  ob_action_id :: string
  ob_success :: bool
  ob_output :: json_obj
  ob_error :: "string option"
  ob_safe_error :: "string option"
  ob_failure_class :: "string option"
  ob_created_at :: datetime

record agent_response_question =
  rq_question :: string
  rq_options :: "string list"
  rq_required :: bool

datatype decision_kind = DK_ACTION | DK_RESPOND | DK_REQUEST_INPUT | DK_REPLAN

record agent_decision =
  dc_kind :: decision_kind
  dc_rationale_summary :: string
  dc_action_key :: "string option"
  dc_tool_name :: "string option"
  dc_skill_id :: "string option"
  dc_tool_input :: json_obj
  dc_approval_required :: bool
  dc_expected_outcome :: "string option"
  dc_response_text :: "string option"
  dc_verification_required :: bool
  dc_response_suggestions :: "string list"
  dc_response_options :: "string list"
  dc_response_questions :: "agent_response_question list"

text \<open>Truth of an optional string, and whether \<open>s.strip()\<close> leaves anything.\<close>

definition truthy :: "string option \<Rightarrow> bool" where
  "truthy v = (v \<noteq> None \<and> v \<noteq> Some [])"

definition py_space :: "char \<Rightarrow> bool" where
  "py_space c \<longleftrightarrow> of_char c \<in> ({9, 10, 11, 12, 13, 28, 29, 30, 31, 32, 133, 160} :: nat set)"

definition py_strip :: "string \<Rightarrow> string" where
  "py_strip s = rev (dropWhile py_space (rev (dropWhile py_space s)))"

definition require_decision_payload :: "agent_decision \<Rightarrow> error + agent_decision" where
  "require_decision_payload d =
     (if dc_kind d = DK_ACTION \<and> \<not> (truthy (dc_tool_name d) \<or> truthy (dc_skill_id d))
      then Inl (ValueError ''action decisions require tool_name or skill_id'')
      else if dc_kind d = DK_REQUEST_INPUT
        \<and> py_strip (case dc_response_text d of None \<Rightarrow> [] | Some t \<Rightarrow> t) = []
        \<and> dc_response_questions d = []
        \<and> dc_response_options d = []
      then Inl (ValueError ''request_input decisions require a prompt or choices'')
      else Inr d)"

datatype verification_outcome = VO_COMPLETE | VO_REPAIR | VO_REPLAN | VO_WAIT_USER | VO_FAIL

record agent_verification_result =
  vr_outcome :: verification_outcome
  vr_feedback :: string
  vr_evidence :: "string list"
  vr_confidence :: "rat option"

datatype cycle_status = CY_RUNNING | CY_COMPLETED | CY_FAILED | CY_WAITING

record agent_cycle =
  cy_id :: string
  cy_tenant_id :: string
  cy_workspace_id :: string
  cy_run_id :: string
  cy_iteration :: int
  cy_plan_revision :: int
  cy_thread_id :: "string option"
  cy_decision :: "agent_decision option"
  cy_verifier_result :: "agent_verification_result option"
  cy_budget_snapshot :: json_obj
  cy_status :: cycle_status
  cy_started_at :: datetime
  cy_completed_at :: "datetime option"

datatype action_status =
  AS_PENDING | AS_RUNNING | AS_SUCCEEDED | AS_FAILED | AS_CANCELLED | AS_UNCERTAIN

record agent_action =
  ac_id :: string
  ac_tenant_id :: string
  ac_workspace_id :: string
  ac_run_id :: string
  ac_cycle_id :: string
  ac_action_key :: string
  ac_decision :: agent_decision
  ac_thread_id :: "string option"
  ac_status :: action_status
  ac_observation :: "agent_observation option"
  ac_failure_class :: "string option"
  ac_lease_owner_id :: "string option"
  ac_lease_expires_at :: "datetime option"
  ac_lease_generation :: int
  ac_usage :: json_obj
  ac_started_at :: "datetime option"
  ac_completed_at :: "datetime option"

record agent_checkpoint =
  cp_id :: string
  cp_tenant_id :: string
  cp_workspace_id :: string
  cp_run_id :: string
  cp_sequence :: int
  cp_state_payload :: json_obj
  cp_checksum :: string
  cp_thread_id :: "string option"
  cp_cycle_id :: "string option"
  cp_last_committed_action_id :: "string option"
  cp_sandbox_checkpoint_ref :: "string option"
  cp_created_at :: datetime

section \<open>Runtime state and its snapshot\<close>

text \<open>
  The fields of \<open>AgentRuntimeState\<close> that the snapshot copies or the store and the workflow
  coordinator read; the JSON dump of the others is \<open>st_other\<close>.
\<close>

record runtime_state =
  st_tenant_id :: string
  st_workspace_id :: string
  st_user_id :: string
  st_run_id :: string
  st_goal :: string
  st_status :: run_status
  st_plan :: "json list"
  st_current_step_id :: "string option"
  st_completed_step_ids :: "string list"
  st_approved_step_ids :: "string list"
  st_approved_guardrail_keys :: "string list"
  st_pending_guardrail_approval_key :: "string option"
  st_pending_guardrail_approval_stage :: "string option"
  st_tool_results :: "json list"
  st_retrieved_context :: json_obj
  st_sandbox_session_id :: "string option"
  st_browser_session_id :: "string option"
  st_approval_id :: "string option"
  st_failure_reason :: "string option"
  st_final_response_text :: "string option"
  st_other :: json_obj

record run_state_snapshot =
  sn_state :: runtime_state
  sn_state_payload :: json_obj
  sn_updated_at :: datetime

text \<open>\<open>model_dump(mode="json")\<close> of the fields the snapshot declares, and of the whole state.\<close>

definition snapshot_fields_dump :: "runtime_state \<Rightarrow> json_obj" where
  "snapshot_fields_dump st =
     [(''tenant_id'', JStr (st_tenant_id st)),
      (''workspace_id'', JStr (st_workspace_id st)),
      (''user_id'', JStr (st_user_id st)),
      (''run_id'', JStr (st_run_id st)),
      (''goal'', JStr (st_goal st)),
      (''status'', JStr (run_status_value (st_status st))),
      (''plan'', JArr (st_plan st)),
      (''current_step_id'', opt_str (st_current_step_id st)),
      (''completed_step_ids'', JArr (map JStr (st_completed_step_ids st))),
      (''approved_step_ids'', JArr (map JStr (st_approved_step_ids st))),
      (''approved_guardrail_keys'', JArr (map JStr (st_approved_guardrail_keys st))),
      (''pending_guardrail_approval_key'', opt_str (st_pending_guardrail_approval_key st)),
      (''pending_guardrail_approval_stage'', opt_str (st_pending_guardrail_approval_stage st)),
      (''tool_results'', JArr (st_tool_results st)),
      (''retrieved_context'', JObj (st_retrieved_context st)),
      (''sandbox_session_id'', opt_str (st_sandbox_session_id st)),
      (''browser_session_id'', opt_str (st_browser_session_id st)),
      (''approval_id'', opt_str (st_approval_id st)),
      (''failure_reason'', opt_str (st_failure_reason st))]"

definition runtime_state_dump :: "runtime_state \<Rightarrow> json_obj" where
  "runtime_state_dump st =
     snapshot_fields_dump st
     @ (''final_response_text'', opt_str (st_final_response_text st)) # st_other st"

definition from_runtime_state ::
  "runtime_state \<Rightarrow> ('b world_scheme, run_state_snapshot) op" where
  "from_runtime_state st =
     andThen utc_now (\<lambda>now.
     ret \<lparr>sn_state = st, sn_state_payload = runtime_state_dump st, sn_updated_at = now\<rparr>)"

definition to_runtime_state_payload :: "run_state_snapshot \<Rightarrow> json_obj" where
  "to_runtime_state_payload sn =
     (if sn_state_payload sn \<noteq> [] then sn_state_payload sn
      else snapshot_fields_dump (sn_state sn))"

lemma runtime_state_payload_roundtrip:
  "from_runtime_state st s = (Inr sn, t) \<Longrightarrow>
   to_runtime_state_payload sn = runtime_state_dump st"
  by (auto simp: from_runtime_state_def to_runtime_state_payload_def runtime_state_dump_def
      snapshot_fields_dump_def op_simps utc_now_def)

end
