(* ===== verification/Json.thy ===== *)
theory Json
  imports Prelude
begin

text \<open>
  \<^verbatim>\<open>json.dumps\<close> of the standard library, as far as the modelled code uses it: the string
  escapes with and without \<open>ensure_ascii\<close>, the two pairs of separators, and the reader of a
  string that shows the escapes to be injective. Characters are the code points below 256.
  How a float prints is a parameter, since the model's floats are rationals.
\<close>

section \<open>Strings\<close>

definition hex_digit :: "nat \<Rightarrow> char" where
  "hex_digit n = (if n < 10 then char_of (48 + n) else char_of (87 + n))"

definition hex_value :: "char \<Rightarrow> nat" where
  "hex_value c = (let n = of_char c in if n < 58 then n - 48 else n - 87)"

definition json_escape :: "bool \<Rightarrow> char \<Rightarrow> string" where
  "json_escape ensure_ascii c =
     (let n = of_char c :: nat in
      if n = 34 then [CHR 0x5C, CHR 0x22]
      else if n = 92 then [CHR 0x5C, CHR 0x5C]
      else if n = 10 then [CHR 0x5C, CHR ''n'']
      else if n = 13 then [CHR 0x5C, CHR ''r'']
      else if n = 9 then [CHR 0x5C, CHR ''t'']
      else if n = 12 then [CHR 0x5C, CHR ''f'']
      else if n = 8 then [CHR 0x5C, CHR ''b'']
      else if n < 32 \<or> ensure_ascii \<and> 126 < n
        then [CHR 0x5C, CHR ''u'', CHR ''0'', CHR ''0'', hex_digit (n div 16), hex_digit (n mod 16)]
      else [c])"

definition json_string :: "bool \<Rightarrow> string \<Rightarrow> string" where
  "json_string ascii s = CHR 0x22 # concat (map (json_escape ascii) s) @ [CHR 0x22]"

text \<open>A reader of one escaped character, and of the characters up to the closing quote.\<close>

fun read_escape :: "string \<Rightarrow> (char \<times> string) option" where
  "read_escape [] = None"
| "read_escape (c # cs) =
     (if c \<noteq> CHR 0x5C then Some (c, cs)
      else case cs of
        [] \<Rightarrow> None
      | d # ds \<Rightarrow>
          (if d = CHR ''n'' then Some (char_of (10::nat), ds)
           else if d = CHR ''r'' then Some (char_of (13::nat), ds)
           else if d = CHR ''t'' then Some (char_of (9::nat), ds)
           else if d = CHR ''f'' then Some (char_of (12::nat), ds)
           else if d = CHR ''b'' then Some (char_of (8::nat), ds)
           else if d = CHR ''u'' then
             (case ds of
                _ # _ # h # l # rest \<Rightarrow> Some (char_of (16 * hex_value h + hex_value l), rest)
              | _ \<Rightarrow> None)
           else Some (d, ds)))"

lemma of_hex_digit: "n < 16 \<Longrightarrow> of_char (hex_digit n) = (if n < 10 then 48 + n else 87 + n)"
  by (simp add: hex_digit_def)

lemma hex_value_digit: "n < 16 \<Longrightarrow> hex_value (hex_digit n) = n"
  by (auto simp: hex_value_def of_hex_digit Let_def)

lemma char_eq_of_char: "c = d \<longleftrightarrow> (of_char c :: nat) = of_char d"
  by (metis char_of_char)

lemma char_of_34: "char_of (34::nat) = CHR 0x22" by code_simp

lemma char_of_92: "char_of (92::nat) = CHR 0x5C" by code_simp

lemma read_json_escape: "read_escape (json_escape a c @ rest) = Some (c, rest)"
proof -
  let ?n = "of_char c :: nat"
  have "?n < 256" by (rule nat_of_char_less_256)
  then have "?n div 16 < 16" by (simp add: div_less_iff_less_mult)
  then have hexv: "16 * hex_value (hex_digit (?n div 16)) + hex_value (hex_digit (?n mod 16)) = ?n"
    by (simp add: hex_value_digit)
  consider (short) "?n \<in> {34, 92, 10, 13, 9, 12, 8}"
    | (hex) "?n \<notin> {34, 92, 10, 13, 9, 12, 8}" "?n < 32 \<or> a \<and> 126 < ?n"
    | (plain) "?n \<notin> {34, 92, 10, 13, 9, 12, 8}" "\<not> (?n < 32 \<or> a \<and> 126 < ?n)"
    by blast
  then show ?thesis
  proof cases
    case short
    then have "c \<in> char_of ` {34, 92, 10, 13, 9, 12, 8 :: nat}"
      by (metis char_of_char imageI)
    then show ?thesis by (auto simp: json_escape_def char_of_34 char_of_92)
  next
    case hex
    then have "json_escape a c =
        [CHR 0x5C, CHR ''u'', CHR ''0'', CHR ''0'', hex_digit (?n div 16), hex_digit (?n mod 16)]"
      by (simp add: json_escape_def Let_def)
    then show ?thesis by (simp add: hexv)
  next
    case plain
    then have "json_escape a c = [c]" by (simp add: json_escape_def Let_def)
    moreover from plain have "c \<noteq> CHR 0x5C" by auto
    ultimately show ?thesis by simp
  qed
qed


lemma json_escape_not_quote: "json_escape a c = d # ds \<Longrightarrow> d \<noteq> CHR 0x22"
  by (auto simp: json_escape_def Let_def split: if_splits)

lemma json_escape_not_Nil: "json_escape a c \<noteq> []"
  by (auto simp: json_escape_def Let_def)

text \<open>Two texts that go on after the closing quote are equal only if the strings are.\<close>

lemma json_escapes_inject:
  "concat (map (json_escape a) s) @ CHR 0x22 # xs = concat (map (json_escape a) t) @ CHR 0x22 # ys
   \<Longrightarrow> s = t \<and> xs = ys"
proof (induction s arbitrary: t)
  case Nil
  show ?case
  proof (cases t)
    case Nil
    with Nil.prems show ?thesis by simp
  next
    case (Cons d ds)
    obtain e es where "json_escape a d = e # es"
      using json_escape_not_Nil [of a d] by (cases "json_escape a d") auto
    with Nil.prems Cons show ?thesis
      using json_escape_not_quote [of a d e es] by simp
  qed
next
  case (Cons c s)
  show ?case
  proof (cases t)
    case Nil
    obtain e es where "json_escape a c = e # es"
      using json_escape_not_Nil [of a c] by (cases "json_escape a c") auto
    with Cons.prems Nil show ?thesis
      using json_escape_not_quote [of a c e es] by simp
  next
    case (Cons d ds)
    let ?rest = "concat (map (json_escape a) s) @ CHR 0x22 # xs"
    let ?rest' = "concat (map (json_escape a) ds) @ CHR 0x22 # ys"
    from Cons.prems Cons have "json_escape a c @ ?rest = json_escape a d @ ?rest'" by simp
    then have "read_escape (json_escape a c @ ?rest) = read_escape (json_escape a d @ ?rest')"
      by (rule arg_cong)
    then have "c = d" and "?rest = ?rest'"
      by (simp_all only: read_json_escape option.inject prod.inject)
    with Cons.IH [of ds] Cons show ?thesis by blast
  qed
qed

lemma json_string_inject:
  "json_string a s @ xs = json_string a t @ ys \<longleftrightarrow> s = t \<and> xs = ys"
  using json_escapes_inject [of a s xs t ys] by (auto simp: json_string_def)

text \<open>\<open>repr\<close> of a string, for code points below 256.\<close>

definition repr_char :: "char \<Rightarrow> char \<Rightarrow> string" where
  "repr_char q c =
     (let n = of_char c :: nat in
      if c = q \<or> n = 92 then [CHR 0x5C, c]
      else if n = 10 then [CHR 0x5C, CHR ''n'']
      else if n = 13 then [CHR 0x5C, CHR ''r'']
      else if n = 9 then [CHR 0x5C, CHR ''t'']
      else if n < 32 \<or> 127 \<le> n \<and> n \<le> 160 \<or> n = 173
        then [CHR 0x5C, CHR ''x'', hex_digit (n div 16), hex_digit (n mod 16)]
      else [c])"

definition repr_string :: "string \<Rightarrow> string" where
  "repr_string s =
     (let q = (if CHR 0x27 \<in> set s \<and> CHR 0x22 \<notin> set s then CHR 0x22 else CHR 0x27) in
      q # concat (map (repr_char q) s) @ [q])"

section \<open>Values\<close>

text \<open>Decimal printing of integers.\<close>

fun show_nat :: "nat \<Rightarrow> string" where
  "show_nat n = (if n < 10 then [char_of (48 + n)] else show_nat (n div 10) @ [char_of (48 + n mod 10)])"

declare show_nat.simps [simp del]

definition show_int :: "int \<Rightarrow> string" where
  "show_int i = (if i < 0 then CHR ''-'' # show_nat (nat (- i)) else show_nat (nat i))"

fun join :: "string \<Rightarrow> string list \<Rightarrow> string" where
  "join sep [] = []"
| "join sep [x] = x"
| "join sep (x # y # zs) = x @ sep @ join sep (y # zs)"

text \<open>\<open>json.dumps(v, separators=(item, key), ensure_ascii=ascii)\<close>.\<close>

fun json_dumps :: "(rat \<Rightarrow> string) \<Rightarrow> bool \<Rightarrow> string \<Rightarrow> string \<Rightarrow> json \<Rightarrow> string" where
  "json_dumps fr ascii isep ksep JNull = ''null''"
| "json_dumps fr ascii isep ksep (JBool b) = (if b then ''true'' else ''false'')"
| "json_dumps fr ascii isep ksep (JInt i) = show_int i"
| "json_dumps fr ascii isep ksep (JFloat r) = fr r"
| "json_dumps fr ascii isep ksep (JStr s) = json_string ascii s"
| "json_dumps fr ascii isep ksep (JArr xs) =
     CHR ''['' # join isep (map (json_dumps fr ascii isep ksep) xs) @ '']''"
| "json_dumps fr ascii isep ksep (JObj kvs) =
     CHR ''{'' # join isep (map (\<lambda>kv. json_string ascii (fst kv) @ ksep
       @ json_dumps fr ascii isep ksep (snd kv)) kvs) @ ''}''"

text \<open>A Python list of strings as \<open>repr\<close> prints it, for strings without quotes, backslashes
  or control characters (it occurs in one error message).\<close>

definition repr_str_list :: "string list \<Rightarrow> string" where
  "repr_str_list xs = CHR ''['' # join '', '' (map (\<lambda>x. CHR 0x27 # x @ [CHR 0x27]) xs) @ '']''"

text \<open>Python's \<open>repr\<close> and \<open>str\<close> of a JSON value.\<close>

fun py_repr :: "(rat \<Rightarrow> string) \<Rightarrow> json \<Rightarrow> string" where
  "py_repr fr JNull = ''None''"
| "py_repr fr (JBool b) = (if b then ''True'' else ''False'')"
| "py_repr fr (JInt i) = show_int i"
| "py_repr fr (JFloat r) = fr r"
| "py_repr fr (JStr s) = repr_string s"
| "py_repr fr (JArr xs) = CHR ''['' # join '', '' (map (py_repr fr) xs) @ '']''"
| "py_repr fr (JObj kvs) =
     CHR ''{'' # join '', '' (map (\<lambda>kv. repr_string (fst kv) @ '': '' @ py_repr fr (snd kv)) kvs) @ ''}''"

definition py_str :: "(rat \<Rightarrow> string) \<Rightarrow> json \<Rightarrow> string" where
  "py_str fr v = (case v of JStr s \<Rightarrow> s | _ \<Rightarrow> py_repr fr v)"

text \<open>The text of a list of strings determines the list, for lists of one length.\<close>

lemma json_list_inject:
  assumes "join '','' (map (json_string a) xs) @ us = join '','' (map (json_string a) ys) @ vs"
    and "length xs = length ys" and "xs \<noteq> []"
  shows "xs = ys \<and> us = vs"
  using assms
proof (induction xs ys rule: list_induct2')
  case (4 x xs y ys)
  then show ?case
    by (cases xs; cases ys) (auto simp: json_string_inject)
qed auto

end
