(* ===== verification/WorkflowSpec.thy ===== *)
theory WorkflowSpec
  imports AgentModels Json "HOL-Library.Multiset"
begin

text \<open>
  \<^verbatim>\<open>taroai/workflow.py\<close>, the data and the validation of a workflow: specifications (task \<open>ts_\<close>,
  phase \<open>ps_\<close>, workflow \<open>ws_\<close>), the stored workflow run \<open>wf_\<close> and task \<open>wt_\<close>, the depth-first
  search of \<open>validate_graph\<close> and the translation of a plan. The main result is that validation
  accepts exactly the well-formed acyclic graphs; the search terminates because the set of
  tasks being visited grows inside the finite set of known tasks.
\<close>

section \<open>Data\<close>

datatype workflow_status =
  WF_AWAITING_APPROVAL | WF_RUNNING | WF_PAUSED | WF_SUCCEEDED | WF_FAILED | WF_CANCELLED

datatype task_status =
  WT_PENDING | WT_QUEUED | WT_RUNNING | WT_SUCCEEDED | WT_FAILED | WT_CANCELLED | WT_BLOCKED

fun task_status_value :: "task_status \<Rightarrow> string" where
  "task_status_value WT_PENDING = ''pending''"
| "task_status_value WT_QUEUED = ''queued''"
| "task_status_value WT_RUNNING = ''running''"
| "task_status_value WT_SUCCEEDED = ''succeeded''"
| "task_status_value WT_FAILED = ''failed''"
| "task_status_value WT_CANCELLED = ''cancelled''"
| "task_status_value WT_BLOCKED = ''blocked''"

record workflow_task_spec =
  ts_id :: string
  ts_title :: string
  ts_description :: string
  ts_depends_on :: "string list"
  ts_preferred_tool :: "string option"
  ts_tool_input :: json_obj
  ts_tool_mode :: string
  ts_model_hint :: string

record workflow_phase_spec =
  ps_id :: string
  ps_title :: string
  ps_tasks :: "workflow_task_spec list"

record workflow_spec =
  ws_name :: string
  ws_description :: string
  ws_phases :: "workflow_phase_spec list"
  ws_max_concurrency :: int
  ws_final_synthesis_prompt :: string

record workflow_run =
  wf_id :: string
  wf_tenant_id :: string
  wf_workspace_id :: string
  wf_parent_run_id :: string
  wf_parent_thread_id :: "string option"
  wf_user_id :: string
  wf_status :: workflow_status
  wf_spec :: workflow_spec
  wf_approval_id :: "string option"
  wf_created_at :: datetime
  wf_updated_at :: datetime
  wf_completed_at :: "datetime option"

record workflow_task =
  wt_id :: string
  wt_tenant_id :: string
  wt_workspace_id :: string
  wt_workflow_id :: string
  wt_task_id :: string
  wt_phase_id :: string
  wt_status :: task_status
  wt_child_thread_id :: "string option"
  wt_child_run_id :: "string option"
  wt_summary :: string
  wt_error :: "string option"
  wt_attempts :: int
  wt_created_at :: datetime
  wt_updated_at :: datetime
  wt_completed_at :: "datetime option"

section \<open>Field constraints\<close>

definition id_char :: "char \<Rightarrow> bool" where
  "id_char c \<longleftrightarrow> (let n = of_char c :: nat in
     65 \<le> n \<and> n \<le> 90 \<or> 97 \<le> n \<and> n \<le> 122 \<or> 48 \<le> n \<and> n \<le> 57 \<or> n = 95 \<or> n = 45)"

definition id_pattern :: "string \<Rightarrow> bool" where
  "id_pattern s \<longleftrightarrow> list_all id_char s \<and> 1 \<le> length s \<and> length s \<le> 120"

definition len_between :: "nat \<Rightarrow> nat \<Rightarrow> 'a list \<Rightarrow> bool" where
  "len_between lo hi s \<longleftrightarrow> lo \<le> length s \<and> length s \<le> hi"

definition task_spec_fields_ok :: "workflow_task_spec \<Rightarrow> bool" where
  "task_spec_fields_ok t \<longleftrightarrow>
     id_pattern (ts_id t) \<and> len_between 1 200 (ts_title t)
     \<and> length (ts_description t) \<le> 2000
     \<and> ts_tool_mode t \<in> set [''read_only'', ''standard'', ''code'']
     \<and> ts_model_hint t \<in> set [''fast'', ''strong'']"

definition phase_spec_fields_ok :: "workflow_phase_spec \<Rightarrow> bool" where
  "phase_spec_fields_ok p \<longleftrightarrow>
     id_pattern (ps_id p) \<and> len_between 1 200 (ps_title p) \<and> ps_tasks p \<noteq> []"

definition workflow_spec_fields_ok :: "workflow_spec \<Rightarrow> bool" where
  "workflow_spec_fields_ok w \<longleftrightarrow>
     len_between 1 200 (ws_name w) \<and> length (ws_description w) \<le> 2000
     \<and> ws_phases w \<noteq> [] \<and> 1 \<le> ws_max_concurrency w \<and> ws_max_concurrency w \<le> 8
     \<and> len_between 1 20000 (ws_final_synthesis_prompt w)"

section \<open>The dependency graph\<close>

definition spec_tasks :: "workflow_spec \<Rightarrow> workflow_task_spec list" where
  "spec_tasks w = concat (map ps_tasks (ws_phases w))"

type_synonym graph = "(string, string list) dict"

text \<open>What the search of \<open>validate_graph\<close> consumes: the known tasks it is not visiting.\<close>

lemma visit_measure_decreases:
  assumes "t \<notin> visiting" and "map_of g t = Some deps"
  shows "card (fst ` set g - insert t visiting) < card (fst ` set g - visiting)"
proof -
  from assms(2) have "t \<in> fst ` set g" by (force dest: map_of_SomeD)
  with assms(1) show ?thesis by (intro psubset_card_mono) auto
qed

text \<open>\<open>visit\<close> of \<open>validate_graph\<close>. The set \<open>visiting\<close> is passed down (the code removes the
  task again on the way back), the set \<open>visited\<close> is threaded through.\<close>

function (sequential) visit ::
    "graph \<Rightarrow> string set \<Rightarrow> string set \<Rightarrow> string \<Rightarrow> error + string set"
  and visit_each ::
    "graph \<Rightarrow> string set \<Rightarrow> string set \<Rightarrow> string list \<Rightarrow> error + string set" where
  "visit g visiting visited t =
     (if t \<in> visiting then Inl (ValueError ''workflow dependencies contain a cycle'')
      else if t \<in> visited then Inr visited
      else case map_of g t of
        None \<Rightarrow> Inl (KeyError t)
      | Some deps \<Rightarrow>
          (case visit_each g (insert t visiting) visited deps of
             Inl e \<Rightarrow> Inl e
           | Inr visited' \<Rightarrow> Inr (insert t visited')))"
| "visit_each g visiting visited [] = Inr visited"
| "visit_each g visiting visited (t # ts) =
     (case visit g visiting visited t of
        Inl e \<Rightarrow> Inl e
      | Inr visited' \<Rightarrow> visit_each g visiting visited' ts)"
  by pat_completeness auto

termination
  by (relation "measures [\<lambda>x. case x of Inl (g, vg, vd, t) \<Rightarrow> card (fst ` set g - vg)
                                      | Inr (g, vg, vd, ts) \<Rightarrow> card (fst ` set g - vg),
                          \<lambda>x. case x of Inl (g, vg, vd, t) \<Rightarrow> 0
                                      | Inr (g, vg, vd, ts) \<Rightarrow> Suc (length ts)]")
    (auto simp: visit_measure_decreases)

declare visit.simps [simp del]

fun check_dependencies :: "string set \<Rightarrow> graph \<Rightarrow> error + unit" where
  "check_dependencies known [] = Inr ()"
| "check_dependencies known ((t, deps) # g) =
     (if t \<in> set deps
      then Inl (ValueError (''workflow task cannot depend on itself: '' @ t))
      else let missing = filter (\<lambda>d. d \<notin> known) deps in
        if missing \<noteq> []
        then Inl (ValueError (''workflow task '' @ t @ '' has unknown dependencies: ''
               @ repr_str_list (sort (remdups missing))))
        else check_dependencies known g)"

definition validate_graph :: "workflow_spec \<Rightarrow> error + workflow_spec" where
  "validate_graph w =
     (let tasks = spec_tasks w; ids = map ts_id tasks;
          phase_ids = map ps_id (ws_phases w);
          graph = map (\<lambda>t. (ts_id t, ts_depends_on t)) tasks in
      if 100 < length tasks
      then Inl (ValueError ''workflow cannot contain more than 100 tasks'')
      else if \<not> distinct ids then Inl (ValueError ''workflow task ids must be unique'')
      else if \<not> distinct phase_ids then Inl (ValueError ''workflow phase ids must be unique'')
      else case check_dependencies (set ids) graph of
        Inl e \<Rightarrow> Inl e
      | Inr _ \<Rightarrow>
          (case visit_each graph {} {} ids of Inl e \<Rightarrow> Inl e | Inr _ \<Rightarrow> Inr w))"

text \<open>Building a \<open>WorkflowSpec\<close>: the field constraints, then the validator; pydantic turns the
  \<open>ValueError\<close> of a validator into a \<open>ValidationError\<close>.\<close>

definition make_workflow_spec :: "workflow_spec \<Rightarrow> error + workflow_spec" where
  "make_workflow_spec w =
     (if \<not> (list_all task_spec_fields_ok (spec_tasks w)
           \<and> list_all phase_spec_fields_ok (ws_phases w) \<and> workflow_spec_fields_ok w)
      then Inl (ValidationError ''WorkflowSpec'')
      else case validate_graph w of
        Inl (ValueError msg) \<Rightarrow> Inl (ValidationError msg)
      | r \<Rightarrow> r)"

fun find_task :: "workflow_phase_spec list \<Rightarrow> string \<Rightarrow> workflow_task_spec option" where
  "find_task [] tid = None"
| "find_task (p # ps) tid =
     (case find (\<lambda>t. ts_id t = tid) (ps_tasks p) of
        Some t \<Rightarrow> Some t
      | None \<Rightarrow> find_task ps tid)"

definition spec_task :: "workflow_spec \<Rightarrow> string \<Rightarrow> error + workflow_task_spec" where
  "spec_task w tid =
     (case find_task (ws_phases w) tid of Some t \<Rightarrow> Inr t | None \<Rightarrow> Inl (KeyError tid))"

definition phase_id_for :: "workflow_spec \<Rightarrow> string \<Rightarrow> error + string" where
  "phase_id_for w tid =
     (case find (\<lambda>p. list_ex (\<lambda>t. ts_id t = tid) (ps_tasks p)) (ws_phases w) of
        Some p \<Rightarrow> Inr (ps_id p)
      | None \<Rightarrow> Inl (KeyError tid))"

section \<open>A workflow from a plan\<close>

text \<open>\<open>PlanStep\<close> of \<^verbatim>\<open>agent/planning.py\<close>.\<close>

record plan_step =
  pl_id :: string
  pl_title :: string
  pl_tool_name :: string
  pl_skill_id :: "string option"
  pl_tool_input :: json_obj
  pl_approval_required :: bool
  pl_depends_on :: "string list option"
  pl_phase_id :: "string option"
  pl_phase_title :: "string option"
  pl_tool_mode :: string
  pl_model_hint :: string

text \<open>\<open>v or default\<close> on an optional string.\<close>

definition or_default :: "string option \<Rightarrow> string \<Rightarrow> string" where
  "or_default v d = (case v of None \<Rightarrow> d | Some x \<Rightarrow> if x = [] then d else x)"

definition line_break :: "char \<Rightarrow> bool" where
  "line_break c \<longleftrightarrow> of_char c \<in> ({10, 11, 12, 13, 28, 29, 30, 133} :: nat set)"

definition task_of_step :: "plan_step \<Rightarrow> string list \<Rightarrow> workflow_task_spec" where
  "task_of_step step deps =
     \<lparr>ts_id = pl_id step, ts_title = pl_title step, ts_description = pl_title step,
      ts_depends_on = deps, ts_preferred_tool = Some (pl_tool_name step),
      ts_tool_input = pl_tool_input step, ts_tool_mode = pl_tool_mode step,
      ts_model_hint = pl_model_hint step\<rparr>"

definition step_dependencies :: "plan_step \<Rightarrow> string option \<Rightarrow> string list" where
  "step_dependencies step previous =
     (case pl_depends_on step of
        Some ds \<Rightarrow> ds
      | None \<Rightarrow> (case previous of None \<Rightarrow> [] | Some p \<Rightarrow> if p = [] then [] else [p]))"

fun append_to_phase ::
  "string \<Rightarrow> workflow_task_spec \<Rightarrow> workflow_phase_spec list \<Rightarrow> workflow_phase_spec list" where
  "append_to_phase pid t [] = []"
| "append_to_phase pid t (p # ps) =
     (if ps_id p = pid then p\<lparr>ps_tasks := ps_tasks p @ [t]\<rparr> # ps
      else p # append_to_phase pid t ps)"

fun plan_phases ::
  "nat \<Rightarrow> string option \<Rightarrow> workflow_phase_spec list \<Rightarrow> plan_step list
   \<Rightarrow> error + workflow_phase_spec list" where
  "plan_phases i previous phases [] = Inr phases"
| "plan_phases i previous phases (step # plan) =
     (let phase_id = or_default (pl_phase_id step) (''phase_'' @ show_nat (i + 1));
          task = task_of_step step (step_dependencies step previous);
          new_phase = \<lparr>ps_id = phase_id,
                       ps_title = or_default (pl_phase_title step) (pl_title step),
                       ps_tasks = [task]\<rparr> in
      if \<not> task_spec_fields_ok task then Inl (ValidationError ''WorkflowTaskSpec'')
      else if phase_id \<in> set (map ps_id phases)
      then plan_phases (i + 1) (Some (pl_id step)) (append_to_phase phase_id task phases) plan
      else if \<not> phase_spec_fields_ok new_phase then Inl (ValidationError ''WorkflowPhaseSpec'')
      else plan_phases (i + 1) (Some (pl_id step)) (phases @ [new_phase]) plan)"

text \<open>The prompt holds one character beyond the model's alphabet (U+53EA); it is written as its
  three UTF-8 bytes.\<close>

definition synthesis_prompt :: string where
  "synthesis_prompt =
     ''Synthesize the verified task results into one direct answer that satisfies ''
     @ ''the user's original request. Honor its requested scope, format, and brevity; ''
     @ ''when it says only or '' @ [CHR 0xE5, CHR 0x8F, CHR 0xAA]
     @ '', return exactly the requested content. ''
     @ ''Do not add claims beyond the task evidence or ''
     @ ''infer the inverse or converse of a conditional rule. Do not mention internal ''
     @ ''workflow machinery.''"

definition workflow_spec_from_plan :: "string \<Rightarrow> plan_step list \<Rightarrow> error + workflow_spec" where
  "workflow_spec_from_plan goal plan =
     (case plan_phases 0 None [] plan of
        Inl e \<Rightarrow> Inl e
      | Inr phases \<Rightarrow>
          (let stripped = py_strip goal;
               title = take 200 (if stripped = [] then ''Workflow''
                                 else takeWhile (\<lambda>c. \<not> line_break c) stripped) in
           make_workflow_spec
             \<lparr>ws_name = title, ws_description = take 2000 stripped, ws_phases = phases,
              ws_max_concurrency = 4, ws_final_synthesis_prompt = synthesis_prompt\<rparr>))"

section \<open>The search decides acyclicity\<close>

definition edges :: "graph \<Rightarrow> (string \<times> string) set" where
  "edges g = {(t, d). \<exists>ds. map_of g t = Some ds \<and> d \<in> set ds}"

definition closed_acyclic :: "graph \<Rightarrow> string set \<Rightarrow> bool" where
  "closed_acyclic g V \<longleftrightarrow> edges g `` V \<subseteq> V \<and> acyclic (edges g \<inter> V \<times> V)"

text \<open>A node outside a closed set, all of whose successors are inside, closes no cycle.\<close>

lemma trancl_new_source:
  assumes "(a, b) \<in> (R \<union> {t} \<times> D)\<^sup>+" and "R \<subseteq> V \<times> V" and "D \<subseteq> V" and "t \<notin> V"
  shows "b \<in> V \<and> (a \<noteq> t \<longrightarrow> (a, b) \<in> R\<^sup>+)"
  using assms(1)
proof (induction rule: trancl_induct)
  case (base b)
  with assms(2-4) show ?case by auto
next
  case (step b c)
  then have "b \<noteq> t" using assms(4) by auto
  with step.hyps have "(b, c) \<in> R" by auto
  with step.IH assms(2) show ?case by (auto intro: trancl_into_trancl)
qed

lemma closed_acyclic_insert:
  assumes inv: "closed_acyclic g V" and t: "t \<notin> V" and deps: "map_of g t = Some ds" "set ds \<subseteq> V"
  shows "closed_acyclic g (insert t V)"
proof -
  let ?R = "edges g \<inter> V \<times> V"
  have "edges g \<inter> insert t V \<times> insert t V \<subseteq> ?R \<union> {t} \<times> set ds"
    using inv t deps by (auto simp: closed_acyclic_def edges_def)
  moreover have "acyclic (?R \<union> {t} \<times> set ds)"
  proof (rule acyclicI, rule allI, rule notI)
    fix x assume cyc: "(x, x) \<in> (?R \<union> {t} \<times> set ds)\<^sup>+"
    have "x \<in> V \<and> (x \<noteq> t \<longrightarrow> (x, x) \<in> ?R\<^sup>+)"
      by (rule trancl_new_source [OF cyc]) (use deps t in auto)
    with t inv show False by (auto simp: closed_acyclic_def acyclic_def)
  qed
  ultimately have "acyclic (edges g \<inter> insert t V \<times> insert t V)" by (blast intro: acyclic_subset)
  moreover have "edges g `` insert t V \<subseteq> insert t V"
    using inv deps by (auto simp: closed_acyclic_def edges_def)
  ultimately show ?thesis by (simp add: closed_acyclic_def)
qed

lemma visit_sound:
  "visit g vg vd t = Inr vd' \<Longrightarrow> closed_acyclic g vd \<Longrightarrow> vg \<inter> vd = {} \<Longrightarrow>
     closed_acyclic g vd' \<and> insert t vd \<subseteq> vd' \<and> vg \<inter> vd' = {}"
  "visit_each g vg vd ts = Inr vd' \<Longrightarrow> closed_acyclic g vd \<Longrightarrow> vg \<inter> vd = {} \<Longrightarrow>
     closed_acyclic g vd' \<and> set ts \<union> vd \<subseteq> vd' \<and> vg \<inter> vd' = {}"
proof (induction g vg vd t and g vg vd ts arbitrary: vd' and vd' rule: visit_visit_each.induct)
  case (1 g vg vd t)
  show ?case
  proof (cases "t \<in> vd")
    case True
    with "1.prems" show ?thesis by (subst (asm) visit.simps) (auto split: if_splits)
  next
    case False
    with "1.prems" obtain ds v where t: "t \<notin> vg" and ds: "map_of g t = Some ds"
      and v: "visit_each g (insert t vg) vd ds = Inr v" and vd': "vd' = insert t v"
      by (subst (asm) visit.simps) (auto split: if_splits option.splits sum.splits)
    have "closed_acyclic g v \<and> set ds \<union> vd \<subseteq> v \<and> insert t vg \<inter> v = {}"
      by (rule "1.IH" [OF t False ds v]) (use "1.prems" False in auto)
    with vd' ds t show ?thesis by (auto intro: closed_acyclic_insert)
  qed
next
  case (2 g vg vd)
  then show ?case by (simp add: visit.simps)
next
  case (3 g vg vd t ts)
  from "3.prems"(1) obtain v where v: "visit g vg vd t = Inr v"
    and vs: "visit_each g vg v ts = Inr vd'"
    by (auto simp: visit_each.simps(2) split: sum.splits)
  from "3.IH"(1) [OF v "3.prems"(2,3)]
  have v': "closed_acyclic g v \<and> insert t vd \<subseteq> v \<and> vg \<inter> v = {}" .
  with "3.IH"(2) [OF v vs] show ?case by auto
qed

lemma visit_complete:
  "acyclic (edges g) \<Longrightarrow> edges g `` (fst ` set g) \<subseteq> fst ` set g \<Longrightarrow> t \<in> fst ` set g \<Longrightarrow>
     \<forall>v\<in>vg. (v, t) \<in> (edges g)\<^sup>+ \<Longrightarrow> \<exists>vd'. visit g vg vd t = Inr vd'"
  "acyclic (edges g) \<Longrightarrow> edges g `` (fst ` set g) \<subseteq> fst ` set g \<Longrightarrow> set ts \<subseteq> fst ` set g \<Longrightarrow>
     \<forall>t\<in>set ts. \<forall>v\<in>vg. (v, t) \<in> (edges g)\<^sup>+ \<Longrightarrow> \<exists>vd'. visit_each g vg vd ts = Inr vd'"
proof (induction g vg vd t and g vg vd ts rule: visit_visit_each.induct)
  case (1 g vg vd t)
  from "1.prems"(1,4) have t: "t \<notin> vg" by (auto simp: acyclic_def)
  from "1.prems"(3) obtain ds where ds: "map_of g t = Some ds"
    by (cases "map_of g t") (auto simp: map_of_eq_None_iff)
  show ?case
  proof (cases "t \<in> vd")
    case True
    with t show ?thesis by (simp add: visit.simps)
  next
    case False
    have e: "d \<in> set ds \<Longrightarrow> (t, d) \<in> edges g" for d
      using ds by (auto simp: edges_def)
    have "\<exists>vd'. visit_each g (insert t vg) vd ds = Inr vd'"
    proof (rule "1.IH" [OF t False ds "1.prems"(1,2)])
      show "set ds \<subseteq> fst ` set g" using e "1.prems"(2,3) by blast
      show "\<forall>d\<in>set ds. \<forall>v\<in>insert t vg. (v, d) \<in> (edges g)\<^sup>+"
        using e "1.prems"(4) by (auto intro: trancl_into_trancl)
    qed
    with t ds show ?thesis by (auto simp: visit.simps(1))
  qed
next
  case (2 g vg vd)
  then show ?case by (simp add: visit.simps)
next
  case (3 g vg vd t ts)
  then obtain v where v: "visit g vg vd t = Inr v" by auto
  with 3 have "\<exists>vd'. visit_each g vg v ts = Inr vd'" by auto
  with v show ?case by (simp add: visit_each.simps(2))
qed

lemma closed_acyclic_empty: "closed_acyclic g {}"
  by (simp add: closed_acyclic_def acyclic_def)

lemma visit_each_iff_acyclic:
  assumes "edges g `` (fst ` set g) \<subseteq> fst ` set g"
  shows "(\<exists>vd. visit_each g {} {} (map fst g) = Inr vd) \<longleftrightarrow> acyclic (edges g)"
proof
  assume "\<exists>vd. visit_each g {} {} (map fst g) = Inr vd"
  then obtain vd where vd: "visit_each g {} {} (map fst g) = Inr vd" by blast
  have *: "closed_acyclic g vd \<and> set (map fst g) \<union> {} \<subseteq> vd \<and> {} \<inter> vd = {}"
    by (rule visit_sound(2) [OF vd closed_acyclic_empty]) simp
  have "edges g \<subseteq> edges g \<inter> vd \<times> vd"
  proof
    fix x assume "x \<in> edges g"
    then obtain t d ds where x: "x = (t, d)" and "map_of g t = Some ds" "d \<in> set ds"
      by (auto simp: edges_def)
    then have "t \<in> fst ` set g" by (force dest: map_of_SomeD)
    with * \<open>x \<in> edges g\<close> x show "x \<in> edges g \<inter> vd \<times> vd"
      by (auto simp: closed_acyclic_def)
  qed
  with * show "acyclic (edges g)" by (auto simp: closed_acyclic_def intro: acyclic_subset)
next
  assume "acyclic (edges g)"
  with assms show "\<exists>vd. visit_each g {} {} (map fst g) = Inr vd"
    by (intro visit_complete(2)) auto
qed

lemma check_dependencies_iff:
  "check_dependencies known g = Inr () \<longleftrightarrow>
     (\<forall>(t, ds) \<in> set g. t \<notin> set ds \<and> set ds \<subseteq> known)"
  by (induction known g rule: check_dependencies.induct)
    (auto simp: Let_def filter_empty_conv)

lemma visit_errors_are_value_errors:
  "visit g vg vd t = Inl e \<Longrightarrow> edges g `` (fst ` set g) \<subseteq> fst ` set g \<Longrightarrow> t \<in> fst ` set g \<Longrightarrow>
     e = ValueError ''workflow dependencies contain a cycle''"
  "visit_each g vg vd ts = Inl e \<Longrightarrow> edges g `` (fst ` set g) \<subseteq> fst ` set g \<Longrightarrow>
     set ts \<subseteq> fst ` set g \<Longrightarrow> e = ValueError ''workflow dependencies contain a cycle''"
proof (induction g vg vd t and g vg vd ts rule: visit_visit_each.induct)
  case (1 g vg vd t)
  show ?case
  proof (cases "t \<in> vg \<or> t \<in> vd")
    case True
    with "1.prems"(1) show ?thesis by (subst (asm) visit.simps) (auto split: if_splits)
  next
    case False
    from "1.prems"(3) obtain ds where ds: "map_of g t = Some ds"
      by (cases "map_of g t") (auto simp: map_of_eq_None_iff)
    with "1.prems"(1) False have "visit_each g (insert t vg) vd ds = Inl e"
      by (subst (asm) visit.simps) (auto split: sum.splits)
    moreover have "set ds \<subseteq> fst ` set g"
      using ds "1.prems"(2,3) by (auto simp: edges_def)
    ultimately show ?thesis using "1.IH" False ds "1.prems"(2) by blast
  qed
next
  case (2 g vg vd)
  then show ?case by (simp add: visit.simps)
next
  case (3 g vg vd t ts)
  then show ?case by (auto simp: visit_each.simps(2) split: sum.splits)
qed

section \<open>What validation accepts\<close>

definition task_graph :: "workflow_spec \<Rightarrow> graph" where
  "task_graph w = map (\<lambda>t. (ts_id t, ts_depends_on t)) (spec_tasks w)"

definition depends :: "workflow_spec \<Rightarrow> (string \<times> string) set" where
  "depends w = {(ts_id t, d) |t d. t \<in> set (spec_tasks w) \<and> d \<in> set (ts_depends_on t)}"

text \<open>The specification of a valid workflow: small, unambiguous, closed and acyclic.\<close>

definition well_formed_workflow :: "workflow_spec \<Rightarrow> bool" where
  "well_formed_workflow w \<longleftrightarrow>
     length (spec_tasks w) \<le> 100
     \<and> distinct (map ts_id (spec_tasks w)) \<and> distinct (map ps_id (ws_phases w))
     \<and> (\<forall>t \<in> set (spec_tasks w). set (ts_depends_on t) \<subseteq> ts_id ` set (spec_tasks w))
     \<and> acyclic (depends w)"

lemma fst_task_graph: "fst ` set (task_graph w) = ts_id ` set (spec_tasks w)"
  by (force simp: task_graph_def)

lemma map_fst_task_graph: "map fst (task_graph w) = map ts_id (spec_tasks w)"
  by (simp add: task_graph_def)

lemma edges_task_graph:
  assumes "distinct (map ts_id (spec_tasks w))"
  shows "edges (task_graph w) = depends w"
proof -
  from assms have "distinct (map fst (task_graph w))" by (simp add: map_fst_task_graph)
  then have "map_of (task_graph w) t = Some ds \<longleftrightarrow> (t, ds) \<in> set (task_graph w)" for t ds
    by (rule map_of_eq_Some_iff)
  then show ?thesis by (auto simp: edges_def depends_def task_graph_def)
qed

lemma depends_no_self: "acyclic (depends w) \<Longrightarrow> t \<in> set (spec_tasks w) \<Longrightarrow>
    ts_id t \<notin> set (ts_depends_on t)"
  by (auto simp: acyclic_def depends_def)

lemma check_task_graph_iff:
  "check_dependencies (ts_id ` set (spec_tasks w)) (task_graph w) = Inr () \<longleftrightarrow>
     (\<forall>t \<in> set (spec_tasks w). ts_id t \<notin> set (ts_depends_on t)
        \<and> set (ts_depends_on t) \<subseteq> ts_id ` set (spec_tasks w))"
  by (auto simp: check_dependencies_iff task_graph_def)

lemma closed_depends:
  "\<forall>t \<in> set (spec_tasks w). set (ts_depends_on t) \<subseteq> ts_id ` set (spec_tasks w) \<Longrightarrow>
   depends w `` (ts_id ` set (spec_tasks w)) \<subseteq> ts_id ` set (spec_tasks w)"
  by (fastforce simp: depends_def)

lemma validate_graph_alt:
  "validate_graph w =
     (if 100 < length (spec_tasks w)
      then Inl (ValueError ''workflow cannot contain more than 100 tasks'')
      else if \<not> distinct (map ts_id (spec_tasks w))
      then Inl (ValueError ''workflow task ids must be unique'')
      else if \<not> distinct (map ps_id (ws_phases w))
      then Inl (ValueError ''workflow phase ids must be unique'')
      else case check_dependencies (ts_id ` set (spec_tasks w)) (task_graph w) of
        Inl e \<Rightarrow> Inl e
      | Inr _ \<Rightarrow>
          (case visit_each (task_graph w) {} {} (map fst (task_graph w)) of
             Inl e \<Rightarrow> Inl e | Inr _ \<Rightarrow> Inr w))"
  by (simp add: validate_graph_def task_graph_def Let_def o_def cong: if_cong sum.case_cong)

lemma acyclic_search_task_graph:
  assumes "distinct (map ts_id (spec_tasks w))"
    and "\<forall>t \<in> set (spec_tasks w). set (ts_depends_on t) \<subseteq> ts_id ` set (spec_tasks w)"
  shows "(\<exists>vd. visit_each (task_graph w) {} {} (map fst (task_graph w)) = Inr vd)
    \<longleftrightarrow> acyclic (depends w)"
  using visit_each_iff_acyclic [of "task_graph w"] closed_depends [OF assms(2)]
  by (simp add: edges_task_graph [OF assms(1)] fst_task_graph)

lemma validate_graph_iff:
  "validate_graph w = Inr w' \<longleftrightarrow> w' = w \<and> well_formed_workflow w"
proof -
  let ?ids = "ts_id ` set (spec_tasks w)"
  have "validate_graph w = Inr w' \<longleftrightarrow> w' = w \<and> length (spec_tasks w) \<le> 100
      \<and> distinct (map ts_id (spec_tasks w)) \<and> distinct (map ps_id (ws_phases w))
      \<and> check_dependencies ?ids (task_graph w) = Inr ()
      \<and> (\<exists>vd. visit_each (task_graph w) {} {} (map fst (task_graph w)) = Inr vd)"
    by (auto simp: validate_graph_alt split: sum.splits)
  also have "\<dots> \<longleftrightarrow> w' = w \<and> well_formed_workflow w"
    unfolding well_formed_workflow_def check_task_graph_iff
    using acyclic_search_task_graph [of w] depends_no_self [of w] by blast
  finally show ?thesis .
qed

text \<open>A rejected graph is always rejected with a \<open>ValueError\<close>, never a \<open>KeyError\<close>.\<close>

lemma check_dependencies_error:
  "check_dependencies known g = Inl e \<Longrightarrow> \<exists>msg. e = ValueError msg"
  by (induction known g rule: check_dependencies.induct)
    (auto simp: Let_def split: if_splits)

lemma validate_graph_error:
  assumes "validate_graph w = Inl e"
  shows "\<exists>msg. e = ValueError msg"
proof (cases "check_dependencies (ts_id ` set (spec_tasks w)) (task_graph w)")
  case (Inl e')
  with assms check_dependencies_error [OF Inl] show ?thesis
    by (auto simp: validate_graph_alt split: if_splits)
next
  case (Inr u)
  show ?thesis
  proof (cases "visit_each (task_graph w) {} {} (map fst (task_graph w))")
    case (Inr vd)
    with assms \<open>check_dependencies _ _ = Inr u\<close> show ?thesis
      by (auto simp: validate_graph_alt split: if_splits)
  next
    case (Inl e')
    show ?thesis
    proof (cases "distinct (map ts_id (spec_tasks w))")
      case False
      with assms show ?thesis by (auto simp: validate_graph_alt split: if_splits)
    next
      case True
      have "\<forall>t \<in> set (spec_tasks w). set (ts_depends_on t) \<subseteq> ts_id ` set (spec_tasks w)"
        using Inr by (auto simp: check_task_graph_iff)
      then have "edges (task_graph w) `` (fst ` set (task_graph w)) \<subseteq> fst ` set (task_graph w)"
        using closed_depends [of w] by (simp add: edges_task_graph [OF True] fst_task_graph)
      with Inl have "e' = ValueError ''workflow dependencies contain a cycle''"
        by (rule visit_errors_are_value_errors(2)) simp
      with assms Inl Inr show ?thesis by (auto simp: validate_graph_alt split: if_splits)
    qed
  qed
qed

lemma find_task_Some_iff:
  "distinct (map ts_id (concat (map ps_tasks ps))) \<Longrightarrow>
   find_task ps tid = Some t \<longleftrightarrow> t \<in> set (concat (map ps_tasks ps)) \<and> ts_id t = tid"
proof (induction ps)
  case Nil
  then show ?case by simp
next
  case (Cons p ps)
  have d: "distinct (map ts_id (concat (map ps_tasks ps)))" using Cons.prems by simp
  show ?case
  proof (cases "find (\<lambda>t. ts_id t = tid) (ps_tasks p)")
    case None
    then have "\<forall>u\<in>set (ps_tasks p). ts_id u \<noteq> tid" by (simp add: find_None_iff)
    with None Cons.IH [OF d] show ?thesis by auto
  next
    case (Some u)
    then have u: "u \<in> set (ps_tasks p)" "ts_id u = tid" by (auto simp: find_Some_iff)
    have "v = u" if "v \<in> set (concat (map ps_tasks (p # ps)))" "ts_id v = tid" for v
      using inj_onD [OF conjunct2 [OF Cons.prems [unfolded distinct_map]], of v u] that u by auto
    with Some u show ?thesis by auto
  qed
qed

text \<open>In a valid workflow, looking a task up by id finds it, and nothing else.\<close>

lemma spec_task_iff:
  "well_formed_workflow w \<Longrightarrow>
   spec_task w tid = Inr t \<longleftrightarrow> t \<in> set (spec_tasks w) \<and> ts_id t = tid"
  using find_task_Some_iff [of "ws_phases w" tid t]
  by (auto simp: well_formed_workflow_def spec_task_def spec_tasks_def split: option.splits)

text \<open>Every non-empty set of tasks of a valid workflow has a task whose dependencies all lie
  outside the set: what keeps the scheduler from getting stuck.\<close>

lemma finite_depends: "finite (depends w)"
proof -
  have "depends w \<subseteq> (\<Union>t \<in> set (spec_tasks w). {ts_id t} \<times> set (ts_depends_on t))"
    by (auto simp: depends_def)
  then show ?thesis by (rule finite_subset) simp
qed

lemma well_formed_minimal:
  assumes "well_formed_workflow w" and "X \<noteq> {}"
  shows "\<exists>x \<in> X. \<forall>d. (x, d) \<in> depends w \<longrightarrow> d \<notin> X"
proof -
  have "wf ((depends w)\<inverse>)"
    using assms(1) finite_depends [of w]
    by (intro finite_acyclic_wf_converse) (auto simp: well_formed_workflow_def)
  with assms(2) obtain x where "x \<in> X" "\<forall>d. (d, x) \<in> (depends w)\<inverse> \<longrightarrow> d \<notin> X"
    by (metis ex_in_conv wf_eq_minimal)
  then show ?thesis by auto
qed

section \<open>Plans make valid workflows\<close>

lemma make_workflow_spec_Inr_iff:
  "make_workflow_spec w = Inr w' \<longleftrightarrow>
     w' = w \<and> list_all task_spec_fields_ok (spec_tasks w)
     \<and> list_all phase_spec_fields_ok (ws_phases w) \<and> workflow_spec_fields_ok w
     \<and> well_formed_workflow w"
  using validate_graph_iff [of w w']
  by (auto simp: make_workflow_spec_def split: sum.splits error.splits)

text \<open>Steps without dependencies of their own form a chain, in plan order.\<close>

lemma tasks_append_to_phase:
  "pid \<in> set (map ps_id phases) \<Longrightarrow>
   mset (concat (map ps_tasks (append_to_phase pid t phases)))
     = add_mset t (mset (concat (map ps_tasks phases)))"
  by (induction pid t phases rule: append_to_phase.induct) auto

lemma ps_ids_append_to_phase [simp]:
  "map ps_id (append_to_phase pid t phases) = map ps_id phases"
  by (induction pid t phases rule: append_to_phase.induct) auto

lemma plan_phases_tasks:
  "plan_phases i prev phases plan = Inr phases' \<Longrightarrow>
   image_mset ts_id (mset (concat (map ps_tasks phases')))
     = image_mset ts_id (mset (concat (map ps_tasks phases))) + mset (map pl_id plan)"
  by (induction i prev phases plan rule: plan_phases.induct)
    (auto simp: Let_def tasks_append_to_phase task_of_step_def split: if_splits)

lemma plan_phases_distinct:
  "plan_phases i prev phases plan = Inr phases' \<Longrightarrow> distinct (map ps_id phases) \<Longrightarrow>
   distinct (map ps_id phases')"
  by (induction i prev phases plan rule: plan_phases.induct)
    (auto simp: Let_def split: if_splits)

lemma workflow_spec_from_plan_tasks:
  assumes "workflow_spec_from_plan goal plan = Inr w"
  shows "well_formed_workflow w \<and> mset (map ts_id (spec_tasks w)) = mset (map pl_id plan)"
proof -
  from assms obtain phases where ph: "plan_phases 0 None [] plan = Inr phases"
    and w: "ws_phases w = phases" "well_formed_workflow w"
    by (auto simp: workflow_spec_from_plan_def Let_def make_workflow_spec_Inr_iff
        split: sum.splits)
  from plan_phases_tasks [OF ph] w show ?thesis
    by (simp add: spec_tasks_def)
qed

end
