(* ===== verification/StoreCore.thy ===== *)
theory StoreCore
  imports AgentModels WorkflowSpec
begin

text \<open>
  \<^verbatim>\<open>taroai/store.py\<close>, the state of \<open>InMemoryControlPlaneStore\<close> and the operations the others
  rest on: tenancy (workspaces, tenants, invitations of \<^verbatim>\<open>tenancy.py\<close>), the run event log, the
  audit log and the billing meters. Every operation runs under the store's lock, so it is one
  atomic step. Values are immutable, as the deep copies of the code make them.
\<close>

section \<open>Records kept by the store\<close>

text \<open>\<open>SecretCaptureRequest\<close> of \<^verbatim>\<open>secrets/models.py\<close>.\<close>

datatype capture_status = SC_PENDING | SC_RESOLVED | SC_CANCELLED

record secret_capture_request =
  sc_id :: string
  sc_tenant_id :: string
  sc_workspace_id :: string
  sc_run_id :: string
  sc_name :: string
  sc_tool_name :: "string option"
  sc_connector_id :: "string option"
  sc_action_id :: "string option"
  sc_actions :: "string list"
  sc_status :: capture_status
  sc_secret_ref_id :: "string option"
  sc_created_at :: datetime
  sc_resolved_at :: "datetime option"

text \<open>The license documents of \<^verbatim>\<open>licensing/models.py\<close>.\<close>

datatype license_status = LS_ACTIVE | LS_EXPIRED | LS_INVALID

record entitlement =
  en_feature :: string
  en_enabled :: bool
  en_limit :: "int option"
  en_expires_at :: "datetime option"

record license_key =
  lk_id :: string
  lk_tenant_id :: string
  lk_customer_name :: string
  lk_issued_at :: datetime
  lk_expires_at :: datetime
  lk_deployment_modes :: "string list"
  lk_entitlements :: "entitlement list"
  lk_offline_validation_allowed :: bool

record license_validation_result =
  lv_license :: license_key
  lv_status :: license_status
  lv_deployment_mode :: string
  lv_source :: string
  lv_reason :: string

text \<open>Invitations and the views of \<^verbatim>\<open>tenancy.py\<close>.\<close>

datatype invitation_status = IN_PENDING | IN_ACCEPTED | IN_REVOKED | IN_EXPIRED

record tenant_invitation_record =
  in_id :: string
  in_tenant_id :: string
  in_email :: string
  in_token_hash :: string
  in_invited_by_user_id :: string
  in_created_at :: datetime
  in_expires_at :: datetime
  in_accepted_at :: "datetime option"
  in_revoked_at :: "datetime option"
  in_accepted_by_user_id :: "string option"

record tenant_invitation =
  iv_id :: string
  iv_tenant_id :: string
  iv_email :: string
  iv_invited_by_user_id :: string
  iv_status :: invitation_status
  iv_created_at :: datetime
  iv_expires_at :: datetime
  iv_accepted_at :: "datetime option"
  iv_revoked_at :: "datetime option"
  iv_accepted_by_user_id :: "string option"

record tenant_info =
  ti_id :: string
  ti_name :: string

record workspace_info =
  wi_id :: string
  wi_tenant_id :: string
  wi_name :: string

definition invitation_public :: "tenant_invitation_record \<Rightarrow> datetime \<Rightarrow> tenant_invitation" where
  "invitation_public i now =
     \<lparr>iv_id = in_id i, iv_tenant_id = in_tenant_id i, iv_email = in_email i,
      iv_invited_by_user_id = in_invited_by_user_id i,
      iv_status = (if in_accepted_at i \<noteq> None then IN_ACCEPTED
                   else if in_revoked_at i \<noteq> None then IN_REVOKED
                   else if in_expires_at i \<le> now then IN_EXPIRED
                   else IN_PENDING),
      iv_created_at = in_created_at i, iv_expires_at = in_expires_at i,
      iv_accepted_at = in_accepted_at i, iv_revoked_at = in_revoked_at i,
      iv_accepted_by_user_id = in_accepted_by_user_id i\<rparr>"

section \<open>The store\<close>

text \<open>
  The dictionaries of the class, in its order. \<open>event_notifier\<close> says whether a listener is
  installed and \<open>notified\<close> is the trace of the calls made to it (the listener's exceptions are
  swallowed by the code, and it has no access to the store).
\<close>

record store = world +
  runs :: "(string, run) dict"
  run_events :: "(string, run_event list) dict"
  artifacts :: "(string, artifact list) dict"
  billing_meters :: "(string, billing_meter_event list) dict"
  audit_events :: "(string, audit_event list) dict"
  approval_requests :: "(string, approval_request list) dict"
  workflows :: "(string, workflow_run) dict"
  workflow_tasks :: "(string, workflow_task) dict"
  secret_capture_requests :: "(string, secret_capture_request) dict"
  runtime_states :: "(string, run_state_snapshot) dict"
  idempotency_records :: "(string, idempotency_record) dict"
  license_validations :: "(string, license_validation_result) dict"
  chat_threads :: "(string, chat_thread) dict"
  chat_messages :: "(string, chat_message) dict"
  notifications :: "(string, notification) dict"
  agent_cycles :: "(string, agent_cycle) dict"
  agent_actions :: "(string, agent_action) dict"
  agent_checkpoints :: "(string, agent_checkpoint list) dict"
  workspace_tenants :: "(string, string) dict"
  workspace_names :: "(string, string) dict"
  tenant_names :: "(string, string) dict"
  tenant_invitations :: "(string, tenant_invitation_record) dict"
  user_tenants :: "(string, string) dict"
  event_notifier :: bool
  notified :: "string list"

definition empty_store :: "(nat \<Rightarrow> datetime) \<Rightarrow> (nat \<Rightarrow> string) \<Rightarrow> bool \<Rightarrow> store" where
  "empty_store clk uuids notifier =
     \<lparr>clock = clk, uuid4_hex = uuids, tick = 0,
      runs = [], run_events = [], artifacts = [], billing_meters = [], audit_events = [],
      approval_requests = [], workflows = [], workflow_tasks = [], secret_capture_requests = [],
      runtime_states = [], idempotency_records = [], license_validations = [],
      chat_threads = [], chat_messages = [], notifications = [], agent_cycles = [],
      agent_actions = [], agent_checkpoints = [], workspace_tenants = [], workspace_names = [],
      tenant_names = [], tenant_invitations = [], user_tenants = [],
      event_notifier = notifier, notified = []\<rparr>"

section \<open>Ownership of workspaces and users\<close>

definition validate_context_ownership ::
  "string \<Rightarrow> string \<Rightarrow> string \<Rightarrow> (store, unit) op" where
  "validate_context_ownership tenant_id workspace_id user_id =
     andThen (gets (\<lambda>s. dict_get (workspace_tenants s) workspace_id)) (\<lambda>workspace_tenant.
     andThen (require (workspace_tenant = None \<or> workspace_tenant = Some tenant_id)
       (TenantAccessError (''Workspace '' @ workspace_id @ '' is not in tenant '' @ tenant_id)))
       (\<lambda>_.
     andThen (gets (\<lambda>s. dict_get (user_tenants s) user_id)) (\<lambda>user_tenant.
     require (user_tenant = None \<or> user_tenant = Some tenant_id)
       (TenantAccessError (''User '' @ user_id @ '' is not in tenant '' @ tenant_id)))))"

definition register_context :: "string \<Rightarrow> string \<Rightarrow> string \<Rightarrow> (store, unit) op" where
  "register_context tenant_id workspace_id user_id =
     modify (\<lambda>s. s\<lparr>workspace_tenants := dict_set workspace_id tenant_id (workspace_tenants s),
                   user_tenants := dict_set user_id tenant_id (user_tenants s)\<rparr>)"

definition ensure_context :: "string \<Rightarrow> string \<Rightarrow> string \<Rightarrow> (store, unit) op" where
  "ensure_context tenant_id workspace_id user_id =
     andThen (validate_context_ownership tenant_id workspace_id user_id) (\<lambda>_.
     register_context tenant_id workspace_id user_id)"

section \<open>The event log\<close>

definition all_events :: "store \<Rightarrow> run_event list" where
  "all_events s = concat (dict_values (run_events s))"

definition thread_events_of :: "string \<Rightarrow> string \<Rightarrow> store \<Rightarrow> run_event list" where
  "thread_events_of tenant_id thread_id s =
     filter (\<lambda>e. ev_tenant_id e = tenant_id \<and> ev_thread_id e = Some thread_id) (all_events s)"

text \<open>\<open>event.thread_sequence or 0\<close>.\<close>

definition thread_sequence_or_0 :: "run_event \<Rightarrow> int" where
  "thread_sequence_or_0 e = (case ev_thread_sequence e of None \<Rightarrow> 0 | Some n \<Rightarrow> n)"

definition next_thread_sequence :: "run \<Rightarrow> store \<Rightarrow> int option" where
  "next_thread_sequence r s =
     (case r_thread_id r of
        None \<Rightarrow> None
      | Some thread \<Rightarrow>
          Some (max_default (map thread_sequence_or_0 (thread_events_of (r_tenant_id r) thread s)) 0
                + 1))"

definition notify_thread_event :: "run_event \<Rightarrow> (store, unit) op" where
  "notify_thread_event e =
     andThen (gets event_notifier) (\<lambda>notifier.
     case ev_thread_id e of
       None \<Rightarrow> ret ()
     | Some thread \<Rightarrow>
         whenever notifier (modify (\<lambda>s. s\<lparr>notified := notified s @ [thread]\<rparr>)))"

definition append_run_event ::
  "run \<Rightarrow> string \<Rightarrow> json_obj \<Rightarrow> (store, run_event) op" where
  "append_run_event r event_type payload =
     andThen (gets (\<lambda>s. int (length (dict_get_list (run_events s) (r_id r))) + 1)) (\<lambda>sequence.
     andThen (gets (next_thread_sequence r)) (\<lambda>thread_sequence.
     andThen (new_id ''event'') (\<lambda>event_id.
     andThen utc_now (\<lambda>now.
     let event =
       \<lparr>ev_id = event_id, ev_sequence = sequence, ev_tenant_id = r_tenant_id r,
        ev_workspace_id = r_workspace_id r, ev_run_id = r_id r, ev_type = event_type,
        ev_payload = payload, ev_created_at = now, ev_thread_id = r_thread_id r,
        ev_thread_sequence = thread_sequence\<rparr> in
     andThen (modify (\<lambda>s. s\<lparr>run_events := dict_append (r_id r) event (run_events s)\<rparr>)) (\<lambda>_.
     andThen (notify_thread_event event) (\<lambda>_.
     ret event))))))"

section \<open>Audit and billing\<close>

definition record_audit_event_internal ::
  "string \<Rightarrow> string option \<Rightarrow> string option \<Rightarrow> string option \<Rightarrow> string \<Rightarrow> json_obj
   \<Rightarrow> (store, audit_event) op" where
  "record_audit_event_internal tenant_id workspace_id user_id run_id event_type metadata =
     andThen (new_id ''audit'') (\<lambda>audit_id.
     andThen utc_now (\<lambda>now.
     let event =
       \<lparr>au_id = audit_id, au_tenant_id = tenant_id, au_workspace_id = workspace_id,
        au_user_id = user_id, au_run_id = run_id, au_event_type = event_type,
        au_metadata = metadata, au_created_at = now\<rparr> in
     andThen (modify (\<lambda>s. s\<lparr>audit_events := dict_append tenant_id event (audit_events s)\<rparr>)) (\<lambda>_.
     case run_id of
       None \<Rightarrow> ret event
     | Some rid \<Rightarrow>
         andThen (gets (\<lambda>s. dict_get (runs s) rid)) (\<lambda>found.
         case found of
           None \<Rightarrow> raise (KeyError rid)
         | Some r \<Rightarrow>
             andThen (append_run_event r ''audit.recorded'' [(''audit_event_id'', JStr audit_id)])
               (\<lambda>_. ret event)))))"

definition billing_audit_metadata :: "billing_meter_event \<Rightarrow> json_obj" where
  "billing_audit_metadata m =
     [(''meter_id'', JStr (bm_id m)), (''meter_type'', JStr (bm_meter_type m)),
      (''quantity'', JFloat (bm_quantity m)), (''unit'', JStr (bm_unit m)),
      (''skill_id'', opt_str (bm_skill_id m)), (''provider'', opt_str (bm_provider m)),
      (''model'', opt_str (bm_model m)), (''cost_estimate'', opt_float (bm_cost_estimate m))]"

definition record_billing_audit_event :: "billing_meter_event \<Rightarrow> (store, audit_event) op" where
  "record_billing_audit_event m =
     record_audit_event_internal (bm_tenant_id m) (Some (bm_workspace_id m)) (Some (bm_user_id m))
       (bm_run_id m) ''billing.metered'' (billing_audit_metadata m)"

definition append_meter :: "billing_meter_event \<Rightarrow> (store, unit) op" where
  "append_meter m =
     modify (\<lambda>s. s\<lparr>billing_meters := dict_append (bm_tenant_id m) m (billing_meters s)\<rparr>)"

definition billing_metered_payload :: "billing_meter_event \<Rightarrow> json_obj" where
  "billing_metered_payload m =
     [(''meter_id'', JStr (bm_id m)), (''type'', JStr (bm_meter_type m))]"

definition record_run_meter :: "run \<Rightarrow> (store, billing_meter_event) op" where
  "record_run_meter r =
     andThen (new_id ''meter'') (\<lambda>meter_id.
     andThen utc_now (\<lambda>now.
     let m =
       \<lparr>bm_id = meter_id, bm_tenant_id = r_tenant_id r, bm_workspace_id = r_workspace_id r,
        bm_user_id = r_user_id r, bm_run_id = Some (r_id r), bm_agent_id = r_agent_id r,
        bm_skill_id = None, bm_meter_type = ''run_count'', bm_quantity = 1, bm_unit = ''run'',
        bm_provider = None, bm_model = None, bm_cost_estimate = None,
        bm_metadata = [(''mode'', JStr (run_mode_value (r_mode r)))], bm_created_at = now\<rparr> in
     andThen (append_meter m) (\<lambda>_.
     andThen (append_run_event r ''billing.metered'' (billing_metered_payload m)) (\<lambda>_.
     andThen (record_billing_audit_event m) (\<lambda>_.
     ret m)))))"

section \<open>Lookup of runs\<close>

definition get_run :: "string \<Rightarrow> string \<Rightarrow> (store, run) op" where
  "get_run tenant_id run_id =
     andThen (gets (\<lambda>s. dict_get (runs s) run_id)) (\<lambda>found.
     case found of
       None \<Rightarrow> raise (NotFoundError (''Run not found: '' @ run_id))
     | Some r \<Rightarrow>
         andThen (require (r_tenant_id r = tenant_id)
           (TenantAccessError (''Run '' @ run_id @ '' is not in tenant '' @ tenant_id))) (\<lambda>_.
         ret r))"

definition record_audit_event ::
  "string \<Rightarrow> string option \<Rightarrow> string option \<Rightarrow> string option \<Rightarrow> string \<Rightarrow> json_obj
   \<Rightarrow> (store, audit_event) op" where
  "record_audit_event tenant_id workspace_id user_id run_id event_type metadata =
     andThen (case run_id of None \<Rightarrow> ret () | Some rid \<Rightarrow> void (get_run tenant_id rid)) (\<lambda>_.
     record_audit_event_internal tenant_id workspace_id user_id run_id event_type metadata)"

definition record_billing_meter ::
  "string \<Rightarrow> string option \<Rightarrow> string \<Rightarrow> rat \<Rightarrow> string \<Rightarrow> json_obj \<Rightarrow> string option
   \<Rightarrow> string option \<Rightarrow> string option \<Rightarrow> rat option \<Rightarrow> string option \<Rightarrow> string option
   \<Rightarrow> string option \<Rightarrow> (store, billing_meter_event) op" where
  "record_billing_meter tenant_id run_id meter_type quantity unit_name metadata skill_id provider
     model cost_estimate workspace_id user_id agent_id =
     andThen (case run_id of
        None \<Rightarrow> ret None
      | Some rid \<Rightarrow> andThen (get_run tenant_id rid) (\<lambda>r. ret (Some r))) (\<lambda>found.
     let resolved_workspace = (case found of Some r \<Rightarrow> Some (r_workspace_id r) | None \<Rightarrow> workspace_id);
         resolved_user = (case found of Some r \<Rightarrow> Some (r_user_id r) | None \<Rightarrow> user_id);
         resolved_agent = (case found of Some r \<Rightarrow> r_agent_id r | None \<Rightarrow> agent_id) in
     case (resolved_workspace, resolved_user) of
       (Some workspace, Some user) \<Rightarrow>
         andThen (new_id ''meter'') (\<lambda>meter_id.
         andThen utc_now (\<lambda>now.
         andThen (require (meter_type \<in> set meter_types) (ValidationError ''BillingMeterEvent'')) (\<lambda>_.
         let m =
           \<lparr>bm_id = meter_id, bm_tenant_id = tenant_id, bm_workspace_id = workspace,
            bm_user_id = user, bm_run_id = (case found of Some r \<Rightarrow> Some (r_id r) | None \<Rightarrow> None),
            bm_agent_id = resolved_agent, bm_skill_id = skill_id, bm_meter_type = meter_type,
            bm_quantity = quantity, bm_unit = unit_name, bm_provider = provider,
            bm_model = model, bm_cost_estimate = cost_estimate, bm_metadata = metadata,
            bm_created_at = now\<rparr> in
         andThen (append_meter m) (\<lambda>_.
         andThen (case found of
             None \<Rightarrow> ret ()
           | Some r \<Rightarrow> void (append_run_event r ''billing.metered'' (billing_metered_payload m)))
           (\<lambda>_.
         andThen (record_billing_audit_event m) (\<lambda>_.
         ret m))))))
     | _ \<Rightarrow>
         raise (ValueError
           ''workspace_id and user_id are required when run_id is not provided''))"

definition list_billing_meters :: "string \<Rightarrow> (store, billing_meter_event list) op" where
  "list_billing_meters tenant_id = gets (\<lambda>s. dict_get_list (billing_meters s) tenant_id)"

definition sum_run_billing_cost :: "string \<Rightarrow> string \<Rightarrow> (store, rat) op" where
  "sum_run_billing_cost tenant_id run_id =
     gets (\<lambda>s. sum_list (map (\<lambda>m. case bm_cost_estimate m of None \<Rightarrow> 0 | Some c \<Rightarrow> c)
       (filter (\<lambda>m. bm_run_id m = Some run_id) (dict_get_list (billing_meters s) tenant_id))))"

definition list_audit_events :: "string \<Rightarrow> (store, audit_event list) op" where
  "list_audit_events tenant_id = gets (\<lambda>s. dict_get_list (audit_events s) tenant_id)"

section \<open>Tenants, workspaces, invitations\<close>

definition register_workspace ::
  "string \<Rightarrow> string \<Rightarrow> string \<Rightarrow> string option \<Rightarrow> (store, unit) op" where
  "register_workspace tenant_id workspace_id user_id workspace_name =
     andThen (validate_context_ownership tenant_id workspace_id user_id) (\<lambda>_.
     andThen (register_context tenant_id workspace_id user_id) (\<lambda>_.
     modify (\<lambda>s. s\<lparr>tenant_names := dict_setdefault tenant_id tenant_id (tenant_names s),
                   workspace_names := dict_setdefault workspace_id
                     (or_default workspace_name workspace_id) (workspace_names s)\<rparr>)))"

definition list_workspace_ids :: "string \<Rightarrow> (store, string list) op" where
  "list_workspace_ids tenant_id =
     gets (\<lambda>s. map fst (filter (\<lambda>kv. snd kv = tenant_id) (workspace_tenants s)))"

definition get_tenant :: "string \<Rightarrow> (store, tenant_info) op" where
  "get_tenant tenant_id =
     andThen (gets (\<lambda>s. dict_get (tenant_names s) tenant_id)) (\<lambda>name.
     andThen (gets (\<lambda>s. tenant_id \<in> set (dict_values (workspace_tenants s)))) (\<lambda>owns.
     andThen (require (name \<noteq> None \<or> owns)
       (NotFoundError (''Tenant not found: '' @ tenant_id))) (\<lambda>_.
     ret \<lparr>ti_id = tenant_id, ti_name = (case name of None \<Rightarrow> tenant_id | Some n \<Rightarrow> n)\<rparr>)))"

definition rename_tenant :: "string \<Rightarrow> string \<Rightarrow> (store, tenant_info) op" where
  "rename_tenant tenant_id name =
     andThen (get_tenant tenant_id) (\<lambda>_.
     andThen (modify (\<lambda>s. s\<lparr>tenant_names := dict_set tenant_id name (tenant_names s)\<rparr>)) (\<lambda>_.
     ret \<lparr>ti_id = tenant_id, ti_name = name\<rparr>))"

definition list_workspaces :: "string \<Rightarrow> (store, workspace_info list) op" where
  "list_workspaces tenant_id =
     andThen (list_workspace_ids tenant_id) (\<lambda>ids.
     gets (\<lambda>s. map (\<lambda>w. \<lparr>wi_id = w, wi_tenant_id = tenant_id,
        wi_name = (case dict_get (workspace_names s) w of None \<Rightarrow> w | Some n \<Rightarrow> n)\<rparr>) ids))"

definition create_workspace ::
  "string \<Rightarrow> string \<Rightarrow> string \<Rightarrow> string \<Rightarrow> (store, workspace_info) op" where
  "create_workspace tenant_id workspace_id user_id name =
     andThen (gets (\<lambda>s. dict_get (workspace_tenants s) workspace_id)) (\<lambda>existing.
     andThen (require (existing = None)
       (ValueError (''Workspace already exists: '' @ workspace_id))) (\<lambda>_.
     andThen (register_workspace tenant_id workspace_id user_id (Some name)) (\<lambda>_.
     ret \<lparr>wi_id = workspace_id, wi_tenant_id = tenant_id, wi_name = name\<rparr>)))"

definition rename_workspace ::
  "string \<Rightarrow> string \<Rightarrow> string \<Rightarrow> (store, workspace_info) op" where
  "rename_workspace tenant_id workspace_id name =
     andThen (gets (\<lambda>s. dict_get (workspace_tenants s) workspace_id)) (\<lambda>owner.
     andThen (require (owner = Some tenant_id)
       (NotFoundError (''Workspace not found: '' @ workspace_id))) (\<lambda>_.
     andThen (modify (\<lambda>s. s\<lparr>workspace_names := dict_set workspace_id name (workspace_names s)\<rparr>))
       (\<lambda>_.
     ret \<lparr>wi_id = workspace_id, wi_tenant_id = tenant_id, wi_name = name\<rparr>)))"

definition put_invitation :: "tenant_invitation_record \<Rightarrow> (store, tenant_invitation_record) op" where
  "put_invitation i =
     andThen (modify (\<lambda>s. s\<lparr>tenant_invitations := dict_set (in_id i) i (tenant_invitations s)\<rparr>))
       (\<lambda>_. ret i)"

definition create_tenant_invitation ::
  "tenant_invitation_record \<Rightarrow> (store, tenant_invitation_record) op" where
  "create_tenant_invitation i =
     andThen (get_tenant (in_tenant_id i)) (\<lambda>_. put_invitation i)"

definition list_tenant_invitations :: "string \<Rightarrow> (store, tenant_invitation_record list) op" where
  "list_tenant_invitations tenant_id =
     gets (\<lambda>s. sorted_desc (\<lambda>i. (in_created_at i, in_id i))
       (filter (\<lambda>i. in_tenant_id i = tenant_id) (dict_values (tenant_invitations s))))"

definition get_tenant_invitation ::
  "string \<Rightarrow> string \<Rightarrow> (store, tenant_invitation_record) op" where
  "get_tenant_invitation tenant_id invitation_id =
     andThen (gets (\<lambda>s. dict_get (tenant_invitations s) invitation_id)) (\<lambda>found.
     case found of
       None \<Rightarrow> raise (NotFoundError (''Tenant invitation not found: '' @ invitation_id))
     | Some i \<Rightarrow>
         andThen (require (in_tenant_id i = tenant_id)
           (NotFoundError (''Tenant invitation not found: '' @ invitation_id))) (\<lambda>_.
         ret i))"

definition get_tenant_invitation_by_token_hash ::
  "string \<Rightarrow> string \<Rightarrow> (store, tenant_invitation_record) op" where
  "get_tenant_invitation_by_token_hash tenant_id token_hash =
     andThen (gets (\<lambda>s. find (\<lambda>i. in_tenant_id i = tenant_id \<and> in_token_hash i = token_hash)
       (dict_values (tenant_invitations s)))) (\<lambda>found.
     case found of
       Some i \<Rightarrow> ret i
     | None \<Rightarrow> raise (NotFoundError ''Tenant invitation not found''))"

definition revoke_tenant_invitation ::
  "string \<Rightarrow> string \<Rightarrow> datetime \<Rightarrow> (store, tenant_invitation_record) op" where
  "revoke_tenant_invitation tenant_id invitation_id revoked_at =
     andThen (get_tenant_invitation tenant_id invitation_id) (\<lambda>i.
     andThen (require (iv_status (invitation_public i revoked_at) = IN_PENDING)
       (ValueError ''Tenant invitation is no longer pending'')) (\<lambda>_.
     put_invitation (i\<lparr>in_revoked_at := Some revoked_at\<rparr>)))"

definition accept_tenant_invitation ::
  "string \<Rightarrow> string \<Rightarrow> string \<Rightarrow> datetime \<Rightarrow> (store, tenant_invitation_record) op" where
  "accept_tenant_invitation tenant_id invitation_id accepted_by_user_id accepted_at =
     andThen (get_tenant_invitation tenant_id invitation_id) (\<lambda>i.
     andThen (require (iv_status (invitation_public i accepted_at) = IN_PENDING)
       (ValueError ''Tenant invitation is no longer pending'')) (\<lambda>_.
     put_invitation (i\<lparr>in_accepted_at := Some accepted_at,
                       in_accepted_by_user_id := Some accepted_by_user_id\<rparr>)))"

end
