(* ===== verification/StoreChat.thy ===== *)
theory StoreChat
  imports StoreCore
begin

text \<open>
  \<^verbatim>\<open>taroai/store.py\<close>, chat threads and messages: creation, tenant-scoped lookup, keyword
  updates, sequence numbers, claiming the next queued message and steering messages.
\<close>

section \<open>Threads\<close>

definition create_chat_thread ::
  "string \<Rightarrow> string \<Rightarrow> chat_thread_create \<Rightarrow> (store, chat_thread) op" where
  "create_chat_thread tenant_id user_id payload =
     andThen utc_now (\<lambda>now.
     andThen (new_id ''thread'') (\<lambda>thread_id.
     let thread =
       \<lparr>th_id = thread_id, th_tenant_id = tenant_id, th_workspace_id = tc_workspace_id payload,
        th_created_by_user_id = user_id, th_title = tc_title payload, th_status = TS_ACTIVE,
        th_pinned = False, th_provider_id = tc_provider_id payload,
        th_model_id = tc_model_id payload, th_reasoning_effort = tc_reasoning_effort payload,
        th_sandbox_session_id = tc_sandbox_session_id payload,
        th_created_at = now, th_updated_at = now\<rparr> in
     andThen (ensure_context tenant_id (tc_workspace_id payload) user_id) (\<lambda>_.
     andThen (modify (\<lambda>s. s\<lparr>chat_threads := dict_set thread_id thread (chat_threads s)\<rparr>)) (\<lambda>_.
     ret thread))))"

definition get_chat_thread :: "string \<Rightarrow> string \<Rightarrow> (store, chat_thread) op" where
  "get_chat_thread tenant_id thread_id =
     andThen (gets (\<lambda>s. dict_get (chat_threads s) thread_id)) (\<lambda>found.
     case found of
       None \<Rightarrow> raise (NotFoundError (''Chat thread not found: '' @ thread_id))
     | Some th \<Rightarrow>
         andThen (require (th_tenant_id th = tenant_id)
           (TenantAccessError (''Chat thread '' @ thread_id @ '' is not in tenant '' @ tenant_id)))
           (\<lambda>_. ret th))"

definition list_chat_threads :: "string \<Rightarrow> string option \<Rightarrow> (store, chat_thread list) op" where
  "list_chat_threads tenant_id workspace_id =
     gets (\<lambda>s. sorted_desc (\<lambda>th. (th_updated_at th, th_id th))
       (filter (\<lambda>th. th_tenant_id th = tenant_id
          \<and> (workspace_id = None \<or> workspace_id = Some (th_workspace_id th)))
          (dict_values (chat_threads s))))"

text \<open>The keyword arguments of \<open>update_chat_thread\<close>; \<open>CT_other\<close> is any other keyword.\<close>

datatype thread_change =
    CT_title string
  | CT_status chat_thread_status
  | CT_pinned bool
  | CT_provider_id "string option"
  | CT_model_id "string option"
  | CT_reasoning_effort "string option"
  | CT_sandbox_session_id "string option"
  | CT_other string

fun apply_thread_change :: "chat_thread \<Rightarrow> thread_change \<Rightarrow> chat_thread" where
  "apply_thread_change th (CT_title v) = th\<lparr>th_title := v\<rparr>"
| "apply_thread_change th (CT_status v) = th\<lparr>th_status := v\<rparr>"
| "apply_thread_change th (CT_pinned v) = th\<lparr>th_pinned := v\<rparr>"
| "apply_thread_change th (CT_provider_id v) = th\<lparr>th_provider_id := v\<rparr>"
| "apply_thread_change th (CT_model_id v) = th\<lparr>th_model_id := v\<rparr>"
| "apply_thread_change th (CT_reasoning_effort v) = th\<lparr>th_reasoning_effort := v\<rparr>"
| "apply_thread_change th (CT_sandbox_session_id v) = th\<lparr>th_sandbox_session_id := v\<rparr>"
| "apply_thread_change th (CT_other _) = th"

definition unknown_thread_fields :: "thread_change list \<Rightarrow> string list" where
  "unknown_thread_fields changes =
     concat (map (\<lambda>c. case c of CT_other k \<Rightarrow> [k] | _ \<Rightarrow> []) changes)"

definition update_chat_thread ::
  "string \<Rightarrow> string \<Rightarrow> thread_change list \<Rightarrow> (store, chat_thread) op" where
  "update_chat_thread tenant_id thread_id changes =
     andThen (require (unknown_thread_fields changes = [])
       (ValueError (''Unsupported chat thread fields: ''
          @ repr_str_list (sort (remdups (unknown_thread_fields changes)))))) (\<lambda>_.
     andThen (get_chat_thread tenant_id thread_id) (\<lambda>th.
     andThen utc_now (\<lambda>now.
     let updated = (foldl apply_thread_change th changes)\<lparr>th_updated_at := now\<rparr> in
     andThen (modify (\<lambda>s. s\<lparr>chat_threads := dict_set thread_id updated (chat_threads s)\<rparr>)) (\<lambda>_.
     ret updated))))"

section \<open>Messages\<close>

definition next_message_sequence :: "string \<Rightarrow> store \<Rightarrow> int" where
  "next_message_sequence thread_id s =
     max_default (map m_sequence
       (filter (\<lambda>m. m_thread_id m = thread_id) (dict_values (chat_messages s)))) 0 + 1"

definition append_chat_message ::
  "string \<Rightarrow> string \<Rightarrow> string option \<Rightarrow> chat_message_create \<Rightarrow> (store, chat_message) op" where
  "append_chat_message tenant_id thread_id user_id payload =
     andThen (get_chat_thread tenant_id thread_id) (\<lambda>thread.
     andThen (case user_id of
         None \<Rightarrow> ret ()
       | Some user \<Rightarrow> ensure_context tenant_id (th_workspace_id thread) user) (\<lambda>_.
     andThen (gets (next_message_sequence thread_id)) (\<lambda>sequence.
     andThen utc_now (\<lambda>now.
     andThen (new_id ''message'') (\<lambda>message_id.
     let message =
       \<lparr>m_id = message_id, m_tenant_id = tenant_id, m_workspace_id = th_workspace_id thread,
        m_thread_id = thread_id, m_sequence = sequence, m_created_by_user_id = user_id,
        m_role = mc_role payload, m_content = mc_content payload,
        m_execution_content = mc_execution_content payload, m_kind = mc_kind payload,
        m_dispatch_status = mc_dispatch_status payload,
        m_delivery_status = mc_delivery_status payload, m_attachments = mc_attachments payload,
        m_resource_refs = mc_resource_refs payload, m_created_at = now, m_updated_at = now\<rparr> in
     andThen (modify (\<lambda>s. s\<lparr>chat_messages := dict_set message_id message (chat_messages s)\<rparr>)) (\<lambda>_.
     andThen (modify (\<lambda>s. s\<lparr>chat_threads :=
         dict_set thread_id (thread\<lparr>th_updated_at := now\<rparr>) (chat_threads s)\<rparr>)) (\<lambda>_.
     ret message)))))))"

definition get_chat_message :: "string \<Rightarrow> string \<Rightarrow> (store, chat_message) op" where
  "get_chat_message tenant_id message_id =
     andThen (gets (\<lambda>s. dict_get (chat_messages s) message_id)) (\<lambda>found.
     case found of
       None \<Rightarrow> raise (NotFoundError (''Chat message not found: '' @ message_id))
     | Some m \<Rightarrow>
         andThen (require (m_tenant_id m = tenant_id)
           (TenantAccessError (''Chat message '' @ message_id @ '' is not in tenant '' @ tenant_id)))
           (\<lambda>_. ret m))"

definition list_chat_messages :: "string \<Rightarrow> string \<Rightarrow> (store, chat_message list) op" where
  "list_chat_messages tenant_id thread_id =
     andThen (get_chat_thread tenant_id thread_id) (\<lambda>_.
     gets (\<lambda>s. sort_key (\<lambda>m. (m_sequence m, m_id m))
       (filter (\<lambda>m. m_tenant_id m = tenant_id \<and> m_thread_id m = thread_id)
          (dict_values (chat_messages s)))))"

datatype message_change =
    CM_content string
  | CM_execution_content "string option"
  | CM_kind string
  | CM_dispatch_status dispatch_status
  | CM_delivery_status delivery_status
  | CM_attachments "string list"
  | CM_resource_refs "resource_reference list"
  | CM_other string

fun apply_message_change :: "chat_message \<Rightarrow> message_change \<Rightarrow> chat_message" where
  "apply_message_change m (CM_content v) = m\<lparr>m_content := v\<rparr>"
| "apply_message_change m (CM_execution_content v) = m\<lparr>m_execution_content := v\<rparr>"
| "apply_message_change m (CM_kind v) = m\<lparr>m_kind := v\<rparr>"
| "apply_message_change m (CM_dispatch_status v) = m\<lparr>m_dispatch_status := v\<rparr>"
| "apply_message_change m (CM_delivery_status v) = m\<lparr>m_delivery_status := v\<rparr>"
| "apply_message_change m (CM_attachments v) = m\<lparr>m_attachments := v\<rparr>"
| "apply_message_change m (CM_resource_refs v) = m\<lparr>m_resource_refs := v\<rparr>"
| "apply_message_change m (CM_other _) = m"

definition unknown_message_fields :: "message_change list \<Rightarrow> string list" where
  "unknown_message_fields changes =
     concat (map (\<lambda>c. case c of CM_other k \<Rightarrow> [k] | _ \<Rightarrow> []) changes)"

definition update_chat_message ::
  "string \<Rightarrow> string \<Rightarrow> message_change list \<Rightarrow> (store, chat_message) op" where
  "update_chat_message tenant_id message_id changes =
     andThen (require (unknown_message_fields changes = [])
       (ValueError (''Unsupported chat message fields: ''
          @ repr_str_list (sort (remdups (unknown_message_fields changes)))))) (\<lambda>_.
     andThen (get_chat_message tenant_id message_id) (\<lambda>m.
     andThen utc_now (\<lambda>now.
     let updated = (foldl apply_message_change m changes)\<lparr>m_updated_at := now\<rparr> in
     andThen (modify (\<lambda>s. s\<lparr>chat_messages := dict_set message_id updated (chat_messages s)\<rparr>)) (\<lambda>_.
     ret updated))))"

definition delete_chat_message :: "string \<Rightarrow> string \<Rightarrow> (store, unit) op" where
  "delete_chat_message tenant_id message_id =
     andThen (get_chat_message tenant_id message_id) (\<lambda>_.
     modify (\<lambda>s. s\<lparr>chat_messages := AList.delete message_id (chat_messages s)\<rparr>))"

definition claimable :: "chat_message \<Rightarrow> bool" where
  "claimable m \<longleftrightarrow> m_dispatch_status m \<in> {DS_READY, DS_QUEUED} \<and> m_kind m \<noteq> ''manual_queue''"

definition claim_next_queued_message ::
  "string \<Rightarrow> string \<Rightarrow> (store, chat_message option) op" where
  "claim_next_queued_message tenant_id thread_id =
     andThen (list_chat_messages tenant_id thread_id) (\<lambda>messages.
     case filter claimable messages of
       [] \<Rightarrow> ret None
     | m # _ \<Rightarrow>
         andThen (update_chat_message tenant_id (m_id m) [CM_dispatch_status DS_INFLIGHT])
           (\<lambda>claimed. ret (Some claimed)))"

definition list_pending_steering_messages ::
  "string \<Rightarrow> string \<Rightarrow> (store, chat_message list) op" where
  "list_pending_steering_messages tenant_id thread_id =
     andThen (list_chat_messages tenant_id thread_id) (\<lambda>messages.
     ret (filter (\<lambda>m. m_dispatch_status m = DS_STEERING) messages))"

definition mark_steering_applied :: "string \<Rightarrow> string \<Rightarrow> (store, chat_message) op" where
  "mark_steering_applied tenant_id message_id =
     andThen (get_chat_message tenant_id message_id) (\<lambda>m.
     andThen (require (m_dispatch_status m = DS_STEERING)
       (ValueError (''Chat message '' @ message_id @ '' is not pending steering''))) (\<lambda>_.
     update_chat_message tenant_id message_id [CM_dispatch_status DS_COMPLETED]))"

end
