(* ===== verification/StoreRuns.thy ===== *)
theory StoreRuns
  imports StoreChat
begin

text \<open>
  \<^verbatim>\<open>taroai/store.py\<close>, runs: creation, the status transitions and their events and
  notifications, cancellation and retry, the readers of the event log, artifacts, approval
  requests, idempotency records and license validations.
\<close>

section \<open>Runs\<close>

definition terminal_run_statuses :: "run_status set" where
  "terminal_run_statuses = {RS_SUCCEEDED, RS_FAILED, RS_CANCELLED, RS_TIMED_OUT}"

definition retryable_run_statuses :: "run_status set" where
  "retryable_run_statuses = {RS_FAILED, RS_CANCELLED, RS_TIMED_OUT}"

definition put_run :: "run \<Rightarrow> (store, unit) op" where
  "put_run r = modify (\<lambda>s. s\<lparr>runs := dict_set (r_id r) r (runs s)\<rparr>)"

text \<open>The checks \<open>create_run\<close> makes before it writes.\<close>

definition check_run_payload :: "string \<Rightarrow> string \<Rightarrow> run_create \<Rightarrow> (store, unit) op" where
  "check_run_payload tenant_id user_id payload =
     andThen (validate_context_ownership tenant_id (rc_workspace_id payload) user_id) (\<lambda>_.
     andThen (case rc_thread_id payload of
         Some thread_id \<Rightarrow>
           andThen (get_chat_thread tenant_id thread_id) (\<lambda>thread.
           require (th_workspace_id thread = rc_workspace_id payload)
             (ValueError (''Run thread '' @ th_id thread @ '' does not match workspace ''
                @ rc_workspace_id payload)))
       | None \<Rightarrow>
           require (rc_trigger_message_id payload = None)
             (ValueError ''Run trigger_message_id requires thread_id'')) (\<lambda>_.
     case rc_trigger_message_id payload of
       None \<Rightarrow> ret ()
     | Some trigger_id \<Rightarrow>
         andThen (get_chat_message tenant_id trigger_id) (\<lambda>trigger.
         require (m_workspace_id trigger = rc_workspace_id payload
             \<and> Some (m_thread_id trigger) = rc_thread_id payload)
           (ValueError ''Run trigger message does not match its thread/tenant/workspace''))))"

definition create_run :: "string \<Rightarrow> string \<Rightarrow> run_create \<Rightarrow> (store, run) op" where
  "create_run tenant_id user_id payload =
     andThen (check_run_payload tenant_id user_id payload) (\<lambda>_.
     andThen (register_context tenant_id (rc_workspace_id payload) user_id) (\<lambda>_.
     andThen utc_now (\<lambda>now.
     andThen (new_id ''run'') (\<lambda>run_id.
     let r =
       \<lparr>r_id = run_id, r_tenant_id = tenant_id, r_workspace_id = rc_workspace_id payload,
        r_user_id = user_id, r_agent_id = rc_agent_id payload, r_message = rc_message payload,
        r_attachments = rc_attachments payload, r_mode = rc_mode payload, r_status = RS_CREATED,
        r_created_at = now, r_updated_at = now, r_thread_id = rc_thread_id payload,
        r_trigger_message_id = rc_trigger_message_id payload,
        r_provider_id = rc_provider_id payload, r_model_id = rc_model_id payload,
        r_reasoning_effort = rc_reasoning_effort payload,
        r_resource_refs = rc_resource_refs payload\<rparr> in
     andThen (put_run r) (\<lambda>_.
     andThen (append_run_event r ''run.created''
       [(''status'', JStr (run_status_value (r_status r))),
        (''mode'', JStr (run_mode_value (r_mode r))),
        (''agent_id'', opt_str (r_agent_id r))]) (\<lambda>_.
     andThen (record_run_meter r) (\<lambda>_.
     andThen (record_audit_event_internal tenant_id (Some (r_workspace_id r)) (Some user_id)
       (Some (r_id r)) ''run.created''
       [(''mode'', JStr (run_mode_value (r_mode r))), (''agent_id'', opt_str (r_agent_id r))]) (\<lambda>_.
     ret r))))))))"

definition list_runs ::
  "string \<Rightarrow> string option \<Rightarrow> run_status option \<Rightarrow> (store, run list) op" where
  "list_runs tenant_id workspace_id status =
     gets (\<lambda>s. filter (\<lambda>r. r_tenant_id r = tenant_id
        \<and> (workspace_id = None \<or> workspace_id = Some (r_workspace_id r))
        \<and> (status = None \<or> status = Some (r_status r))) (dict_values (runs s)))"

definition active_thread_runs :: "string \<Rightarrow> string \<Rightarrow> store \<Rightarrow> run list" where
  "active_thread_runs tenant_id thread_id s =
     filter (\<lambda>r. r_tenant_id r = tenant_id \<and> r_thread_id r = Some thread_id
       \<and> r_status r \<notin> terminal_run_statuses) (dict_values (runs s))"

definition get_active_thread_run :: "string \<Rightarrow> string \<Rightarrow> (store, run option) op" where
  "get_active_thread_run tenant_id thread_id =
     andThen (get_chat_thread tenant_id thread_id) (\<lambda>_.
     gets (\<lambda>s. case active_thread_runs tenant_id thread_id s of
         [] \<Rightarrow> None
       | r # rs \<Rightarrow> Some (max_by (\<lambda>r. (r_created_at r, r_id r)) r rs)))"

text \<open>
  \<open>update_run_status\<close> writes the run and the event first, and only then looks the trigger
  message up to decide about the notification.
\<close>

definition update_run_status ::
  "string \<Rightarrow> string \<Rightarrow> run_status \<Rightarrow> bool \<Rightarrow> (store, run) op" where
  "update_run_status tenant_id run_id status emit_status_event =
     andThen (get_run tenant_id run_id) (\<lambda>r.
     andThen utc_now (\<lambda>now.
     let updated_run = r\<lparr>r_status := status, r_updated_at := now\<rparr> in
     andThen (modify (\<lambda>s. s\<lparr>runs := dict_set run_id updated_run (runs s)\<rparr>)) (\<lambda>_.
     andThen (whenever emit_status_event (void (append_run_event updated_run ''run.status_changed''
       [(''status'', JStr (run_status_value status))]))) (\<lambda>_.
     andThen (case r_trigger_message_id r of
         None \<Rightarrow> ret False
       | Some trigger_id \<Rightarrow>
           if trigger_id = [] then ret False
           else andThen (get_chat_message tenant_id trigger_id) (\<lambda>m.
             ret (m_kind m = ''workflow_task''))) (\<lambda>is_workflow_task.
     andThen (if r_status r \<noteq> status \<and> \<not> is_workflow_task
         then andThen (notification_for_agent_run_status updated_run status) (\<lambda>notification.
           case notification of
             None \<Rightarrow> ret ()
           | Some n \<Rightarrow>
               modify (\<lambda>s. s\<lparr>notifications := dict_set (nt_id n) n (notifications s)\<rparr>))
         else ret ()) (\<lambda>_.
     ret updated_run))))))"

definition create_queued_thread_run_if_absent ::
  "string \<Rightarrow> string \<Rightarrow> run_create \<Rightarrow> (store, run \<times> bool) op" where
  "create_queued_thread_run_if_absent tenant_id user_id payload =
     (case rc_thread_id payload of
        None \<Rightarrow> raise (ValueError ''Thread run creation requires thread_id'')
      | Some thread_id \<Rightarrow>
          andThen (get_active_thread_run tenant_id thread_id) (\<lambda>active_run.
          case active_run of
            Some r \<Rightarrow> ret (r, False)
          | None \<Rightarrow>
              andThen (create_run tenant_id user_id payload) (\<lambda>r.
              andThen (update_run_status tenant_id (r_id r) RS_QUEUED True) (\<lambda>queued.
              ret (queued, True)))))"

definition cancel_run :: "string \<Rightarrow> string \<Rightarrow> string \<Rightarrow> string \<Rightarrow> (store, run) op" where
  "cancel_run tenant_id run_id cancelled_by_user_id reason_code =
     andThen (get_run tenant_id run_id) (\<lambda>r.
     andThen (require (r_status r \<notin> terminal_run_statuses)
       (RunTransitionError (''Run '' @ run_id @ '' cannot be cancelled from ''
          @ run_status_value (r_status r)))) (\<lambda>_.
     andThen utc_now (\<lambda>now.
     let cancelled_run = r\<lparr>r_status := RS_CANCELLED, r_updated_at := now\<rparr>;
         metadata = [(''cancelled_by_user_id'', JStr cancelled_by_user_id),
                     (''reason_code'', JStr reason_code),
                     (''status'', JStr (run_status_value RS_CANCELLED))] in
     andThen (modify (\<lambda>s. s\<lparr>runs := dict_set run_id cancelled_run (runs s)\<rparr>)) (\<lambda>_.
     andThen (record_audit_event_internal tenant_id (Some (r_workspace_id r))
       (Some cancelled_by_user_id) (Some run_id) ''run.cancelled'' metadata) (\<lambda>_.
     andThen (append_run_event cancelled_run ''run.cancelled'' metadata) (\<lambda>_.
     ret cancelled_run))))))"

definition request_run_retry :: "string \<Rightarrow> string \<Rightarrow> string \<Rightarrow> string \<Rightarrow> (store, run) op" where
  "request_run_retry tenant_id run_id requested_by_user_id reason_code =
     andThen (get_run tenant_id run_id) (\<lambda>r.
     andThen (require (r_status r \<in> retryable_run_statuses)
       (RunTransitionError (''Run '' @ run_id @ '' cannot be retried from ''
          @ run_status_value (r_status r)))) (\<lambda>_.
     andThen utc_now (\<lambda>now.
     let retrying_run = r\<lparr>r_status := RS_RETRYING, r_updated_at := now\<rparr>;
         metadata = [(''requested_by_user_id'', JStr requested_by_user_id),
                     (''reason_code'', JStr reason_code),
                     (''previous_status'', JStr (run_status_value (r_status r))),
                     (''status'', JStr (run_status_value RS_RETRYING))] in
     andThen (modify (\<lambda>s. s\<lparr>runs := dict_set run_id retrying_run (runs s)\<rparr>)) (\<lambda>_.
     andThen (record_audit_event_internal tenant_id (Some (r_workspace_id r))
       (Some requested_by_user_id) (Some run_id) ''run.retry_requested'' metadata) (\<lambda>_.
     andThen (append_run_event retrying_run ''run.retry_requested'' metadata) (\<lambda>_.
     ret retrying_run))))))"

section \<open>Readers of the event log\<close>

definition list_run_events ::
  "string \<Rightarrow> string \<Rightarrow> int option \<Rightarrow> (store, run_event list) op" where
  "list_run_events tenant_id run_id after_sequence =
     andThen (get_run tenant_id run_id) (\<lambda>_.
     gets (\<lambda>s. filter (\<lambda>e. case after_sequence of None \<Rightarrow> True | Some n \<Rightarrow> n < ev_sequence e)
       (dict_get_list (run_events s) run_id)))"

definition payload_get :: "json_obj \<Rightarrow> string \<Rightarrow> json" where
  "payload_get payload k = (case map_of payload k of None \<Rightarrow> JNull | Some v \<Rightarrow> v)"

definition run_event_exists ::
  "string \<Rightarrow> string \<Rightarrow> string \<Rightarrow> string option \<Rightarrow> json \<Rightarrow> (store, bool) op" where
  "run_event_exists tenant_id run_id event_type payload_key payload_value =
     andThen (get_run tenant_id run_id) (\<lambda>_.
     gets (\<lambda>s. list_ex (\<lambda>e. ev_type e = event_type
         \<and> (case payload_key of None \<Rightarrow> True
            | Some k \<Rightarrow> py_eq (payload_get (ev_payload e) k) payload_value))
       (dict_get_list (run_events s) run_id)))"

definition list_thread_events ::
  "string \<Rightarrow> string \<Rightarrow> int option \<Rightarrow> (store, run_event list) op" where
  "list_thread_events tenant_id thread_id after_sequence =
     andThen (get_chat_thread tenant_id thread_id) (\<lambda>_.
     gets (\<lambda>s. sort_key (\<lambda>e. (thread_sequence_or_0 e, ev_id e))
       (filter (\<lambda>e. case ev_thread_sequence e of
            None \<Rightarrow> False
          | Some q \<Rightarrow> (case after_sequence of None \<Rightarrow> True | Some n \<Rightarrow> n < q))
         (thread_events_of tenant_id thread_id s))))"

section \<open>Notifications\<close>

definition user_notifications :: "string \<Rightarrow> string \<Rightarrow> store \<Rightarrow> notification list" where
  "user_notifications tenant_id user_id s =
     filter (\<lambda>n. nt_tenant_id n = tenant_id \<and> nt_user_id n = user_id)
       (dict_values (notifications s))"

text \<open>Python's \<open>xs[:limit]\<close>: a negative limit drops from the end.\<close>

definition py_take :: "int \<Rightarrow> 'a list \<Rightarrow> 'a list" where
  "py_take limit xs =
     (if 0 \<le> limit then take (nat limit) xs else take (length xs - nat (- limit)) xs)"

definition list_notifications :: "string \<Rightarrow> string \<Rightarrow> int \<Rightarrow> (store, notification list) op" where
  "list_notifications tenant_id user_id limit =
     gets (\<lambda>s. py_take limit (sorted_desc (\<lambda>n. (nt_created_at n, nt_id n))
       (user_notifications tenant_id user_id s)))"

definition unread_notifications :: "string \<Rightarrow> string \<Rightarrow> store \<Rightarrow> notification list" where
  "unread_notifications tenant_id user_id s =
     filter (\<lambda>n. nt_read_at n = None) (user_notifications tenant_id user_id s)"

definition count_unread_notifications :: "string \<Rightarrow> string \<Rightarrow> (store, int) op" where
  "count_unread_notifications tenant_id user_id =
     gets (\<lambda>s. int (length (unread_notifications tenant_id user_id s)))"

definition mark_notification_read ::
  "string \<Rightarrow> string \<Rightarrow> string \<Rightarrow> (store, notification) op" where
  "mark_notification_read tenant_id user_id notification_id =
     andThen (gets (\<lambda>s. dict_get (notifications s) notification_id)) (\<lambda>found.
     case found of
       None \<Rightarrow> raise (NotFoundError (''Notification not found: '' @ notification_id))
     | Some n \<Rightarrow>
         if nt_tenant_id n \<noteq> tenant_id \<or> nt_user_id n \<noteq> user_id
         then raise (NotFoundError (''Notification not found: '' @ notification_id))
         else if nt_read_at n = None
         then andThen utc_now (\<lambda>now.
           let n' = n\<lparr>nt_read_at := Some now\<rparr> in
           andThen (modify (\<lambda>s. s\<lparr>notifications := dict_set (nt_id n) n' (notifications s)\<rparr>)) (\<lambda>_.
           ret n'))
         else ret n)"

definition mark_all_notifications_read :: "string \<Rightarrow> string \<Rightarrow> (store, int) op" where
  "mark_all_notifications_read tenant_id user_id =
     andThen utc_now (\<lambda>now.
     andThen (gets (unread_notifications tenant_id user_id)) (\<lambda>unread.
     andThen (modify (\<lambda>s. s\<lparr>notifications :=
       foldl (\<lambda>d n. dict_set (nt_id n) (n\<lparr>nt_read_at := Some now\<rparr>) d) (notifications s) unread\<rparr>))
       (\<lambda>_.
     ret (int (length unread)))))"

end
