(* ===== verification/StoreRecords.thy ===== *)
theory StoreRecords
  imports StoreRuns
begin

text \<open>
  \<^verbatim>\<open>taroai/store.py\<close>, what hangs off a run or a tenant: artifacts, approval requests, secret
  capture requests, runtime state snapshots, idempotency records and license validations.
\<close>

section \<open>Artifacts\<close>

text \<open>The keyword arguments \<open>rich_fields\<close> of \<open>create_artifact\<close>.\<close>

datatype artifact_field =
    AF_workspace_id "string option"
  | AF_thread_id "string option"
  | AF_message_id "string option"
  | AF_storage_object_id "string option"
  | AF_content_type "string option"
  | AF_size_bytes int
  | AF_preview_payload json_obj
  | AF_dashboard_payload "json_obj option"
  | AF_render_policy json_obj
  | AF_metadata json_obj

fun apply_artifact_field :: "artifact \<Rightarrow> artifact_field \<Rightarrow> artifact" where
  "apply_artifact_field a (AF_workspace_id v) = a\<lparr>ar_workspace_id := v\<rparr>"
| "apply_artifact_field a (AF_thread_id v) = a\<lparr>ar_thread_id := v\<rparr>"
| "apply_artifact_field a (AF_message_id v) = a\<lparr>ar_message_id := v\<rparr>"
| "apply_artifact_field a (AF_storage_object_id v) = a\<lparr>ar_storage_object_id := v\<rparr>"
| "apply_artifact_field a (AF_content_type v) = a\<lparr>ar_content_type := v\<rparr>"
| "apply_artifact_field a (AF_size_bytes v) = a\<lparr>ar_size_bytes := v\<rparr>"
| "apply_artifact_field a (AF_preview_payload v) = a\<lparr>ar_preview_payload := v\<rparr>"
| "apply_artifact_field a (AF_dashboard_payload v) = a\<lparr>ar_dashboard_payload := v\<rparr>"
| "apply_artifact_field a (AF_render_policy v) = a\<lparr>ar_render_policy := v\<rparr>"
| "apply_artifact_field a (AF_metadata v) = a\<lparr>ar_metadata := v\<rparr>"

text \<open>The two \<open>setdefault\<close> calls: what the caller passes wins over the run's own values.\<close>

definition create_artifact ::
  "string \<Rightarrow> string \<Rightarrow> string \<Rightarrow> string \<Rightarrow> string \<Rightarrow> artifact_field list \<Rightarrow> (store, artifact) op" where
  "create_artifact tenant_id run_id name artifact_type uri rich_fields =
     andThen (get_run tenant_id run_id) (\<lambda>r.
     andThen (new_id ''artifact'') (\<lambda>artifact_id.
     andThen utc_now (\<lambda>now.
     let a = foldl apply_artifact_field
       \<lparr>ar_id = artifact_id, ar_tenant_id = tenant_id, ar_run_id = run_id, ar_name = name,
        ar_artifact_type = artifact_type, ar_uri = uri, ar_created_at = now,
        ar_workspace_id = Some (r_workspace_id r), ar_thread_id = r_thread_id r,
        ar_message_id = None, ar_storage_object_id = None, ar_content_type = None,
        ar_size_bytes = 0, ar_preview_payload = [], ar_dashboard_payload = None,
        ar_render_policy = [], ar_metadata = []\<rparr> rich_fields in
     andThen (require (0 \<le> ar_size_bytes a) (ValidationError ''Artifact'')) (\<lambda>_.
     andThen (modify (\<lambda>s. s\<lparr>artifacts := dict_append run_id a (artifacts s)\<rparr>)) (\<lambda>_.
     andThen (append_run_event r ''artifact.created''
       [(''artifact_id'', JStr (ar_id a)), (''name'', JStr (ar_name a)),
        (''type'', JStr (ar_artifact_type a))]) (\<lambda>_.
     ret a))))))"

definition list_artifacts :: "string \<Rightarrow> string \<Rightarrow> (store, artifact list) op" where
  "list_artifacts tenant_id run_id =
     andThen (get_run tenant_id run_id) (\<lambda>_.
     gets (\<lambda>s. dict_get_list (artifacts s) run_id))"

definition get_artifact :: "string \<Rightarrow> string \<Rightarrow> (store, artifact) op" where
  "get_artifact tenant_id artifact_id =
     andThen (gets (\<lambda>s. find (\<lambda>a. ar_id a = artifact_id \<and> ar_tenant_id a = tenant_id)
       (concat (dict_values (artifacts s))))) (\<lambda>found.
     case found of
       Some a \<Rightarrow> ret a
     | None \<Rightarrow> raise (NotFoundError (''Artifact not found: '' @ artifact_id)))"

section \<open>Approval requests\<close>

definition create_approval_request ::
  "string \<Rightarrow> string \<Rightarrow> string \<Rightarrow> string \<Rightarrow> string \<Rightarrow> string option \<Rightarrow> string option
   \<Rightarrow> json_obj \<Rightarrow> json_obj \<Rightarrow> (store, approval_request) op" where
  "create_approval_request tenant_id run_id step_id reason kind subject_type subject_id
     preview_payload validation_payload =
     andThen (get_run tenant_id run_id) (\<lambda>r.
     andThen (new_id ''approval'') (\<lambda>approval_id.
     andThen utc_now (\<lambda>now.
     andThen (require (kind \<in> set approval_kinds) (ValidationError ''ApprovalRequest'')) (\<lambda>_.
     let approval =
       \<lparr>ap_id = approval_id, ap_tenant_id = tenant_id, ap_workspace_id = r_workspace_id r,
        ap_run_id = run_id, ap_step_id = step_id, ap_reason = reason, ap_status = AP_PENDING,
        ap_kind = kind, ap_subject_type = subject_type, ap_subject_id = subject_id,
        ap_preview_payload = preview_payload, ap_validation_payload = validation_payload,
        ap_execution_status = ''not_started'', ap_error = None,
        ap_requested_by_user_id = Some (r_user_id r), ap_resolved_by_user_id = None,
        ap_created_at = now, ap_resolved_at = None\<rparr> in
     andThen (modify (\<lambda>s. s\<lparr>approval_requests :=
       dict_append run_id approval (approval_requests s)\<rparr>)) (\<lambda>_.
     andThen (append_run_event r ''approval.requested''
       [(''approval_id'', JStr approval_id), (''step_id'', JStr step_id),
        (''reason'', JStr reason), (''kind'', JStr kind),
        (''subject_type'', opt_str subject_type), (''subject_id'', opt_str subject_id),
        (''preview'', JObj preview_payload), (''validation'', JObj validation_payload),
        (''execution_status'', JStr ''not_started'')]) (\<lambda>_.
     ret approval))))))"

text \<open>\<open>approvals[index] = resolved\<close> in the list the dictionary holds.\<close>

definition set_approval :: "string \<Rightarrow> nat \<Rightarrow> approval_request \<Rightarrow> (store, unit) op" where
  "set_approval run_id index a =
     modify (\<lambda>s. s\<lparr>approval_requests := dict_set run_id
       ((dict_get_list (approval_requests s) run_id)[index := a]) (approval_requests s)\<rparr>)"

fun find_index_from :: "nat \<Rightarrow> ('a \<Rightarrow> bool) \<Rightarrow> 'a list \<Rightarrow> (nat \<times> 'a) option" where
  "find_index_from i p [] = None"
| "find_index_from i p (x # xs) = (if p x then Some (i, x) else find_index_from (Suc i) p xs)"

definition approval_payload :: "string \<Rightarrow> approval_status \<Rightarrow> string \<Rightarrow> json_obj" where
  "approval_payload approval_id status resolved_by =
     [(''approval_id'', JStr approval_id), (''status'', JStr (approval_status_value status)),
      (''resolved_by_user_id'', JStr resolved_by)]"

definition complete_approval_request ::
  "string \<Rightarrow> string \<Rightarrow> string \<Rightarrow> approval_status \<Rightarrow> string \<Rightarrow> string
   \<Rightarrow> (store, approval_request) op" where
  "complete_approval_request tenant_id run_id approval_id status resolved_by_user_id event_type =
     andThen (get_run tenant_id run_id) (\<lambda>r.
     andThen (gets (\<lambda>s. dict_get_list (approval_requests s) run_id)) (\<lambda>approvals.
     case find_index_from 0 (\<lambda>a. ap_id a = approval_id) approvals of
       None \<Rightarrow> raise (NotFoundError (''Approval request not found: '' @ approval_id))
     | Some (index, approval) \<Rightarrow>
         andThen utc_now (\<lambda>now.
         let resolved = approval\<lparr>ap_status := status,
               ap_resolved_by_user_id := Some resolved_by_user_id, ap_resolved_at := Some now\<rparr> in
         andThen (set_approval run_id index resolved) (\<lambda>_.
         andThen (append_run_event r event_type
           (approval_payload approval_id status resolved_by_user_id)) (\<lambda>_.
         andThen (record_audit_event_internal tenant_id (Some (r_workspace_id r))
           (Some resolved_by_user_id) (Some run_id) event_type
           (approval_payload approval_id status resolved_by_user_id)) (\<lambda>_.
         ret resolved))))))"

definition resolve_approval_request ::
  "string \<Rightarrow> string \<Rightarrow> string \<Rightarrow> string \<Rightarrow> (store, approval_request) op" where
  "resolve_approval_request tenant_id run_id approval_id approved_by_user_id =
     complete_approval_request tenant_id run_id approval_id AP_APPROVED approved_by_user_id
       ''approval.resolved''"

definition reject_approval_request ::
  "string \<Rightarrow> string \<Rightarrow> string \<Rightarrow> string \<Rightarrow> (store, approval_request) op" where
  "reject_approval_request tenant_id run_id approval_id rejected_by_user_id =
     complete_approval_request tenant_id run_id approval_id AP_REJECTED rejected_by_user_id
       ''approval.rejected''"

text \<open>The loop over \<open>enumerate(approvals)\<close>.\<close>

fun cancel_approvals_from ::
  "string \<Rightarrow> string \<Rightarrow> run \<Rightarrow> string \<Rightarrow> nat \<Rightarrow> approval_request list \<Rightarrow> (store, approval_request list) op" where
  "cancel_approvals_from tenant_id run_id r user index [] = ret []"
| "cancel_approvals_from tenant_id run_id r user index (approval # approvals) =
     (if ap_status approval \<noteq> AP_PENDING
      then cancel_approvals_from tenant_id run_id r user (Suc index) approvals
      else
        andThen utc_now (\<lambda>now.
        let resolved = approval\<lparr>ap_status := AP_CANCELLED, ap_resolved_by_user_id := Some user,
              ap_resolved_at := Some now\<rparr>;
            metadata = approval_payload (ap_id approval) AP_CANCELLED user in
        andThen (set_approval run_id index resolved) (\<lambda>_.
        andThen (record_audit_event_internal tenant_id (Some (r_workspace_id r)) (Some user)
          (Some run_id) ''approval.cancelled'' metadata) (\<lambda>_.
        andThen (append_run_event r ''approval.cancelled'' metadata) (\<lambda>_.
        andThen (cancel_approvals_from tenant_id run_id r user (Suc index) approvals) (\<lambda>cancelled.
        ret (resolved # cancelled)))))))"

definition cancel_pending_approval_requests ::
  "string \<Rightarrow> string \<Rightarrow> string \<Rightarrow> (store, approval_request list) op" where
  "cancel_pending_approval_requests tenant_id run_id cancelled_by_user_id =
     andThen (get_run tenant_id run_id) (\<lambda>r.
     andThen (gets (\<lambda>s. dict_get_list (approval_requests s) run_id)) (\<lambda>approvals.
     cancel_approvals_from tenant_id run_id r cancelled_by_user_id 0 approvals))"

definition list_approval_requests :: "string \<Rightarrow> string \<Rightarrow> (store, approval_request list) op" where
  "list_approval_requests tenant_id run_id =
     andThen (get_run tenant_id run_id) (\<lambda>_.
     gets (\<lambda>s. dict_get_list (approval_requests s) run_id))"

definition update_approval_execution ::
  "string \<Rightarrow> string \<Rightarrow> string \<Rightarrow> string \<Rightarrow> string option \<Rightarrow> (store, approval_request) op" where
  "update_approval_execution tenant_id run_id approval_id execution_status error_text =
     andThen (get_run tenant_id run_id) (\<lambda>r.
     andThen (gets (\<lambda>s. dict_get_list (approval_requests s) run_id)) (\<lambda>approvals.
     case find_index_from 0 (\<lambda>a. ap_id a = approval_id) approvals of
       None \<Rightarrow> raise (NotFoundError (''Approval request not found: '' @ approval_id))
     | Some (index, approval) \<Rightarrow>
         let updated = approval\<lparr>ap_execution_status := execution_status,
               ap_error := error_text\<rparr> in
         andThen (set_approval run_id index updated) (\<lambda>_.
         andThen (append_run_event r ''approval.execution_updated''
           [(''approval_id'', JStr approval_id), (''execution_status'', JStr execution_status),
            (''error'', opt_str error_text)]) (\<lambda>_.
         ret updated))))"

section \<open>Secret capture requests\<close>

definition pending_capture :: "run \<Rightarrow> string \<Rightarrow> store \<Rightarrow> secret_capture_request option" where
  "pending_capture r name s =
     find (\<lambda>c. sc_tenant_id c = r_tenant_id r \<and> sc_run_id c = r_id r \<and> sc_name c = name
         \<and> sc_status c = SC_PENDING) (dict_values (secret_capture_requests s))"

definition create_secret_capture_request ::
  "run \<Rightarrow> string \<Rightarrow> string option \<Rightarrow> string option \<Rightarrow> string option \<Rightarrow> string list
   \<Rightarrow> (store, secret_capture_request) op" where
  "create_secret_capture_request r name tool_name connector_id action_id actions =
     andThen (gets (pending_capture r name)) (\<lambda>existing.
     case existing of
       Some c \<Rightarrow> ret c
     | None \<Rightarrow>
         andThen (new_id ''secret_capture'') (\<lambda>capture_id.
         andThen utc_now (\<lambda>now.
         andThen (require (len_between 1 200 name) (ValidationError ''SecretCaptureRequest'')) (\<lambda>_.
         let c =
           \<lparr>sc_id = capture_id, sc_tenant_id = r_tenant_id r, sc_workspace_id = r_workspace_id r,
            sc_run_id = r_id r, sc_name = name, sc_tool_name = tool_name,
            sc_connector_id = connector_id, sc_action_id = action_id, sc_actions = actions,
            sc_status = SC_PENDING, sc_secret_ref_id = None, sc_created_at = now,
            sc_resolved_at = None\<rparr> in
         andThen (modify (\<lambda>s. s\<lparr>secret_capture_requests :=
           dict_set capture_id c (secret_capture_requests s)\<rparr>)) (\<lambda>_.
         andThen (append_run_event r ''secret_capture.requested''
           [(''requestId'', JStr capture_id), (''name'', JStr name),
            (''toolName'', opt_str tool_name), (''connectorId'', opt_str connector_id),
            (''actions'', JArr (map JStr actions))]) (\<lambda>_.
         ret c))))))"

definition get_secret_capture_request ::
  "string \<Rightarrow> string \<Rightarrow> (store, secret_capture_request) op" where
  "get_secret_capture_request tenant_id request_id =
     andThen (gets (\<lambda>s. dict_get (secret_capture_requests s) request_id)) (\<lambda>found.
     case found of
       None \<Rightarrow> raise (NotFoundError (''Secret capture request not found: '' @ request_id))
     | Some c \<Rightarrow>
         andThen (require (sc_tenant_id c = tenant_id)
           (NotFoundError (''Secret capture request not found: '' @ request_id))) (\<lambda>_.
         ret c))"

definition resolve_secret_capture_request ::
  "string \<Rightarrow> string \<Rightarrow> string \<Rightarrow> (store, secret_capture_request) op" where
  "resolve_secret_capture_request tenant_id request_id secret_ref_id =
     andThen (get_secret_capture_request tenant_id request_id) (\<lambda>c.
     andThen (require (sc_status c = SC_PENDING)
       (ValueError ''secret capture request is no longer pending'')) (\<lambda>_.
     andThen utc_now (\<lambda>now.
     let resolved = c\<lparr>sc_status := SC_RESOLVED, sc_secret_ref_id := Some secret_ref_id,
           sc_resolved_at := Some now\<rparr> in
     andThen (modify (\<lambda>s. s\<lparr>secret_capture_requests :=
       dict_set request_id resolved (secret_capture_requests s)\<rparr>)) (\<lambda>_.
     andThen (get_run tenant_id (sc_run_id c)) (\<lambda>r.
     andThen (append_run_event r ''secret_capture.resolved''
       [(''requestId'', JStr request_id), (''secretRefId'', JStr secret_ref_id)]) (\<lambda>_.
     ret resolved))))))"

section \<open>Runtime state\<close>

definition save_runtime_state :: "runtime_state \<Rightarrow> (store, run_state_snapshot) op" where
  "save_runtime_state st =
     andThen (get_run (st_tenant_id st) (st_run_id st)) (\<lambda>_.
     andThen (from_runtime_state st) (\<lambda>snapshot.
     andThen (modify (\<lambda>s. s\<lparr>runtime_states :=
       dict_set (st_run_id st) snapshot (runtime_states s)\<rparr>)) (\<lambda>_.
     ret snapshot)))"

definition get_runtime_state :: "string \<Rightarrow> string \<Rightarrow> (store, run_state_snapshot) op" where
  "get_runtime_state tenant_id run_id =
     andThen (get_run tenant_id run_id) (\<lambda>_.
     andThen (gets (\<lambda>s. dict_get (runtime_states s) run_id)) (\<lambda>found.
     case found of
       None \<Rightarrow> raise (NotFoundError (''Runtime state not found: '' @ run_id))
     | Some snapshot \<Rightarrow> ret snapshot))"

section \<open>Idempotency records and licenses\<close>

definition idempotency_record_key :: "string \<Rightarrow> string \<Rightarrow> string \<Rightarrow> string \<Rightarrow> string" where
  "idempotency_record_key tenant_id key method path =
     json_dumps (\<lambda>_. []) True '','' '':'' (JArr (map JStr [tenant_id, key, method, path]))"

definition record_key_of :: "idempotency_record \<Rightarrow> string" where
  "record_key_of r = idempotency_record_key (ir_tenant_id r) (ir_key r) (ir_method r) (ir_path r)"

definition get_idempotency_record ::
  "string \<Rightarrow> string \<Rightarrow> string \<Rightarrow> string \<Rightarrow> (store, idempotency_record option) op" where
  "get_idempotency_record tenant_id key method path =
     gets (\<lambda>s. dict_get (idempotency_records s)
       (idempotency_record_key tenant_id key method path))"

definition put_idempotency_record :: "idempotency_record \<Rightarrow> (store, unit) op" where
  "put_idempotency_record r =
     modify (\<lambda>s. s\<lparr>idempotency_records := dict_set (record_key_of r) r (idempotency_records s)\<rparr>)"

definition reserve_idempotency_record :: "idempotency_record \<Rightarrow> (store, bool) op" where
  "reserve_idempotency_record r =
     andThen (gets (\<lambda>s. dict_get (idempotency_records s) (record_key_of r))) (\<lambda>existing.
     if existing \<noteq> None then ret False
     else andThen (put_idempotency_record r) (\<lambda>_. ret True))"

definition reclaim_stale_idempotency_record ::
  "idempotency_record \<Rightarrow> datetime \<Rightarrow> (store, bool) op" where
  "reclaim_stale_idempotency_record r stale_before =
     andThen (gets (\<lambda>s. dict_get (idempotency_records s) (record_key_of r))) (\<lambda>existing.
     case existing of
       None \<Rightarrow> ret False
     | Some e \<Rightarrow>
         if ir_request_hash e \<noteq> ir_request_hash r \<or> ir_status_code e \<noteq> 102
           \<or> ir_created_at e > stale_before
         then ret False
         else andThen (put_idempotency_record r) (\<lambda>_. ret True))"

definition delete_idempotency_record ::
  "string \<Rightarrow> string \<Rightarrow> string \<Rightarrow> string \<Rightarrow> string \<Rightarrow> (store, unit) op" where
  "delete_idempotency_record tenant_id key method path request_hash =
     (let record_key = idempotency_record_key tenant_id key method path in
      andThen (gets (\<lambda>s. dict_get (idempotency_records s) record_key)) (\<lambda>existing.
      case existing of
        None \<Rightarrow> ret ()
      | Some e \<Rightarrow>
          whenever (ir_request_hash e = request_hash)
            (modify (\<lambda>s. s\<lparr>idempotency_records :=
               AList.delete record_key (idempotency_records s)\<rparr>))))"

definition save_idempotency_record :: "idempotency_record \<Rightarrow> (store, idempotency_record) op" where
  "save_idempotency_record r = andThen (put_idempotency_record r) (\<lambda>_. ret r)"

definition save_license_validation ::
  "license_validation_result \<Rightarrow> (store, license_validation_result) op" where
  "save_license_validation v =
     andThen (modify (\<lambda>s. s\<lparr>license_validations :=
       dict_set (lk_tenant_id (lv_license v)) v (license_validations s)\<rparr>)) (\<lambda>_. ret v)"

definition get_active_license_validation ::
  "string \<Rightarrow> (store, license_validation_result option) op" where
  "get_active_license_validation tenant_id =
     gets (\<lambda>s. dict_get (license_validations s) tenant_id)"

text \<open>Distinct requests never share an idempotency slot: the JSON text determines the four
  strings.\<close>

lemma idempotency_record_key_eq_iff:
  "idempotency_record_key t k m p = idempotency_record_key t' k' m' p' \<longleftrightarrow>
     t = t' \<and> k = k' \<and> m = m' \<and> p = p'"
proof -
  have "idempotency_record_key t k m p = idempotency_record_key t' k' m' p' \<Longrightarrow>
      [t, k, m, p] = [t', k', m', p'] \<and> '']'' = '']''"
    unfolding idempotency_record_key_def
    by (rule json_list_inject) (simp_all add: o_def)
  then show ?thesis by auto
qed

end
