(* ===== verification/StoreWorkflows.thy ===== *)
theory StoreWorkflows
  imports StoreRecords
begin

text \<open>
  \<^verbatim>\<open>taroai/store.py\<close>, the persistence of workflows: one workflow per parent run, its tasks in
  the order of the specification, keyword updates and lookups.
\<close>

definition get_workflow :: "string \<Rightarrow> string \<Rightarrow> (store, workflow_run) op" where
  "get_workflow tenant_id workflow_id =
     andThen (gets (\<lambda>s. dict_get (workflows s) workflow_id)) (\<lambda>found.
     case found of
       None \<Rightarrow> raise (NotFoundError (''Workflow not found: '' @ workflow_id))
     | Some w \<Rightarrow>
         andThen (require (wf_tenant_id w = tenant_id)
           (NotFoundError (''Workflow not found: '' @ workflow_id))) (\<lambda>_.
         ret w))"

definition get_workflow_for_parent_run ::
  "string \<Rightarrow> string \<Rightarrow> (store, workflow_run option) op" where
  "get_workflow_for_parent_run tenant_id run_id =
     gets (\<lambda>s. find (\<lambda>w. wf_tenant_id w = tenant_id \<and> wf_parent_run_id w = run_id)
       (dict_values (workflows s)))"

definition add_workflow_task ::
  "run \<Rightarrow> string \<Rightarrow> string \<Rightarrow> datetime \<Rightarrow> workflow_task_spec \<Rightarrow> (store, unit) op" where
  "add_workflow_task r workflow_id phase_id now spec =
     andThen (new_id ''workflow_task'') (\<lambda>task_id.
     let t =
       \<lparr>wt_id = task_id, wt_tenant_id = r_tenant_id r, wt_workspace_id = r_workspace_id r,
        wt_workflow_id = workflow_id, wt_task_id = ts_id spec, wt_phase_id = phase_id,
        wt_status = WT_PENDING, wt_child_thread_id = None, wt_child_run_id = None,
        wt_summary = [], wt_error = None, wt_attempts = 0, wt_created_at = now,
        wt_updated_at = now, wt_completed_at = None\<rparr> in
     modify (\<lambda>s. s\<lparr>workflow_tasks := dict_set task_id t (workflow_tasks s)\<rparr>))"

definition create_workflow :: "run \<Rightarrow> workflow_spec \<Rightarrow> (store, workflow_run) op" where
  "create_workflow r spec =
     andThen (get_workflow_for_parent_run (r_tenant_id r) (r_id r)) (\<lambda>existing.
     case existing of
       Some w \<Rightarrow> ret w
     | None \<Rightarrow>
         andThen utc_now (\<lambda>now.
         andThen (new_id ''workflow'') (\<lambda>workflow_id.
         let w =
           \<lparr>wf_id = workflow_id, wf_tenant_id = r_tenant_id r, wf_workspace_id = r_workspace_id r,
            wf_parent_run_id = r_id r, wf_parent_thread_id = r_thread_id r,
            wf_user_id = r_user_id r, wf_status = WF_AWAITING_APPROVAL, wf_spec = spec,
            wf_approval_id = None, wf_created_at = now, wf_updated_at = now,
            wf_completed_at = None\<rparr> in
         andThen (modify (\<lambda>s. s\<lparr>workflows := dict_set workflow_id w (workflows s)\<rparr>)) (\<lambda>_.
         andThen (for_each (ws_phases spec) (\<lambda>phase.
           for_each (ps_tasks phase) (\<lambda>task_spec.
             add_workflow_task r workflow_id (ps_id phase) now task_spec))) (\<lambda>_.
         ret w)))))"

text \<open>The keyword arguments of \<open>update_workflow\<close> and \<open>update_workflow_task\<close>.\<close>

datatype workflow_change =
    WC_status workflow_status
  | WC_spec workflow_spec
  | WC_approval_id "string option"
  | WC_completed_at "datetime option"

fun apply_workflow_change :: "workflow_run \<Rightarrow> workflow_change \<Rightarrow> workflow_run" where
  "apply_workflow_change w (WC_status v) = w\<lparr>wf_status := v\<rparr>"
| "apply_workflow_change w (WC_spec v) = w\<lparr>wf_spec := v\<rparr>"
| "apply_workflow_change w (WC_approval_id v) = w\<lparr>wf_approval_id := v\<rparr>"
| "apply_workflow_change w (WC_completed_at v) = w\<lparr>wf_completed_at := v\<rparr>"

definition update_workflow ::
  "string \<Rightarrow> string \<Rightarrow> workflow_change list \<Rightarrow> (store, workflow_run) op" where
  "update_workflow tenant_id workflow_id changes =
     andThen (get_workflow tenant_id workflow_id) (\<lambda>w.
     andThen utc_now (\<lambda>now.
     let updated = (foldl apply_workflow_change w changes)\<lparr>wf_updated_at := now\<rparr> in
     andThen (modify (\<lambda>s. s\<lparr>workflows := dict_set workflow_id updated (workflows s)\<rparr>)) (\<lambda>_.
     ret updated)))"

definition list_workflow_tasks :: "string \<Rightarrow> string \<Rightarrow> (store, workflow_task list) op" where
  "list_workflow_tasks tenant_id workflow_id =
     andThen (get_workflow tenant_id workflow_id) (\<lambda>_.
     gets (\<lambda>s. sort_key (\<lambda>t. (wt_created_at t, wt_id t))
       (filter (\<lambda>t. wt_tenant_id t = tenant_id \<and> wt_workflow_id t = workflow_id)
          (dict_values (workflow_tasks s)))))"

definition get_workflow_task_for_child_run ::
  "string \<Rightarrow> string \<Rightarrow> (store, workflow_task option) op" where
  "get_workflow_task_for_child_run tenant_id run_id =
     gets (\<lambda>s. find (\<lambda>t. wt_tenant_id t = tenant_id \<and> wt_child_run_id t = Some run_id)
       (dict_values (workflow_tasks s)))"

datatype task_change =
    TC_status task_status
  | TC_child_thread_id "string option"
  | TC_child_run_id "string option"
  | TC_summary string
  | TC_error "string option"
  | TC_attempts int
  | TC_completed_at "datetime option"

fun apply_task_change :: "workflow_task \<Rightarrow> task_change \<Rightarrow> workflow_task" where
  "apply_task_change t (TC_status v) = t\<lparr>wt_status := v\<rparr>"
| "apply_task_change t (TC_child_thread_id v) = t\<lparr>wt_child_thread_id := v\<rparr>"
| "apply_task_change t (TC_child_run_id v) = t\<lparr>wt_child_run_id := v\<rparr>"
| "apply_task_change t (TC_summary v) = t\<lparr>wt_summary := v\<rparr>"
| "apply_task_change t (TC_error v) = t\<lparr>wt_error := v\<rparr>"
| "apply_task_change t (TC_attempts v) = t\<lparr>wt_attempts := v\<rparr>"
| "apply_task_change t (TC_completed_at v) = t\<lparr>wt_completed_at := v\<rparr>"

definition update_workflow_task ::
  "string \<Rightarrow> string \<Rightarrow> task_change list \<Rightarrow> (store, workflow_task) op" where
  "update_workflow_task tenant_id task_record_id changes =
     andThen (gets (\<lambda>s. dict_get (workflow_tasks s) task_record_id)) (\<lambda>found.
     case found of
       None \<Rightarrow> raise (NotFoundError (''Workflow task not found: '' @ task_record_id))
     | Some t \<Rightarrow>
         andThen (require (wt_tenant_id t = tenant_id)
           (NotFoundError (''Workflow task not found: '' @ task_record_id))) (\<lambda>_.
         andThen utc_now (\<lambda>now.
         let updated = (foldl apply_task_change t changes)\<lparr>wt_updated_at := now\<rparr> in
         andThen (modify (\<lambda>s. s\<lparr>workflow_tasks :=
           dict_set task_record_id updated (workflow_tasks s)\<rparr>)) (\<lambda>_.
         ret updated))))"

end
