(* ===== verification/StoreActions.thy ===== *)
theory StoreActions
  imports StoreWorkflows
begin

text \<open>
  \<^verbatim>\<open>taroai/store.py\<close>, agent cycles, agent actions and checkpoints. An action is claimed under a
  lease with an expiry and a generation number; the generation is the fence: an observation is
  committed only by the holder of the current generation before the lease expires.
\<close>

section \<open>Cycles\<close>

definition get_agent_cycle :: "string \<Rightarrow> string \<Rightarrow> (store, agent_cycle) op" where
  "get_agent_cycle tenant_id cycle_id =
     andThen (gets (\<lambda>s. dict_get (agent_cycles s) cycle_id)) (\<lambda>found.
     case found of
       None \<Rightarrow> raise (NotFoundError (''Agent cycle not found: '' @ cycle_id))
     | Some c \<Rightarrow>
         andThen (require (cy_tenant_id c = tenant_id)
           (TenantAccessError (''Agent cycle '' @ cycle_id @ '' is not in tenant '' @ tenant_id)))
           (\<lambda>_. ret c))"

definition create_agent_cycle :: "agent_cycle \<Rightarrow> (store, agent_cycle) op" where
  "create_agent_cycle c =
     andThen (get_run (cy_tenant_id c) (cy_run_id c)) (\<lambda>r.
     andThen (require (r_workspace_id r = cy_workspace_id c)
       (TenantAccessError (''Run '' @ r_id r @ '' is not in workspace '' @ cy_workspace_id c))) (\<lambda>_.
     andThen (require (r_thread_id r = cy_thread_id c)
       (ValueError (''Agent cycle '' @ cy_id c @ '' thread does not match run '' @ r_id r))) (\<lambda>_.
     andThen (gets (\<lambda>s. dict_get (agent_cycles s) (cy_id c))) (\<lambda>existing.
     andThen (require (existing = None)
       (ValueError (''Agent cycle already exists: '' @ cy_id c))) (\<lambda>_.
     andThen (gets (\<lambda>s. list_ex (\<lambda>e. cy_run_id e = cy_run_id c \<and> cy_iteration e = cy_iteration c)
       (dict_values (agent_cycles s)))) (\<lambda>duplicate.
     andThen (require (\<not> duplicate)
       (ValueError (''Agent cycle iteration already exists: '' @ cy_run_id c @ '':''
          @ show_int (cy_iteration c)))) (\<lambda>_.
     andThen (modify (\<lambda>s. s\<lparr>agent_cycles := dict_set (cy_id c) c (agent_cycles s)\<rparr>)) (\<lambda>_.
     ret c))))))))"

fun completed_cycle_status :: "string \<Rightarrow> cycle_status option" where
  "completed_cycle_status st =
     (if st = ''completed'' then Some CY_COMPLETED
      else if st = ''failed'' then Some CY_FAILED
      else if st = ''waiting'' then Some CY_WAITING
      else None)"

definition complete_agent_cycle ::
  "string \<Rightarrow> string \<Rightarrow> string \<Rightarrow> agent_verification_result option \<Rightarrow> (store, agent_cycle) op" where
  "complete_agent_cycle tenant_id cycle_id status verifier_result =
     (case completed_cycle_status status of
        None \<Rightarrow> raise (ValueError (''Unsupported completed agent cycle status: '' @ status))
      | Some st \<Rightarrow>
          andThen (get_agent_cycle tenant_id cycle_id) (\<lambda>c.
          andThen (if st \<noteq> CY_WAITING then andThen utc_now (\<lambda>now. ret (Some now)) else ret None)
            (\<lambda>completed_at.
          let updated = c\<lparr>cy_status := st, cy_verifier_result := verifier_result,
                cy_completed_at := completed_at\<rparr> in
          andThen (modify (\<lambda>s. s\<lparr>agent_cycles := dict_set cycle_id updated (agent_cycles s)\<rparr>)) (\<lambda>_.
          ret updated))))"

section \<open>Actions\<close>

definition put_action :: "string \<Rightarrow> agent_action \<Rightarrow> (store, unit) op" where
  "put_action action_id a =
     modify (\<lambda>s. s\<lparr>agent_actions := dict_set action_id a (agent_actions s)\<rparr>)"

definition create_agent_action :: "agent_action \<Rightarrow> (store, agent_action) op" where
  "create_agent_action a =
     andThen (require (ac_status a = AS_PENDING)
       (ValueError (''Agent action '' @ ac_id a @ '' must be pending until it is claimed''))) (\<lambda>_.
     andThen (get_agent_cycle (ac_tenant_id a) (ac_cycle_id a)) (\<lambda>c.
     andThen (require (cy_run_id c = ac_run_id a \<and> cy_workspace_id c = ac_workspace_id a)
       (TenantAccessError (''Agent action '' @ ac_id a @ '' does not match its cycle''))) (\<lambda>_.
     andThen (require (cy_thread_id c = ac_thread_id a)
       (ValueError (''Agent action '' @ ac_id a @ '' thread does not match cycle '' @ cy_id c))) (\<lambda>_.
     andThen (gets (\<lambda>s. dict_get (agent_actions s) (ac_id a))) (\<lambda>existing.
     andThen (require (existing = None)
       (ValueError (''Agent action already exists: '' @ ac_id a))) (\<lambda>_.
     andThen (gets (\<lambda>s. list_ex
       (\<lambda>e. ac_run_id e = ac_run_id a \<and> ac_action_key e = ac_action_key a)
       (dict_values (agent_actions s)))) (\<lambda>duplicate.
     andThen (require (\<not> duplicate)
       (ValueError (''Duplicate action_key for run '' @ ac_run_id a @ '': '' @ ac_action_key a))) (\<lambda>_.
     andThen (put_action (ac_id a) a) (\<lambda>_.
     ret a)))))))))"

definition get_agent_action :: "string \<Rightarrow> string \<Rightarrow> (store, agent_action) op" where
  "get_agent_action tenant_id action_id =
     andThen (gets (\<lambda>s. dict_get (agent_actions s) action_id)) (\<lambda>found.
     case found of
       None \<Rightarrow> raise (NotFoundError (''Agent action not found: '' @ action_id))
     | Some a \<Rightarrow>
         andThen (require (ac_tenant_id a = tenant_id)
           (TenantAccessError (''Agent action '' @ action_id @ '' is not in tenant '' @ tenant_id)))
           (\<lambda>_. ret a))"

text \<open>The sort key reads the clock for an action that has not started.\<close>

fun started_at_keys ::
  "agent_action list \<Rightarrow> (store, ((datetime \<times> string) \<times> agent_action) list) op" where
  "started_at_keys [] = ret []"
| "started_at_keys (a # as) =
     andThen (case ac_started_at a of Some t \<Rightarrow> ret t | None \<Rightarrow> utc_now) (\<lambda>t.
     andThen (started_at_keys as) (\<lambda>rest.
     ret (((t, ac_id a), a) # rest)))"

definition list_agent_actions :: "string \<Rightarrow> string \<Rightarrow> (store, agent_action list) op" where
  "list_agent_actions tenant_id run_id =
     andThen (get_run tenant_id run_id) (\<lambda>_.
     andThen (gets (\<lambda>s. filter (\<lambda>a. ac_tenant_id a = tenant_id \<and> ac_run_id a = run_id)
       (dict_values (agent_actions s)))) (\<lambda>found.
     andThen (started_at_keys found) (\<lambda>keyed.
     ret (map snd (sort_key fst keyed)))))"

datatype resolution = RES_SUCCEEDED | RES_FAILED | RES_RETRY

fun resolution_of :: "string \<Rightarrow> resolution option" where
  "resolution_of x =
     (if x = ''succeeded'' then Some RES_SUCCEEDED
      else if x = ''failed'' then Some RES_FAILED
      else if x = ''retry'' then Some RES_RETRY
      else None)"

text \<open>\<open>note or None\<close>.\<close>

definition none_if_empty :: "string \<Rightarrow> string option" where
  "none_if_empty v = (if v = [] then None else Some v)"

definition resolve_uncertain_agent_action ::
  "string \<Rightarrow> string \<Rightarrow> string \<Rightarrow> string \<Rightarrow> string \<Rightarrow> (store, agent_action) op" where
  "resolve_uncertain_agent_action tenant_id action_id resolution resolved_by_user_id note =
     (case resolution_of resolution of
        None \<Rightarrow> raise (ValueError (''Unsupported uncertain action resolution: '' @ resolution))
      | Some res \<Rightarrow>
          andThen (get_agent_action tenant_id action_id) (\<lambda>a.
          andThen (require (ac_status a = AS_UNCERTAIN)
            (ValueError (''Agent action '' @ action_id @ '' is not uncertain''))) (\<lambda>_.
          andThen
            (if res = RES_RETRY
             then ret (a\<lparr>ac_status := AS_PENDING, ac_lease_owner_id := None,
                         ac_lease_expires_at := None, ac_started_at := None,
                         ac_completed_at := None, ac_observation := None,
                         ac_failure_class := None\<rparr>)
             else
               andThen utc_now (\<lambda>observed_at.
               let failure = (if res = RES_FAILED then Some ''human_confirmed_failed'' else None);
                   err = (if res = RES_FAILED then none_if_empty note else None);
                   observation =
                     \<lparr>ob_action_id = ac_id a, ob_success = (res = RES_SUCCEEDED),
                      ob_output = [(''human_resolution'', JStr resolution),
                                   (''resolved_by_user_id'', JStr resolved_by_user_id)],
                      ob_error = err, ob_safe_error = err, ob_failure_class = failure,
                      ob_created_at = observed_at\<rparr> in
               andThen utc_now (\<lambda>now.
               ret (a\<lparr>ac_status := (if res = RES_SUCCEEDED then AS_SUCCEEDED else AS_FAILED),
                      ac_observation := Some observation, ac_failure_class := failure,
                      ac_lease_owner_id := None, ac_lease_expires_at := None,
                      ac_completed_at := Some now\<rparr>)))) (\<lambda>updated.
          andThen (put_action action_id updated) (\<lambda>_.
          andThen (get_run tenant_id (ac_run_id a)) (\<lambda>r.
          andThen (append_run_event r ''agent.action.resolved''
            [(''action_id'', JStr (ac_id a)), (''resolution'', JStr resolution),
             (''resolved_by_user_id'', JStr resolved_by_user_id), (''note'', JStr note)]) (\<lambda>_.
          ret updated)))))))"

text \<open>\<open>int(usage.get(key, 0))\<close>; the code only ever stores integers under this key.\<close>

definition usage_int :: "json_obj \<Rightarrow> string \<Rightarrow> int" where
  "usage_int usage k =
     (case map_of usage k of
        Some (JInt i) \<Rightarrow> i
      | Some (JBool b) \<Rightarrow> (if b then 1 else 0)
      | Some (JFloat q) \<Rightarrow> (if 0 \<le> q then \<lfloor>q\<rfloor> else \<lceil>q\<rceil>)
      | _ \<Rightarrow> 0)"

abbreviation reconnect_key :: string where
  "reconnect_key \<equiv> ''connector_reconnect_retry_count''"

definition pause_connector_action_for_reconnect ::
  "string \<Rightarrow> string \<Rightarrow> string \<Rightarrow> (store, agent_action) op" where
  "pause_connector_action_for_reconnect tenant_id action_id connector_id =
     andThen (get_agent_action tenant_id action_id) (\<lambda>a.
     andThen (require (\<not> (ac_status a \<noteq> AS_FAILED
         \<or> ac_failure_class a \<noteq> Some ''connector_reconnect_required''
         \<or> 0 < usage_int (ac_usage a) reconnect_key))
       (ValueError ''connector action is not eligible for reconnect'')) (\<lambda>_.
     let updated = a\<lparr>ac_status := AS_UNCERTAIN\<rparr> in
     andThen (put_action action_id updated) (\<lambda>_.
     andThen (get_run tenant_id (ac_run_id a)) (\<lambda>r.
     andThen (append_run_event r ''connector.reconnect_required''
       [(''connector_id'', JStr connector_id), (''action_id'', JStr (ac_id a)),
        (''run_id'', JStr (ac_run_id a)), (''thread_id'', opt_str (ac_thread_id a))]) (\<lambda>_.
     ret updated)))))"

definition observed_connector :: "agent_action \<Rightarrow> json" where
  "observed_connector a =
     (case ac_observation a of
        None \<Rightarrow> JNull
      | Some ob \<Rightarrow> payload_get (ob_output ob) ''connector_id'')"

definition retry_connector_action_after_reconnect ::
  "string \<Rightarrow> string \<Rightarrow> string \<Rightarrow> string \<Rightarrow> (store, agent_action) op" where
  "retry_connector_action_after_reconnect tenant_id action_id connector_id resolved_by_user_id =
     andThen (get_agent_action tenant_id action_id) (\<lambda>a.
     andThen (require (\<not> (ac_status a \<noteq> AS_UNCERTAIN
         \<or> ac_failure_class a \<noteq> Some ''connector_reconnect_required''
         \<or> observed_connector a \<noteq> JStr connector_id
         \<or> usage_int (ac_usage a) reconnect_key \<noteq> 0))
       (ValueError ''connector action reconnect retry is no longer available'')) (\<lambda>_.
     let updated = a\<lparr>ac_status := AS_PENDING, ac_observation := None, ac_failure_class := None,
           ac_lease_owner_id := None, ac_lease_expires_at := None, ac_started_at := None,
           ac_completed_at := None, ac_usage := dict_set reconnect_key (JInt 1) (ac_usage a)\<rparr> in
     andThen (put_action action_id updated) (\<lambda>_.
     andThen (get_run tenant_id (ac_run_id a)) (\<lambda>r.
     andThen (append_run_event r ''connector.reconnect_resumed''
       [(''connector_id'', JStr connector_id), (''action_id'', JStr (ac_id a)),
        (''resolved_by_user_id'', JStr resolved_by_user_id)]) (\<lambda>_.
     ret updated)))))"

section \<open>Leases\<close>

text \<open>
  A lease time given by the caller may be naive (no time zone), which is refused; an aware
  time is converted to UTC. A missing time is the clock's.
\<close>

datatype py_datetime = Naive datetime | Aware datetime

definition lease_time :: "py_datetime option \<Rightarrow> (store, datetime) op" where
  "lease_time v =
     (case v of
        None \<Rightarrow> utc_now
      | Some (Aware t) \<Rightarrow> ret t
      | Some (Naive _) \<Rightarrow> raise (ValueError ''Agent action lease times must be timezone-aware''))"

definition lease_expiration :: "datetime \<Rightarrow> int \<Rightarrow> (store, datetime) op" where
  "lease_expiration now lease_seconds =
     andThen (require (1 \<le> lease_seconds) (ValueError ''lease_seconds must be at least 1'')) (\<lambda>_.
     ret (now + lease_seconds * 1000000))"

definition claim_agent_action ::
  "string \<Rightarrow> string \<Rightarrow> string \<Rightarrow> int \<Rightarrow> py_datetime option \<Rightarrow> (store, agent_action option) op" where
  "claim_agent_action tenant_id action_id lease_owner_id lease_seconds now =
     andThen (lease_time now) (\<lambda>claimed_at.
     andThen (lease_expiration claimed_at lease_seconds) (\<lambda>lease_expires_at.
     andThen (require (lease_owner_id \<noteq> [])
       (ValueError ''lease_owner_id must not be empty'')) (\<lambda>_.
     andThen (gets (\<lambda>s. dict_get (agent_actions s) action_id)) (\<lambda>found.
     case found of
       None \<Rightarrow> ret None
     | Some a \<Rightarrow>
         if ac_tenant_id a \<noteq> tenant_id \<or> ac_status a \<noteq> AS_PENDING then ret None
         else
           let claimed = a\<lparr>ac_status := AS_RUNNING, ac_lease_owner_id := Some lease_owner_id,
                 ac_lease_expires_at := Some lease_expires_at,
                 ac_lease_generation := ac_lease_generation a + 1,
                 ac_started_at := Some claimed_at\<rparr> in
           andThen (put_action action_id claimed) (\<lambda>_.
           ret (Some claimed))))))"

text \<open>The fence: running, this owner, this generation, lease not expired.\<close>

definition holds_lease :: "agent_action \<Rightarrow> string \<Rightarrow> int \<Rightarrow> datetime \<Rightarrow> bool" where
  "holds_lease a owner generation now \<longleftrightarrow>
     \<not> (ac_status a \<noteq> AS_RUNNING
        \<or> ac_lease_owner_id a \<noteq> Some owner
        \<or> ac_lease_generation a \<noteq> generation
        \<or> (case ac_lease_expires_at a of None \<Rightarrow> True | Some t \<Rightarrow> t \<le> now))"

definition renew_agent_action_lease ::
  "string \<Rightarrow> string \<Rightarrow> string \<Rightarrow> int \<Rightarrow> int \<Rightarrow> py_datetime option
   \<Rightarrow> (store, agent_action option) op" where
  "renew_agent_action_lease tenant_id action_id lease_owner_id lease_generation lease_seconds now =
     andThen (lease_time now) (\<lambda>renewed_at.
     andThen (lease_expiration renewed_at lease_seconds) (\<lambda>lease_expires_at.
     andThen (gets (\<lambda>s. dict_get (agent_actions s) action_id)) (\<lambda>found.
     case found of
       None \<Rightarrow> ret None
     | Some a \<Rightarrow>
         if ac_tenant_id a \<noteq> tenant_id
           \<or> \<not> holds_lease a lease_owner_id lease_generation renewed_at then ret None
         else
           let renewed = a\<lparr>ac_lease_expires_at := Some lease_expires_at\<rparr> in
           andThen (put_action action_id renewed) (\<lambda>_.
           ret (Some renewed)))))"

definition cancel_agent_action ::
  "string \<Rightarrow> string \<Rightarrow> py_datetime option \<Rightarrow> (store, agent_action) op" where
  "cancel_agent_action tenant_id action_id now =
     andThen (get_agent_action tenant_id action_id) (\<lambda>a.
     if ac_status a \<notin> {AS_PENDING, AS_RUNNING, AS_UNCERTAIN} then ret a
     else
       andThen (lease_time now) (\<lambda>cancelled_at.
       let cancelled = a\<lparr>ac_status := AS_CANCELLED, ac_lease_owner_id := None,
             ac_lease_expires_at := None, ac_completed_at := Some cancelled_at\<rparr> in
       andThen (put_action action_id cancelled) (\<lambda>_.
       ret cancelled)))"

definition lease_lost :: "string \<Rightarrow> datetime \<Rightarrow> agent_action \<Rightarrow> bool" where
  "lease_lost tenant_id now a \<longleftrightarrow>
     ac_tenant_id a = tenant_id \<and> ac_status a = AS_RUNNING
     \<and> (case ac_lease_expires_at a of None \<Rightarrow> True | Some t \<Rightarrow> t \<le> now)"

definition expired_actions :: "string \<Rightarrow> datetime \<Rightarrow> nat \<Rightarrow> store \<Rightarrow> agent_action list" where
  "expired_actions tenant_id now limit s =
     take limit (sort_key ac_id (filter (lease_lost tenant_id now) (dict_values (agent_actions s))))"

definition recover_expired_agent_actions ::
  "string \<Rightarrow> py_datetime option \<Rightarrow> int \<Rightarrow> (store, agent_action list) op" where
  "recover_expired_agent_actions tenant_id now limit =
     andThen (require (1 \<le> limit) (ValueError ''limit must be at least 1'')) (\<lambda>_.
     andThen (lease_time now) (\<lambda>recovered_at.
     andThen (gets (expired_actions tenant_id recovered_at (nat limit))) (\<lambda>candidates.
     for_each candidates (\<lambda>a.
       let uncertain = a\<lparr>ac_status := AS_UNCERTAIN, ac_lease_owner_id := None,
             ac_lease_expires_at := None\<rparr> in
       andThen (put_action (ac_id a) uncertain) (\<lambda>_.
       ret uncertain)))))"

section \<open>Commit and checkpoints\<close>

definition next_checkpoint_sequence :: "string \<Rightarrow> store \<Rightarrow> int" where
  "next_checkpoint_sequence run_id s =
     max_default (map cp_sequence (dict_get_list (agent_checkpoints s) run_id)) 0 + 1"

definition append_checkpoint :: "agent_checkpoint \<Rightarrow> (store, unit) op" where
  "append_checkpoint cp =
     modify (\<lambda>s. s\<lparr>agent_checkpoints := dict_append (cp_run_id cp) cp (agent_checkpoints s)\<rparr>)"

text \<open>
  \<open>commit_agent_action_observation\<close>. The serialisation check at the start cannot fail on JSON
  values, and the roll-back handler guards two assignments that do not raise.
\<close>

definition commit_agent_action_observation ::
  "string \<Rightarrow> string \<Rightarrow> agent_observation \<Rightarrow> string \<Rightarrow> int \<Rightarrow> py_datetime option \<Rightarrow> json_obj
   \<Rightarrow> json_obj \<Rightarrow> string \<Rightarrow> string option \<Rightarrow> (store, agent_action \<times> agent_checkpoint) op" where
  "commit_agent_action_observation tenant_id action_id observation lease_owner_id
     lease_generation now usage state_payload checksum sandbox_checkpoint_ref =
     andThen (get_agent_action tenant_id action_id) (\<lambda>a.
     andThen (require (ob_action_id observation = ac_id a)
       (ValueError ''Observation action_id does not match the committed action'')) (\<lambda>_.
     andThen (lease_time now) (\<lambda>committed_at.
     andThen (require (holds_lease a lease_owner_id lease_generation committed_at)
       (AgentActionLeaseConflictError
          (''Agent action '' @ action_id @ '' lease fence is no longer valid''))) (\<lambda>_.
     andThen (gets (next_checkpoint_sequence (ac_run_id a))) (\<lambda>checkpoint_sequence.
     let updated_action = a\<lparr>
           ac_status := (if ob_success observation then AS_SUCCEEDED else AS_FAILED),
           ac_observation := Some observation,
           ac_failure_class := ob_failure_class observation,
           ac_lease_owner_id := None, ac_lease_expires_at := None, ac_usage := usage,
           ac_completed_at := Some committed_at\<rparr> in
     andThen (new_id ''checkpoint'') (\<lambda>checkpoint_id.
     andThen (require (checksum \<noteq> []) (ValidationError ''AgentCheckpoint'')) (\<lambda>_.
     let checkpoint =
       \<lparr>cp_id = checkpoint_id, cp_tenant_id = ac_tenant_id a,
        cp_workspace_id = ac_workspace_id a, cp_run_id = ac_run_id a,
        cp_sequence = checkpoint_sequence, cp_state_payload = state_payload,
        cp_checksum = checksum, cp_thread_id = ac_thread_id a, cp_cycle_id = Some (ac_cycle_id a),
        cp_last_committed_action_id = Some (ac_id a),
        cp_sandbox_checkpoint_ref = sandbox_checkpoint_ref, cp_created_at = committed_at\<rparr> in
     andThen (put_action action_id updated_action) (\<lambda>_.
     andThen (append_checkpoint checkpoint) (\<lambda>_.
     ret (updated_action, checkpoint))))))))))"

definition create_agent_checkpoint :: "agent_checkpoint \<Rightarrow> (store, agent_checkpoint) op" where
  "create_agent_checkpoint cp =
     andThen (get_run (cp_tenant_id cp) (cp_run_id cp)) (\<lambda>r.
     andThen (require (r_workspace_id r = cp_workspace_id cp)
       (TenantAccessError (''Run '' @ r_id r @ '' is not in workspace '' @ cp_workspace_id cp))) (\<lambda>_.
     andThen (require (r_thread_id r = cp_thread_id cp)
       (ValueError (''Agent checkpoint '' @ cp_id cp @ '' thread does not match run '' @ r_id r))) (\<lambda>_.
     andThen (case cp_cycle_id cp of
         None \<Rightarrow> ret ()
       | Some cycle_id \<Rightarrow>
           andThen (get_agent_cycle (cp_tenant_id cp) cycle_id) (\<lambda>c.
           require (cy_run_id c = cp_run_id cp)
             (ValueError (''Agent checkpoint '' @ cp_id cp @ '' cycle does not match its run'')))) (\<lambda>_.
     andThen (case cp_last_committed_action_id cp of
         None \<Rightarrow> ret ()
       | Some action_id \<Rightarrow>
           andThen (get_agent_action (cp_tenant_id cp) action_id) (\<lambda>a.
           require (ac_run_id a = cp_run_id cp)
             (ValueError (''Agent checkpoint '' @ cp_id cp @ '' action does not match its run'')))) (\<lambda>_.
     andThen (gets (next_checkpoint_sequence (cp_run_id cp))) (\<lambda>expected.
     andThen (require (cp_sequence cp = expected)
       (ValueError (''Agent checkpoint sequence must be the next checkpoint sequence (''
          @ show_int expected @ ''), got '' @ show_int (cp_sequence cp)))) (\<lambda>_.
     andThen (append_checkpoint cp) (\<lambda>_.
     ret cp))))))))"

definition get_latest_agent_checkpoint ::
  "string \<Rightarrow> string \<Rightarrow> (store, agent_checkpoint option) op" where
  "get_latest_agent_checkpoint tenant_id run_id =
     andThen (get_run tenant_id run_id) (\<lambda>_.
     gets (\<lambda>s. case dict_get_list (agent_checkpoints s) run_id of
         [] \<Rightarrow> None
       | cp # cps \<Rightarrow> Some (max_by cp_sequence cp cps)))"

end
