(* ===== verification/StoreOps.thy ===== *)
theory StoreOps
  imports StoreActions
begin

text \<open>
  The public operations of the store that change its state, one class per part of the class
  \<open>InMemoryControlPlaneStore\<close>, and the states they reach from an empty store. The locales
  state, per part, what an invariant has to promise about the updates that part makes; from
  that every operation of the part keeps the invariant. A component interprets the locales
  of the parts its invariant does not speak of (nearly free) and proves by hand only the
  operations that write what it speaks of.
\<close>

section \<open>Operations and reachable states\<close>

inductive tenancy_op :: "(store, unit) op \<Rightarrow> bool" where
  op_register_workspace: "tenancy_op (void (register_workspace t w u n))"
| op_rename_tenant: "tenancy_op (void (rename_tenant t n))"
| op_create_workspace: "tenancy_op (void (create_workspace t w u n))"
| op_rename_workspace: "tenancy_op (void (rename_workspace t w n))"
| op_create_tenant_invitation: "tenancy_op (void (create_tenant_invitation i))"
| op_revoke_tenant_invitation: "tenancy_op (void (revoke_tenant_invitation t i tm))"
| op_accept_tenant_invitation: "tenancy_op (void (accept_tenant_invitation t i u tm))"

inductive log_op :: "(store, unit) op \<Rightarrow> bool" where
  op_record_audit_event: "log_op (void (record_audit_event t w u r ty md))"
| op_record_billing_meter: "log_op (void (record_billing_meter t r mt q un md sk pr mo c w u ag))"
| op_append_run_event: "log_op (void (append_run_event rn ty pl))"

inductive chat_op :: "(store, unit) op \<Rightarrow> bool" where
  op_create_chat_thread: "chat_op (void (create_chat_thread t u tc))"
| op_update_chat_thread: "chat_op (void (update_chat_thread t i tch))"
| op_append_chat_message: "chat_op (void (append_chat_message t i us mc))"
| op_update_chat_message: "chat_op (void (update_chat_message t i mch))"
| op_delete_chat_message: "chat_op (delete_chat_message t i)"
| op_claim_next_queued_message: "chat_op (void (claim_next_queued_message t i))"
| op_mark_steering_applied: "chat_op (void (mark_steering_applied t i))"

inductive run_op :: "(store, unit) op \<Rightarrow> bool" where
  op_create_run: "run_op (void (create_run t u rc))"
| op_create_queued_thread_run: "run_op (void (create_queued_thread_run_if_absent t u rc))"
| op_update_run_status: "run_op (void (update_run_status t i st b))"
| op_cancel_run: "run_op (void (cancel_run t i u rs))"
| op_request_run_retry: "run_op (void (request_run_retry t i u rs))"
| op_mark_notification_read: "run_op (void (mark_notification_read t u i))"
| op_mark_all_notifications_read: "run_op (void (mark_all_notifications_read t u))"

inductive record_op :: "(store, unit) op \<Rightarrow> bool" where
  op_create_artifact: "record_op (void (create_artifact t i n aty uri af))"
| op_create_approval_request: "record_op (void (create_approval_request t i sid rs k sty sbi pp vp))"
| op_resolve_approval_request: "record_op (void (resolve_approval_request t i a u))"
| op_reject_approval_request: "record_op (void (reject_approval_request t i a u))"
| op_cancel_pending_approvals: "record_op (void (cancel_pending_approval_requests t i u))"
| op_update_approval_execution: "record_op (void (update_approval_execution t i a es er))"
| op_create_secret_capture: "record_op (void (create_secret_capture_request rn n tn cn an as))"
| op_resolve_secret_capture: "record_op (void (resolve_secret_capture_request t i sr))"
| op_save_runtime_state: "record_op (void (save_runtime_state rst))"
| op_reserve_idempotency: "record_op (void (reserve_idempotency_record ir))"
| op_reclaim_idempotency: "record_op (void (reclaim_stale_idempotency_record ir tm))"
| op_delete_idempotency: "record_op (delete_idempotency_record t k m p h)"
| op_save_idempotency: "record_op (void (save_idempotency_record ir))"
| op_save_license: "record_op (void (save_license_validation lv))"

inductive workflow_op :: "(store, unit) op \<Rightarrow> bool" where
  op_create_workflow: "workflow_op (void (create_workflow rn sp))"
| op_update_workflow: "workflow_op (void (update_workflow t i wch))"
| op_update_workflow_task: "workflow_op (void (update_workflow_task t i tkch))"

inductive action_op :: "(store, unit) op \<Rightarrow> bool" where
  op_create_agent_cycle: "action_op (void (create_agent_cycle cy))"
| op_complete_agent_cycle: "action_op (void (complete_agent_cycle t i cst vr))"
| op_create_agent_action: "action_op (void (create_agent_action ac))"
| op_list_agent_actions: "action_op (void (list_agent_actions t i))"
| op_resolve_uncertain: "action_op (void (resolve_uncertain_agent_action t i res u nt))"
| op_pause_connector: "action_op (void (pause_connector_action_for_reconnect t i cn))"
| op_retry_connector: "action_op (void (retry_connector_action_after_reconnect t i cn u))"
| op_claim_agent_action: "action_op (void (claim_agent_action t i ow ls nw))"
| op_renew_lease: "action_op (void (renew_agent_action_lease t i ow g ls nw))"
| op_cancel_agent_action: "action_op (void (cancel_agent_action t i nw))"
| op_recover_expired: "action_op (void (recover_expired_agent_actions t nw mx))"
| op_commit_observation:
    "action_op (void (commit_agent_action_observation t i ob ow g nw us sp cs sb))"
| op_create_checkpoint: "action_op (void (create_agent_checkpoint cp))"

text \<open>Together: the operations of the store.\<close>

definition store_op :: "(store, unit) op \<Rightarrow> bool" where
  "store_op m \<longleftrightarrow> tenancy_op m \<or> log_op m \<or> chat_op m \<or> run_op m \<or> record_op m \<or> workflow_op m
     \<or> action_op m"

lemma store_op_classes:
  "tenancy_op m \<Longrightarrow> store_op m" "log_op m \<Longrightarrow> store_op m" "chat_op m \<Longrightarrow> store_op m"
  "run_op m \<Longrightarrow> store_op m" "record_op m \<Longrightarrow> store_op m" "workflow_op m \<Longrightarrow> store_op m"
  "action_op m \<Longrightarrow> store_op m"
  by (simp_all add: store_op_def)

lemmas store_ops =
  tenancy_op.intros [THEN store_op_classes(1)] log_op.intros [THEN store_op_classes(2)]
  chat_op.intros [THEN store_op_classes(3)] run_op.intros [THEN store_op_classes(4)]
  record_op.intros [THEN store_op_classes(5)] workflow_op.intros [THEN store_op_classes(6)]
  action_op.intros [THEN store_op_classes(7)]

text \<open>A step of the store: an operation ran, and returned or raised.\<close>

definition store_step :: "store \<Rightarrow> store \<Rightarrow> bool" where
  "store_step s t \<longleftrightarrow> (\<exists>m. store_op m \<and> t = snd (m s))"

inductive store_steps :: "store \<Rightarrow> store \<Rightarrow> bool" where
  steps_refl: "store_steps s s"
| steps_step: "store_steps s t \<Longrightarrow> store_op m \<Longrightarrow> store_steps s (snd (m t))"

inductive reachable :: "store \<Rightarrow> bool" where
  reach_init: "reachable (empty_store clk uuids notifier)"
| reach_step: "reachable s \<Longrightarrow> store_op m \<Longrightarrow> reachable (snd (m s))"

inductive_simps store_steps_from: "store_steps s t"

lemma store_steps_reachable: "store_steps s t \<Longrightarrow> reachable s \<Longrightarrow> reachable t"
  by (induction rule: store_steps.induct) (auto intro: reach_step)

lemma store_steps_trans: "store_steps t u \<Longrightarrow> store_steps s t \<Longrightarrow> store_steps s u"
  by (induction rule: store_steps.induct) (auto intro: store_steps.intros)

lemma void_step: "snd (void m s) = snd (m s)"
  by (simp add: void_apply split: prod.splits sum.splits)

text \<open>What every operation preserves holds along steps and in reachable states.\<close>

lemma store_steps_invariant:
  assumes "store_steps s t" and "\<And>m. store_op m \<Longrightarrow> preserves I m" and "I s"
  shows "I t"
  using assms(1,3) by (induction rule: store_steps.induct) (auto dest: assms(2) preserves_snd)

lemma reachable_invariant:
  assumes "reachable s" and "\<And>m. store_op m \<Longrightarrow> preserves I m"
    and "\<And>clk uuids notifier. I (empty_store clk uuids notifier)"
  shows "I s"
  using assms(1) by (induction rule: reachable.induct)
    (auto intro: assms(3) dest: assms(2) preserves_snd)

section \<open>Building blocks\<close>

lemmas lookup_defs = get_run_def get_chat_thread_def get_chat_message_def
  get_tenant_invitation_def get_tenant_def get_secret_capture_request_def get_workflow_def
  get_agent_cycle_def get_agent_action_def get_active_thread_run_def list_chat_messages_def
  get_workflow_for_parent_run_def validate_context_ownership_def check_run_payload_def

text \<open>Reading never changes the store.\<close>

lemma preserves_lookups [frame_rules]:
  "preserves I (get_run t i)" "preserves I (get_chat_thread t i)"
  "preserves I (get_chat_message t i)" "preserves I (get_tenant_invitation t i)"
  "preserves I (get_tenant t)" "preserves I (get_secret_capture_request t i)"
  "preserves I (get_workflow t i)" "preserves I (get_agent_cycle t i)"
  "preserves I (get_agent_action t i)" "preserves I (get_active_thread_run t i)"
  "preserves I (list_chat_messages t i)" "preserves I (get_workflow_for_parent_run t i)"
  "preserves I (validate_context_ownership t w u)" "preserves I (check_run_payload t u rc)"
  unfolding lookup_defs by (intro frame_rules)+

lemma readonly_get_run: "readonly (get_run t i)"
  and readonly_get_chat_thread: "readonly (get_chat_thread t i)"
  and readonly_get_agent_action: "readonly (get_agent_action t i)"
  unfolding lookup_defs by (intro readonly_rules)+

lemma preserves_new_id:
  "(\<And>s. I s \<Longrightarrow> I (s\<lparr>tick := Suc (tick s)\<rparr>)) \<Longrightarrow> preserves I (new_id p)"
  by (simp add: preserves_def new_id_def)

lemma preserves_utc_now:
  "(\<And>s. I s \<Longrightarrow> I (s\<lparr>tick := Suc (tick s)\<rparr>)) \<Longrightarrow> preserves I utc_now"
  by (simp add: preserves_def utc_now_def)

lemma new_id_eval: "new_id p s = (Inr (p @ ''_'' @ uuid4_hex s (tick s)), s\<lparr>tick := Suc (tick s)\<rparr>)"
  by (simp add: new_id_def)

lemma utc_now_eval: "utc_now s = (Inr (clock s (tick s)), s\<lparr>tick := Suc (tick s)\<rparr>)"
  by (simp add: utc_now_def)

lemma preserves_started_at_keys:
  "preserves I utc_now \<Longrightarrow> preserves I (started_at_keys as)"
  by (induction as) (auto intro!: frame_rules)

lemma preserves_cancel_approvals_from:
  assumes "preserves I utc_now" and "\<And>i a. preserves I (set_approval rid i a)"
    and "\<And>w u ri ty md. preserves I (record_audit_event_internal t w u ri ty md)"
    and "\<And>ty pl. preserves I (append_run_event r ty pl)"
  shows "preserves I (cancel_approvals_from t rid r user n as)"
  using assms(1)
  by (induction as arbitrary: n) (auto intro!: frame_rules assms(2-4) simp: Let_def)

section \<open>What an invariant promises: the log\<close>

locale frame =
  fixes I :: "store \<Rightarrow> bool"
  assumes tick: "I s \<Longrightarrow> tick s \<le> n \<Longrightarrow> I (s\<lparr>tick := n\<rparr>)"
    and audit: "I s \<Longrightarrow> I (s\<lparr>audit_events := au\<rparr>)"
    and meters: "I s \<Longrightarrow> I (s\<lparr>billing_meters := bm\<rparr>)"
    and event: "preserves I (append_run_event r ty pl)"
begin

lemma new_id_frame [frame_rules]: "preserves I (new_id p)"
  by (simp add: preserves_def new_id_eval tick)

lemma utc_now_frame [frame_rules]: "preserves I utc_now"
  by (simp add: preserves_def utc_now_eval tick)

lemma audit_frame: "preserves I (record_audit_event_internal t w u ri ty md)"
  unfolding record_audit_event_internal_def by (intro frame_rules preserves_modify event; simp add: audit)

lemma billing_audit_frame: "preserves I (record_billing_audit_event m)"
  unfolding record_billing_audit_event_def by (rule audit_frame)

lemma append_meter_frame: "preserves I (append_meter m)"
  unfolding append_meter_def by (intro frame_rules preserves_modify; simp add: meters)

lemma run_meter_frame: "preserves I (record_run_meter r)"
  unfolding record_run_meter_def
  by (intro frame_rules append_meter_frame billing_audit_frame event)

lemma log_op_frame: "log_op m \<Longrightarrow> preserves I m"
  by (erule log_op.cases; hypsubst; (unfold record_audit_event_def record_billing_meter_def)?;
      intro frame_rules append_meter_frame billing_audit_frame audit_frame event)

end

section \<open>Tenancy\<close>

locale context_frame = frame +
  assumes ensure: "preserves I (ensure_context t w u)"

locale tenancy_frame = context_frame +
  assumes names: "I s \<Longrightarrow> I (s\<lparr>tenant_names := tn\<rparr>)"
    and workspaces: "I s \<Longrightarrow> I (s\<lparr>workspace_names := wn\<rparr>)"
    and invitations: "I s \<Longrightarrow> I (s\<lparr>tenant_invitations := ti\<rparr>)"
begin

lemma register_workspace_eq:
  "register_workspace t w u n = andThen (ensure_context t w u) (\<lambda>_.
     modify (\<lambda>s. s\<lparr>tenant_names := dict_setdefault t t (tenant_names s),
                   workspace_names := dict_setdefault w (or_default n w) (workspace_names s)\<rparr>))"
  by (simp add: register_workspace_def ensure_context_def andThen_assoc)

lemma register_workspace_frame: "preserves I (register_workspace t w u n)"
  unfolding register_workspace_eq
  by (intro frame_rules ensure preserves_modify) (simp add: names workspaces)

lemma tenancy_op_frame: "tenancy_op m \<Longrightarrow> preserves I m"
  by (erule tenancy_op.cases; hypsubst; (unfold rename_tenant_def create_workspace_def
      rename_workspace_def create_tenant_invitation_def revoke_tenant_invitation_def
      accept_tenant_invitation_def put_invitation_def)?;
      intro frame_rules register_workspace_frame preserves_modify;
      simp add: names workspaces invitations)

end

section \<open>Chat\<close>

text \<open>What an update of a thread or message never changes.\<close>

definition thread_key :: "chat_thread \<Rightarrow> string \<times> string \<times> string" where
  "thread_key th = (th_id th, th_tenant_id th, th_workspace_id th)"

definition message_key :: "chat_message \<Rightarrow> string \<times> string \<times> string \<times> string \<times> int" where
  "message_key m = (m_id m, m_tenant_id m, m_workspace_id m, m_thread_id m, m_sequence m)"

lemma thread_key_changes: "thread_key (foldl apply_thread_change th cs) = thread_key th"
proof (induction cs arbitrary: th)
  case (Cons c cs)
  then show ?case by (cases c) (auto simp: thread_key_def)
qed simp

lemma message_key_changes: "message_key (foldl apply_message_change m cs) = message_key m"
proof (induction cs arbitrary: m)
  case (Cons c cs)
  then show ?case by (cases c) (auto simp: message_key_def)
qed simp

locale chat_frame = context_frame +
  assumes thread_created: "preserves I (create_chat_thread t u tc)"
    and message_appended: "preserves I (append_chat_message t i us mc)"
    and thread_updated: "I s \<Longrightarrow> dict_get (chat_threads s) i = Some th \<Longrightarrow>
      thread_key th' = thread_key th \<Longrightarrow> I (s\<lparr>chat_threads := dict_set i th' (chat_threads s)\<rparr>)"
    and message_updated: "I s \<Longrightarrow> dict_get (chat_messages s) i = Some m \<Longrightarrow>
      message_key m' = message_key m \<Longrightarrow>
      I (s\<lparr>chat_messages := dict_set i m' (chat_messages s)\<rparr>)"
    and message_deleted: "I s \<Longrightarrow> I (s\<lparr>chat_messages := AList.delete i (chat_messages s)\<rparr>)"
begin

lemma update_chat_thread_frame: "preserves I (update_chat_thread t i ch)"
proof (rule preservesI)
  fix s r s' assume I: "I s" and run: "update_chat_thread t i ch s = (r, s')"
  have "I (s\<lparr>tick := Suc (tick s)\<rparr>)" using I by (rule tick) simp
  note upd = thread_updated [OF this, simplified]
  have "thread_key (foldl apply_thread_change th ch\<lparr>th_updated_at := n\<rparr>) = thread_key th" for th n
    using thread_key_changes [of th ch] by (simp add: thread_key_def)
  with run I upd show "I s'"
    by (auto simp: update_chat_thread_def get_chat_thread_def op_simps utc_now_eval Let_def
        split: option.splits if_splits)
qed

lemma update_chat_message_frame: "preserves I (update_chat_message t i ch)"
proof (rule preservesI)
  fix s r s' assume I: "I s" and run: "update_chat_message t i ch s = (r, s')"
  have "I (s\<lparr>tick := Suc (tick s)\<rparr>)" using I by (rule tick) simp
  note upd = message_updated [OF this, simplified]
  have "message_key (foldl apply_message_change m ch\<lparr>m_updated_at := n\<rparr>) = message_key m" for m n
    using message_key_changes [of m ch] by (simp add: message_key_def)
  with run I upd show "I s'"
    by (auto simp: update_chat_message_def get_chat_message_def op_simps utc_now_eval Let_def
        split: option.splits if_splits)
qed

lemma chat_op_frame: "chat_op m \<Longrightarrow> preserves I m"
  by (erule chat_op.cases; hypsubst; (unfold delete_chat_message_def
      claim_next_queued_message_def mark_steering_applied_def)?;
      intro frame_rules thread_created message_appended update_chat_thread_frame
        update_chat_message_frame preserves_modify message_deleted; assumption)

end

text \<open>An invariant that does not speak of threads or messages has these for free.\<close>

lemma preserves_chat_creation_free:
  assumes "\<And>s n. I s \<Longrightarrow> tick s \<le> n \<Longrightarrow> I (s\<lparr>tick := n\<rparr>)"
    and "\<And>t w u. preserves I (ensure_context t w u)"
    and "\<And>s x. I s \<Longrightarrow> I (s\<lparr>chat_threads := x\<rparr>)" and "\<And>s x. I s \<Longrightarrow> I (s\<lparr>chat_messages := x\<rparr>)"
  shows "preserves I (create_chat_thread t u tc)" and "preserves I (append_chat_message t i us mc)"
proof -
  have "preserves I utc_now" and "\<And>p. preserves I (new_id p)"
    by (auto intro!: preserves_utc_now preserves_new_id assms(1))
  note * = this frame_rules assms(2) preserves_modify
  show "preserves I (create_chat_thread t u tc)"
    unfolding create_chat_thread_def by (intro *; simp add: assms)
  show "preserves I (append_chat_message t i us mc)"
    unfolding append_chat_message_def by (intro *; simp add: assms)
qed

section \<open>Runs\<close>

text \<open>A status change reads the run, checks it, and writes it back with a new status.\<close>

lemma preserves_status_change:
  assumes "\<And>s n. I s \<Longrightarrow> tick s \<le> n \<Longrightarrow> I (s\<lparr>tick := n\<rparr>)"
    and "\<And>s r n. I s \<Longrightarrow> dict_get (runs s) i = Some r \<Longrightarrow>
           I (s\<lparr>runs := dict_set i (r\<lparr>r_status := st, r_updated_at := n\<rparr>) (runs s)\<rparr>)"
    and "\<And>r n. preserves I (g r n)"
  shows "preserves I (andThen (get_run t i) (\<lambda>r. andThen (require (b r) (e r)) (\<lambda>_.
           andThen utc_now (\<lambda>now.
           andThen (modify (\<lambda>s. s\<lparr>runs := dict_set i (r\<lparr>r_status := st, r_updated_at := now\<rparr>)
             (runs s)\<rparr>)) (\<lambda>_. g r now)))))"
proof (rule preservesI)
  fix s x u assume I: "I s" and run: "andThen (get_run t i) (\<lambda>r. andThen (require (b r) (e r)) (\<lambda>_.
           andThen utc_now (\<lambda>now.
           andThen (modify (\<lambda>s. s\<lparr>runs := dict_set i (r\<lparr>r_status := st, r_updated_at := now\<rparr>)
             (runs s)\<rparr>)) (\<lambda>_. g r now)))) s = (x, u)"
  show "I u"
  proof (cases "dict_get (runs s) i")
    case None
    with I run show ?thesis by (auto simp: get_run_def op_simps)
  next
    case (Some r)
    let ?s = "s\<lparr>tick := Suc (tick s),
      runs := dict_set i (r\<lparr>r_status := st, r_updated_at := clock s (tick s)\<rparr>) (runs s)\<rparr>"
    have "I (s\<lparr>tick := Suc (tick s)\<rparr>)" using I by (rule assms(1)) simp
    then have "I ?s" using assms(2) [of "s\<lparr>tick := Suc (tick s)\<rparr>" r "clock s (tick s)"] Some by simp
    with assms(3) have "I (snd (g r (clock s (tick s)) ?s))" by (rule preserves_snd)
    with I run Some show ?thesis
      by (auto simp: get_run_def op_simps utc_now_eval split: if_splits)
  qed
qed

lemma preserves_status_change':
  assumes "\<And>s n. I s \<Longrightarrow> tick s \<le> n \<Longrightarrow> I (s\<lparr>tick := n\<rparr>)"
    and "\<And>s r n. I s \<Longrightarrow> dict_get (runs s) i = Some r \<Longrightarrow>
           I (s\<lparr>runs := dict_set i (r\<lparr>r_status := st, r_updated_at := n\<rparr>) (runs s)\<rparr>)"
    and "\<And>r n. preserves I (g r n)"
  shows "preserves I (andThen (get_run t i) (\<lambda>r.
           andThen utc_now (\<lambda>now.
           andThen (modify (\<lambda>s. s\<lparr>runs := dict_set i (r\<lparr>r_status := st, r_updated_at := now\<rparr>)
             (runs s)\<rparr>)) (\<lambda>_. g r now))))"
proof -
  note preserves_status_change [OF assms, where b = "\<lambda>_. True" and t = t]
  then show ?thesis unfolding require_def if_True andThen_ret .
qed

locale run_frame = frame +
  assumes create: "preserves I (create_run t u rc)"
    and status: "I s \<Longrightarrow> dict_get (runs s) i = Some r \<Longrightarrow>
      I (s\<lparr>runs := dict_set i (r\<lparr>r_status := st, r_updated_at := n\<rparr>) (runs s)\<rparr>)"
    and notices: "I s \<Longrightarrow> I (s\<lparr>notifications := nts\<rparr>)"
begin

lemma notification_frame: "preserves I (notification_for_agent_run_status r st)"
  unfolding notification_for_agent_run_status_def by (intro frame_rules)

lemma update_run_status_frame: "preserves I (update_run_status t i st b)"
  unfolding update_run_status_def Let_def
  by (rule preserves_status_change'; (rule tick; assumption | rule status; assumption |
      intro frame_rules event notification_frame preserves_modify; simp add: notices))

lemma cancel_run_frame: "preserves I (cancel_run t i u rs)"
  unfolding cancel_run_def Let_def
  by (rule preserves_status_change; (rule tick; assumption | rule status; assumption |
      intro frame_rules event audit_frame))

lemma request_run_retry_frame: "preserves I (request_run_retry t i u rs)"
  unfolding request_run_retry_def Let_def
  by (rule preserves_status_change; (rule tick; assumption | rule status; assumption |
      intro frame_rules event audit_frame))

lemma run_op_frame: "run_op m \<Longrightarrow> preserves I m"
  by (erule run_op.cases; hypsubst; (unfold create_queued_thread_run_if_absent_def
      mark_notification_read_def mark_all_notifications_read_def)?;
      intro frame_rules create update_run_status_frame cancel_run_frame request_run_retry_frame
        preserves_modify; simp add: notices)

end


text \<open>What an invariant that does not speak of the written parts needs.\<close>

lemma preserves_append_run_event_free:
  assumes "\<And>s n. I s \<Longrightarrow> tick s \<le> n \<Longrightarrow> I (s\<lparr>tick := n\<rparr>)" and "\<And>s x. I s \<Longrightarrow> I (s\<lparr>run_events := x\<rparr>)"
    and "\<And>s x. I s \<Longrightarrow> I (s\<lparr>notified := x\<rparr>)"
  shows "preserves I (append_run_event r ty pl)"
  unfolding append_run_event_def notify_thread_event_def
  by (intro frame_rules preserves_modify preserves_new_id preserves_utc_now; simp add: assms)

lemma preserves_ensure_context_free:
  assumes "\<And>s x. I s \<Longrightarrow> I (s\<lparr>workspace_tenants := x\<rparr>)" and "\<And>s x. I s \<Longrightarrow> I (s\<lparr>user_tenants := x\<rparr>)"
  shows "preserves I (ensure_context t w u)"
  unfolding ensure_context_def register_context_def
  by (intro frame_rules preserves_modify) (simp_all add: assms)

context frame begin

lemma preserves_create_run:
  assumes "\<And>s x. I s \<Longrightarrow> I (s\<lparr>workspace_tenants := x\<rparr>)" and "\<And>s x. I s \<Longrightarrow> I (s\<lparr>user_tenants := x\<rparr>)"
    and "\<And>s x. I s \<Longrightarrow> I (s\<lparr>runs := x\<rparr>)"
  shows "preserves I (create_run t u rc)"
  unfolding create_run_def register_context_def put_run_def
  by (intro frame_rules preserves_modify run_meter_frame audit_frame event) (simp_all add: assms)

end

section \<open>Records of a run\<close>

locale record_frame = frame +
  assumes artifact: "I s \<Longrightarrow> I (s\<lparr>artifacts := ars\<rparr>)"
    and approval: "I s \<Longrightarrow> I (s\<lparr>approval_requests := aps\<rparr>)"
    and capture: "I s \<Longrightarrow> I (s\<lparr>secret_capture_requests := scs\<rparr>)"
    and runtime: "I s \<Longrightarrow> I (s\<lparr>runtime_states := rts\<rparr>)"
    and idempotency: "I s \<Longrightarrow> I (s\<lparr>idempotency_records := irs\<rparr>)"
    and license: "I s \<Longrightarrow> I (s\<lparr>license_validations := lvs\<rparr>)"
begin

lemma set_approval_frame: "preserves I (set_approval rid i a)"
  unfolding set_approval_def by (intro preserves_modify) (simp add: approval)

lemma cancel_approvals_frame: "preserves I (cancel_approvals_from t rid r user n as)"
  by (rule preserves_cancel_approvals_from) (intro utc_now_frame set_approval_frame audit_frame event)+

lemma complete_approval_frame: "preserves I (complete_approval_request t i a st u ty)"
  unfolding complete_approval_request_def
  by (intro frame_rules set_approval_frame event audit_frame)

lemma record_op_frame: "record_op m \<Longrightarrow> preserves I m"
  by (erule record_op.cases; hypsubst; (unfold create_artifact_def create_approval_request_def
      resolve_approval_request_def reject_approval_request_def
      cancel_pending_approval_requests_def update_approval_execution_def
      create_secret_capture_request_def resolve_secret_capture_request_def
      save_runtime_state_def from_runtime_state_def put_idempotency_record_def
      reserve_idempotency_record_def reclaim_stale_idempotency_record_def
      delete_idempotency_record_def save_idempotency_record_def save_license_validation_def)?;
      intro frame_rules complete_approval_frame cancel_approvals_frame set_approval_frame event
        preserves_modify;
      simp add: artifact approval capture runtime idempotency license)

end

section \<open>Workflows\<close>

locale workflow_frame = frame +
  assumes workflow: "I s \<Longrightarrow> I (s\<lparr>workflows := wfs\<rparr>)"
    and tasks: "I s \<Longrightarrow> I (s\<lparr>workflow_tasks := wts\<rparr>)"
begin

lemma workflow_op_frame: "workflow_op m \<Longrightarrow> preserves I m"
  by (erule workflow_op.cases; hypsubst; (unfold create_workflow_def add_workflow_task_def
      update_workflow_def update_workflow_task_def)?;
      intro frame_rules preserves_modify; simp add: workflow tasks)

end

section \<open>Cycles, actions, checkpoints\<close>

locale action_frame = frame +
  assumes cycle: "I s \<Longrightarrow> I (s\<lparr>agent_cycles := cys\<rparr>)"
    and action: "I s \<Longrightarrow> I (s\<lparr>agent_actions := acs\<rparr>)"
    and checkpoint: "I s \<Longrightarrow> I (s\<lparr>agent_checkpoints := cps\<rparr>)"
begin

lemma put_action_frame: "preserves I (put_action i a)"
  unfolding put_action_def by (intro preserves_modify) (simp add: action)

lemma append_checkpoint_frame: "preserves I (append_checkpoint cp)"
  unfolding append_checkpoint_def by (intro preserves_modify) (simp add: checkpoint)

lemma lease_time_frame: "preserves I (lease_time v)"
  unfolding lease_time_def by (auto intro!: frame_rules split: option.split py_datetime.split)

lemma action_op_frame: "action_op m \<Longrightarrow> preserves I m"
  by (erule action_op.cases; hypsubst; (unfold create_agent_cycle_def complete_agent_cycle_def
      create_agent_action_def list_agent_actions_def resolve_uncertain_agent_action_def
      pause_connector_action_for_reconnect_def retry_connector_action_after_reconnect_def
      lease_expiration_def claim_agent_action_def renew_agent_action_lease_def
      cancel_agent_action_def recover_expired_agent_actions_def
      commit_agent_action_observation_def create_agent_checkpoint_def)?;
      intro frame_rules lease_time_frame put_action_frame append_checkpoint_frame event
        preserves_started_at_keys preserves_modify;
      simp add: cycle)

end

section \<open>All of them\<close>

text \<open>Everything but cycles, actions and checkpoints.\<close>

locale calm_frame = tenancy_frame + chat_frame + run_frame + record_frame + workflow_frame
begin

lemma calm_op_frame: "store_op m \<Longrightarrow> \<not> action_op m \<Longrightarrow> preserves I m"
  unfolding store_op_def
  by (elim disjE) (rule tenancy_op_frame log_op_frame chat_op_frame run_op_frame record_op_frame
      workflow_op_frame, assumption | erule (1) notE)+

end

locale store_frame = calm_frame + action_frame
begin

lemma store_op_frame: "store_op m \<Longrightarrow> preserves I m"
  using calm_op_frame action_op_frame by blast

lemma steps_frame: "store_steps s t \<Longrightarrow> I s \<Longrightarrow> I t"
  by (rule store_steps_invariant [OF _ store_op_frame])

lemma reachable_frame:
  "reachable s \<Longrightarrow> (\<And>clk uuids notifier. I (empty_store clk uuids notifier)) \<Longrightarrow> I s"
  by (rule reachable_invariant [OF _ store_op_frame])

end

end
