(* ===== verification/Scenario.thy ===== *)
theory Scenario
  imports StoreOps
begin

text \<open>
  One session of the store, used to apply the conditional theorems at concrete states: tenant
  t1 opens a thread, posts a message, starts a run for it, and the run's first cycle creates
  an action that worker w1 claims, commits and checkpoints. \<open>demo_store k\<close> is the state after
  the first \<open>k\<close> operations. The clock ticks once per reading and the \<open>n\<close>-th uuid is \<open>n\<close>
  letters x.
\<close>

definition run_ops :: "(store, unit) op list \<Rightarrow> store \<Rightarrow> store" where
  "run_ops ms s = foldl (\<lambda>s m. snd (m s)) s ms"

lemma reachable_run_ops:
  "reachable s \<Longrightarrow> list_all store_op ms \<Longrightarrow> reachable (run_ops ms s)"
  unfolding run_ops_def
  by (induction ms arbitrary: s) (auto intro: reach_step)

definition demo_thread :: string where "demo_thread = ''thread_x''"
definition demo_message :: string where "demo_message = ''message_xxx''"
definition demo_run :: string where "demo_run = ''run_xxxxx''"

definition demo_decision :: agent_decision where
  "demo_decision =
     \<lparr>dc_kind = DK_ACTION, dc_rationale_summary = ''look it up'', dc_action_key = Some ''k1'',
      dc_tool_name = Some ''web.search'', dc_skill_id = None, dc_tool_input = [],
      dc_approval_required = False, dc_expected_outcome = None, dc_response_text = None,
      dc_verification_required = False, dc_response_suggestions = [],
      dc_response_options = [], dc_response_questions = []\<rparr>"

definition demo_cycle :: agent_cycle where
  "demo_cycle =
     \<lparr>cy_id = ''c1'', cy_tenant_id = ''t1'', cy_workspace_id = ''w1'', cy_run_id = demo_run,
      cy_iteration = 1, cy_plan_revision = 0, cy_thread_id = Some demo_thread,
      cy_decision = Some demo_decision, cy_verifier_result = None, cy_budget_snapshot = [],
      cy_status = CY_RUNNING, cy_started_at = 0, cy_completed_at = None\<rparr>"

definition demo_action :: agent_action where
  "demo_action =
     \<lparr>ac_id = ''a1'', ac_tenant_id = ''t1'', ac_workspace_id = ''w1'', ac_run_id = demo_run,
      ac_cycle_id = ''c1'', ac_action_key = ''k1'', ac_decision = demo_decision,
      ac_thread_id = Some demo_thread, ac_status = AS_PENDING, ac_observation = None,
      ac_failure_class = None, ac_lease_owner_id = None, ac_lease_expires_at = None,
      ac_lease_generation = 0, ac_usage = [], ac_started_at = None, ac_completed_at = None\<rparr>"

definition demo_observation :: agent_observation where
  "demo_observation =
     \<lparr>ob_action_id = ''a1'', ob_success = True, ob_output = [], ob_error = None,
      ob_safe_error = None, ob_failure_class = None, ob_created_at = 5\<rparr>"

definition demo_ops :: "(store, unit) op list" where
  "demo_ops =
     [void (create_chat_thread ''t1'' ''u1''
        \<lparr>tc_workspace_id = ''w1'', tc_title = ''Hi'', tc_provider_id = None, tc_model_id = None,
         tc_reasoning_effort = None, tc_sandbox_session_id = None\<rparr>),
      void (append_chat_message ''t1'' demo_thread (Some ''u1'')
        \<lparr>mc_role = ROLE_USER, mc_content = ''Hello'', mc_execution_content = None,
         mc_kind = ''message'', mc_dispatch_status = DS_QUEUED, mc_delivery_status = DL_PENDING,
         mc_attachments = [], mc_resource_refs = []\<rparr>),
      void (create_run ''t1'' ''u1''
        \<lparr>rc_workspace_id = ''w1'', rc_agent_id = None, rc_message = ''Hello'', rc_attachments = [],
         rc_mode = MODE_CHAT, rc_thread_id = Some demo_thread,
         rc_trigger_message_id = Some demo_message, rc_provider_id = None, rc_model_id = None,
         rc_reasoning_effort = None, rc_resource_refs = []\<rparr>),
      void (create_agent_cycle demo_cycle),
      void (create_agent_action demo_action),
      void (claim_agent_action ''t1'' ''a1'' ''w1'' 30 (Some (Aware 0))),
      void (commit_agent_action_observation ''t1'' ''a1'' demo_observation ''w1'' 1
        (Some (Aware 5)) [] [] ''sum'' None)]"

definition demo_start :: store where
  "demo_start = empty_store int (\<lambda>n. replicate n CHR ''x'') True"

definition demo_store :: "nat \<Rightarrow> store" where
  "demo_store k = run_ops (take k demo_ops) demo_start"

lemma demo_ops_store_op: "list_all store_op (take k demo_ops)"
proof -
  have "list_all store_op demo_ops"
    unfolding demo_ops_def list.pred_inject by (intro conjI store_ops) simp
  then show ?thesis by (auto simp: list_all_iff dest: in_set_takeD)
qed

lemma demo_store_reachable: "reachable (demo_store k)"
  unfolding demo_store_def demo_start_def
  by (intro reachable_run_ops demo_ops_store_op reach_init)

lemma unique_uuids_replicate: "unique_uuids demo_start"
  by (simp add: unique_uuids_def demo_start_def empty_store_def inj_def)

lemma demo_store_step: "k < length demo_ops \<Longrightarrow> store_steps (demo_store k) (demo_store (Suc k))"
proof -
  assume k: "k < length demo_ops"
  then have "store_op (demo_ops ! k)"
    using demo_ops_store_op [of "Suc k"] by (simp add: take_Suc_conv_app_nth)
  moreover have "demo_store (Suc k) = snd ((demo_ops ! k) (demo_store k))"
    using k by (simp add: demo_store_def run_ops_def take_Suc_conv_app_nth)
  ultimately show ?thesis using steps_refl steps_step by metis
qed

lemma demo_store_steps: "j \<le> k \<Longrightarrow> k \<le> length demo_ops \<Longrightarrow> store_steps (demo_store j) (demo_store k)"
proof (induction k)
  case 0
  then show ?case by (simp add: steps_refl)
next
  case (Suc k)
  then show ?case
    by (cases "j = Suc k")
      (auto simp: steps_refl intro: store_steps_trans [OF demo_store_step])
qed

lemma length_demo_ops [simp]: "length demo_ops = 7"
  by (simp add: demo_ops_def)

text \<open>No operation touches the source of identifiers.\<close>

interpretation uuids: frame "unique_uuids"
  by unfold_locales (auto intro!: preserves_append_run_event_free simp: unique_uuids_def)

interpretation uuids: store_frame "unique_uuids"
  by unfold_locales
    (auto intro!: preserves_ensure_context_free preserves_chat_creation_free
      uuids.preserves_create_run simp: unique_uuids_def)

lemma unique_uuids_demo: "unique_uuids (demo_store k)"
proof (cases "k \<le> length demo_ops")
  case True
  have "unique_uuids (demo_store 0)"
    by (simp add: unique_uuids_replicate demo_store_def run_ops_def)
  with True show ?thesis
    using uuids.steps_frame [OF demo_store_steps [of 0 k]] by simp
next
  case False
  then have "demo_store k = demo_store (length demo_ops)"
    by (simp add: demo_store_def)
  moreover have "unique_uuids (demo_store 0)"
    by (simp add: unique_uuids_replicate demo_store_def run_ops_def)
  ultimately show ?thesis
    using uuids.steps_frame [OF demo_store_steps [of 0 "length demo_ops"]] by simp
qed

text \<open>
  The facts about the state after the run was created that the witnesses use, evaluated once:
  the run and its thread are there, their logs hold four events, the workspace and the user
  belong to the tenant, and the message is still queued.
\<close>

definition demo_view ::
  "store \<Rightarrow> (run_status \<times> nat) option \<times> nat option \<times> string option \<times> string option
    \<times> (string \<times> string \<times> dispatch_status) option" where
  "demo_view s =
     (case get_run ''t1'' demo_run s of
        (Inr r, _) \<Rightarrow> Some (r_status r, length (dict_get_list (run_events s) demo_run))
      | (Inl _, _) \<Rightarrow> None,
      case get_chat_thread ''t1'' demo_thread s of
        (Inr th, _) \<Rightarrow> Some (length (thread_events_of ''t1'' demo_thread s))
      | (Inl _, _) \<Rightarrow> None,
      dict_get (workspace_tenants s) ''w1'', dict_get (user_tenants s) ''u1'',
      map_option (\<lambda>m. (m_thread_id m, m_workspace_id m, m_dispatch_status m))
        (dict_get (chat_messages s) demo_message))"

lemma demo_facts:
  "demo_view (demo_store 3) =
     (Some (RS_CREATED, 4), Some 4, Some ''t1'', Some ''t1'',
      Some (''thread_x'', ''w1'', DS_QUEUED))"
  by code_simp

text \<open>The action of the session along all its states: absent, pending, claimed, committed.\<close>

fun view_trace :: "(store \<Rightarrow> 'v) \<Rightarrow> (store, unit) op list \<Rightarrow> store \<Rightarrow> 'v list" where
  "view_trace v [] s = [v s]"
| "view_trace v (m # ms) s = v s # view_trace v ms (snd (m s))"

lemma view_trace_nth:
  "k \<le> length ms \<Longrightarrow> view_trace v ms s ! k = v (run_ops (take k ms) s)"
  unfolding run_ops_def
  by (induction ms arbitrary: s k) (auto simp: nth_Cons split: nat.split)

definition lease_view :: "store \<Rightarrow> (action_status \<times> int \<times> string option \<times> nat) option" where
  "lease_view s = map_option (\<lambda>a. (ac_status a, ac_lease_generation a, ac_lease_owner_id a,
     length (dict_get_list (agent_checkpoints s) demo_run))) (dict_get (agent_actions s) ''a1'')"

lemma demo_lease_trace:
  "view_trace lease_view demo_ops demo_start =
     [None, None, None, None, None, Some (AS_PENDING, 0, None, 0),
      Some (AS_RUNNING, 1, Some ''w1'', 0), Some (AS_SUCCEEDED, 1, None, 1)]"
  by code_simp

lemma demo_lease:
  "lease_view (demo_store 5) = Some (AS_PENDING, 0, None, 0)"
  "lease_view (demo_store 6) = Some (AS_RUNNING, 1, Some ''w1'', 0)"
  "lease_view (demo_store 7) = Some (AS_SUCCEEDED, 1, None, 1)"
  using demo_lease_trace view_trace_nth [of 5 demo_ops lease_view demo_start]
    view_trace_nth [of 6 demo_ops lease_view demo_start]
    view_trace_nth [of 7 demo_ops lease_view demo_start]
  by (simp_all add: demo_store_def)

lemma demo_store_6: "demo_store 6
    = snd (void (claim_agent_action ''t1'' ''a1'' ''w1'' 30 (Some (Aware 0))) (demo_store 5))"
  and demo_store_7: "demo_store 7
    = snd (void (commit_agent_action_observation ''t1'' ''a1'' demo_observation ''w1'' 1
        (Some (Aware 5)) [] [] ''sum'' None) (demo_store 6))"
  by (simp_all add: demo_store_def run_ops_def demo_ops_def)

end
