(* ===== verification/EventLog.thy ===== *)
theory EventLog
  imports Scenario "HOL-Library.Multiset"
begin

text \<open>
  The event log of \<^verbatim>\<open>store.py\<close> (\<open>_append_run_event\<close>, \<open>list_run_events\<close>, \<open>list_thread_events\<close>):
  in every reachable state the events of a run are numbered 1, 2, 3, ... in append order, and
  the events of a thread (over all its runs) carry each number from 1 to their count exactly
  once. So a follower that asks for the events after the last number it saw gets each later
  event exactly once, in order.
\<close>

section \<open>One append\<close>

definition new_event :: "run \<Rightarrow> string \<Rightarrow> json_obj \<Rightarrow> store \<Rightarrow> run_event" where
  "new_event r event_type payload s =
     \<lparr>ev_id = ''event'' @ ''_'' @ uuid4_hex s (tick s),
      ev_sequence = int (length (dict_get_list (run_events s) (r_id r))) + 1,
      ev_tenant_id = r_tenant_id r, ev_workspace_id = r_workspace_id r, ev_run_id = r_id r,
      ev_type = event_type, ev_payload = payload, ev_created_at = clock s (Suc (tick s)),
      ev_thread_id = r_thread_id r, ev_thread_sequence = next_thread_sequence r s\<rparr>"

lemma next_thread_sequence_tick [simp]:
  "next_thread_sequence r (s\<lparr>tick := n\<rparr>) = next_thread_sequence r s"
  by (simp add: next_thread_sequence_def thread_events_of_def all_events_def cong: option.case_cong)

lemma append_run_event_eval:
  "append_run_event r ty pl s =
     (Inr (new_event r ty pl s),
      s\<lparr>tick := Suc (Suc (tick s)),
        run_events := dict_append (r_id r) (new_event r ty pl s) (run_events s),
        notified := notified s @ (case r_thread_id r of
            None \<Rightarrow> [] | Some th \<Rightarrow> if event_notifier s then [th] else [])\<rparr>)"
  by (auto simp: append_run_event_def notify_thread_event_def new_event_def op_simps new_id_def
      utc_now_def Let_def split: option.splits)

section \<open>The invariant\<close>

definition run_log_ok :: "(string, run_event list) dict \<Rightarrow> bool" where
  "run_log_ok d \<longleftrightarrow> dict_ok d \<and>
     (\<forall>k es. dict_get d k = Some es \<longrightarrow> numbered ev_sequence es \<and>
        (\<forall>e \<in> set es. ev_run_id e = k \<and> (ev_thread_sequence e = None \<longleftrightarrow> ev_thread_id e = None)))"

definition log_thread_events :: "string \<Rightarrow> string \<Rightarrow> (string, run_event list) dict \<Rightarrow> run_event list" where
  "log_thread_events tenant thread d =
     filter (\<lambda>e. ev_tenant_id e = tenant \<and> ev_thread_id e = Some thread) (concat (dict_values d))"

definition thread_log_ok :: "(string, run_event list) dict \<Rightarrow> bool" where
  "thread_log_ok d \<longleftrightarrow>
     (\<forall>tenant thread.
        image_mset thread_sequence_or_0 (mset (log_thread_events tenant thread d))
        = mset (map int [1..<Suc (length (log_thread_events tenant thread d))]))"

definition event_log_ok :: "(string, run_event list) dict \<Rightarrow> bool" where
  "event_log_ok d \<longleftrightarrow> run_log_ok d \<and> thread_log_ok d"

lemma thread_events_of_log: "thread_events_of t th s = log_thread_events t th (run_events s)"
  by (simp add: thread_events_of_def log_thread_events_def all_events_def)

lemma mset_dict_append:
  "mset (concat (dict_values (dict_append k x d))) = add_mset x (mset (concat (dict_values d)))"
proof -
  have "mset (concat (dict_values (dict_set k (dict_get_list d k @ [x]) d)))
      = add_mset x (mset (concat (dict_values d)))"
  proof (induction d)
    case Nil
    show ?case by (simp add: dict_values_def dict_get_list_def)
  next
    case (Cons a d)
    then show ?case
      by (cases a) (auto simp: dict_values_def dict_get_list_def)
  qed
  then show ?thesis by (simp add: dict_append_def)
qed

lemma mset_log_thread_events_append:
  "mset (log_thread_events t th (dict_append k e d)) =
     (if ev_tenant_id e = t \<and> ev_thread_id e = Some th then {#e#} else {#})
     + mset (log_thread_events t th d)"
  by (simp add: log_thread_events_def mset_filter mset_dict_append del: mset_filter [symmetric])

lemma length_log_thread_events_append:
  "length (log_thread_events t th (dict_append k e d)) =
     (if ev_tenant_id e = t \<and> ev_thread_id e = Some th then 1 else 0)
     + length (log_thread_events t th d)"
  using arg_cong [OF mset_log_thread_events_append [of t th k e d], of size] by simp

lemma max_default_mset:
  assumes "image_mset f (mset xs) = mset (map int [1..<Suc (length xs)])"
  shows "max_default (map f xs) 0 = int (length xs)"
proof (cases "xs = []")
  case True
  then show ?thesis by simp
next
  case False
  have "mset (map f xs) = mset (map int [1..<Suc (length xs)])" using assms by simp
  then have "set (map f xs) = set (map int [1..<Suc (length xs)])" by (rule mset_eq_setD)
  then have "set (map f xs) = int ` {1..length xs}"
    by (simp only: set_map set_upt atLeastLessThanSuc_atLeastAtMost)
  moreover have "Max (int ` {1..length xs}) = int (length xs)"
    using False by (intro Max_eqI) (auto intro!: imageI simp: Suc_le_eq)
  ultimately show ?thesis using False by (simp add: max_default_Max)
qed

lemma mset_1_upto_Suc:
  "mset (map int [1..<Suc (Suc n)]) = mset (map int [1..<Suc n]) + {#int n + 1#}"
  by (simp add: add.commute)

lemma event_log_ok_append:
  assumes ok: "event_log_ok d" and seq: "ev_sequence e = int (length (dict_get_list d k)) + 1"
    and run: "ev_run_id e = k"
    and thread: "case ev_thread_id e of
        None \<Rightarrow> ev_thread_sequence e = None
      | Some th \<Rightarrow> ev_thread_sequence e =
          Some (max_default (map thread_sequence_or_0 (log_thread_events (ev_tenant_id e) th d)) 0 + 1)"
  shows "event_log_ok (dict_append k e d)"
proof -
  have ts: "ev_thread_sequence e = None \<longleftrightarrow> ev_thread_id e = None"
    using thread by (auto split: option.splits)
  have "run_log_ok (dict_append k e d)"
    unfolding run_log_ok_def
  proof (intro conjI allI impI)
    show "dict_ok (dict_append k e d)" using ok by (simp add: event_log_ok_def run_log_ok_def)
  next
    fix k' es assume es: "dict_get (dict_append k e d) k' = Some es"
    show "numbered ev_sequence es"
      using ok es seq
      by (cases "dict_get d k")
        (auto simp: event_log_ok_def run_log_ok_def dict_append_def dict_get_list_def
          numbered_single split: if_splits)
    show "\<forall>e\<in>set es. ev_run_id e = k' \<and> (ev_thread_sequence e = None \<longleftrightarrow> ev_thread_id e = None)"
      using ok es run ts
      by (cases "dict_get d k")
        (auto simp: event_log_ok_def run_log_ok_def dict_append_def dict_get_list_def
          split: if_splits)
  qed
  moreover have "thread_log_ok (dict_append k e d)"
    unfolding thread_log_ok_def
  proof (intro allI)
    fix t th
    have old: "image_mset thread_sequence_or_0 (mset (log_thread_events t th d))
        = mset (map int [1..<Suc (length (log_thread_events t th d))])"
      using ok by (simp add: event_log_ok_def thread_log_ok_def)
    show "image_mset thread_sequence_or_0 (mset (log_thread_events t th (dict_append k e d)))
        = mset (map int [1..<Suc (length (log_thread_events t th (dict_append k e d)))])"
    proof (cases "ev_tenant_id e = t \<and> ev_thread_id e = Some th")
      case True
      then have "thread_sequence_or_0 e = int (length (log_thread_events t th d)) + 1"
        using max_default_mset [OF old] thread by (auto simp: thread_sequence_or_0_def)
      moreover have "mset (log_thread_events t th (dict_append k e d))
          = {#e#} + mset (log_thread_events t th d)"
        unfolding mset_log_thread_events_append using True by simp
      moreover have "length (log_thread_events t th (dict_append k e d))
          = Suc (length (log_thread_events t th d))"
        unfolding length_log_thread_events_append using True by simp
      ultimately show ?thesis
        by (simp only: image_mset_union image_mset_single old mset_1_upto_Suc add.commute)
    next
      case False
      then have "mset (log_thread_events t th (dict_append k e d)) = mset (log_thread_events t th d)"
        unfolding mset_log_thread_events_append by simp
      moreover from this have "length (log_thread_events t th (dict_append k e d))
          = length (log_thread_events t th d)"
        by (rule mset_eq_length)
      ultimately show ?thesis by (simp only: old)
    qed
  qed
  ultimately show ?thesis by (simp add: event_log_ok_def)
qed

lemma preserves_append_run_event:
  "preserves (\<lambda>s. event_log_ok (run_events s)) (append_run_event r ty pl)"
  by (rule preservesI)
    (auto simp: append_run_event_eval new_event_def next_thread_sequence_def thread_events_of_log
      intro!: event_log_ok_append split: option.splits)

section \<open>Every operation keeps it\<close>

interpretation event_log: frame "\<lambda>s. event_log_ok (run_events s)"
  by unfold_locales (simp_all add: preserves_append_run_event)

interpretation event_log: store_frame "\<lambda>s. event_log_ok (run_events s)"
  by unfold_locales
    (simp_all add: preserves_ensure_context_free preserves_chat_creation_free
      event_log.preserves_create_run)

lemma event_log_ok_empty: "event_log_ok []"
  by (simp add: event_log_ok_def run_log_ok_def thread_log_ok_def log_thread_events_def
      dict_values_def)

lemma reachable_event_log_ok: "reachable s \<Longrightarrow> event_log_ok (run_events s)"
  by (erule event_log.reachable_frame) (simp add: empty_store_def event_log_ok_empty)

section \<open>What a follower reads\<close>

text \<open>The cursor \<open>after_sequence\<close>: absent means from the start.\<close>

definition cursor :: "int option \<Rightarrow> int" where
  "cursor after = (case after of None \<Rightarrow> 0 | Some n \<Rightarrow> n)"

lemma numbered_filter:
  assumes "numbered f xs" and "0 \<le> n"
  shows "map f (filter (\<lambda>x. n < f x) xs) = [n + 1..int (length xs)]"
  using assms(1)
proof (induction xs rule: rev_induct)
  case Nil
  with assms(2) show ?case by simp
next
  case (snoc x xs)
  then have "f x = int (length xs) + 1" and "map f (filter (\<lambda>x. n < f x) xs) = [n + 1..int (length xs)]"
    by simp_all
  then show ?case
    using upto_rec2 [of "n + 1" "int (length xs) + 1"] by (auto simp: algebra_simps)
qed

lemma filter_cursor_run:
  assumes "numbered ev_sequence es" and "0 \<le> cursor after"
  shows "map ev_sequence (filter (\<lambda>e. case after of None \<Rightarrow> True | Some n \<Rightarrow> n < ev_sequence e) es)
    = [cursor after + 1..int (length es)]"
proof -
  have "filter (\<lambda>e. case after of None \<Rightarrow> True | Some n \<Rightarrow> n < ev_sequence e) es
      = filter (\<lambda>e. cursor after < ev_sequence e) es"
  proof (cases after)
    case None
    have "\<forall>e \<in> set es. 0 < ev_sequence e"
      using assms(1) by (auto simp: in_set_conv_nth numbered_nth)
    then show ?thesis by (simp add: None cursor_def filter_id_conv)
  qed (simp add: cursor_def)
  with assms show ?thesis by (simp add: numbered_filter)
qed

lemma run_log_numbered:
  "event_log_ok d \<Longrightarrow> numbered ev_sequence (dict_get_list d k)"
  by (cases "dict_get d k") (auto simp: event_log_ok_def run_log_ok_def dict_get_list_def)

lemma map_int_1_upto: "map int [1..<Suc k] = [1..int k]"
proof (induction k)
  case (Suc k)
  then show ?case using upto_rec2 [of 1 "int (Suc k)"] by simp
qed simp

lemma sorted_mset_upto:
  fixes xs :: "int list"
  assumes "sorted xs" and "mset xs = mset (map int [1..<Suc k])"
  shows "xs = [1..int k]"
proof -
  from assms show ?thesis by (metis map_int_1_upto properties_for_sort sorted_upto)
qed

lemma thread_log_sequences:
  assumes ok: "event_log_ok d" and mem: "e \<in> set (log_thread_events t th d)"
  shows "ev_thread_sequence e = Some (thread_sequence_or_0 e)" and "1 \<le> thread_sequence_or_0 e"
proof -
  from mem obtain k es where "(k, es) \<in> set d" and e: "e \<in> set es" "ev_thread_id e = Some th"
    by (auto simp: log_thread_events_def dict_values_def)
  with ok have "dict_get d k = Some es" by (simp add: event_log_ok_def run_log_ok_def dict_ok_def)
  with ok e have "ev_thread_sequence e \<noteq> None" by (auto simp: event_log_ok_def run_log_ok_def)
  then show "ev_thread_sequence e = Some (thread_sequence_or_0 e)"
    by (auto simp: thread_sequence_or_0_def)
  have "mset (map thread_sequence_or_0 (log_thread_events t th d))
      = mset (map int [1..<Suc (length (log_thread_events t th d))])"
    using ok by (simp only: event_log_ok_def thread_log_ok_def mset_map)
  then have "thread_sequence_or_0 e \<in> set (map int [1..<Suc (length (log_thread_events t th d))])"
    using mem by (metis image_eqI list.set_map mset_eq_setD)
  then show "1 \<le> thread_sequence_or_0 e" by auto
qed

lemma sorted_fst_of_sorted: "sorted (map (\<lambda>e. (f e, g e)) xs) \<Longrightarrow> sorted (map f xs)"
  for f :: "'a \<Rightarrow> 'b::linorder" and g :: "'a \<Rightarrow> 'c::linorder"
  by (induction xs) (auto simp: less_eq_prod_def)

lemma filter_cursor_thread:
  assumes ok: "event_log_ok d" and c: "0 \<le> cursor after"
  shows "map thread_sequence_or_0 (sort_key (\<lambda>e. (thread_sequence_or_0 e, ev_id e))
      (filter (\<lambda>e. case ev_thread_sequence e of
            None \<Rightarrow> False
          | Some q \<Rightarrow> (case after of None \<Rightarrow> True | Some n \<Rightarrow> n < q)) (log_thread_events t th d)))
    = [cursor after + 1..int (length (log_thread_events t th d))]" (is "map _ (sort_key ?k (filter ?p ?es)) = _")
proof -
  let ?n = "cursor after"
  have p: "?p e \<longleftrightarrow> ?n < thread_sequence_or_0 e" if "e \<in> set ?es" for e
    using thread_log_sequences [OF ok that] by (cases after) (auto simp: cursor_def)
  then have f: "filter ?p ?es = filter (\<lambda>e. ?n < thread_sequence_or_0 e) ?es"
    by (auto intro!: filter_cong)
  let ?all = "sort_key ?k ?es"
  have "sorted (map thread_sequence_or_0 ?all)"
    by (rule sorted_fst_of_sorted [of _ ev_id]) (simp add: sorted_sort_key)
  moreover have "mset (map thread_sequence_or_0 ?all) = mset (map int [1..<Suc (length ?es)])"
    using ok by (simp only: event_log_ok_def thread_log_ok_def mset_map mset_sort)
  ultimately have all: "map thread_sequence_or_0 ?all = [1..int (length ?es)]"
    by (rule sorted_mset_upto)
  then have "numbered thread_sequence_or_0 ?all"
    by (metis length_map length_sort map_int_1_upto numbered_def)
  then have "map thread_sequence_or_0 (filter (\<lambda>e. ?n < thread_sequence_or_0 e) ?all)
      = [?n + 1..int (length ?es)]"
    using numbered_filter [OF _ c] by fastforce
  then show ?thesis by (simp only: f filter_sort)
qed

text \<open>
  C1: In every reachable state the events of a run are numbered 1, 2, ..., k without gap or
  repetition, and a reader who passes the last number it has seen as \<open>after_sequence\<close> gets
  exactly the events of that run with the numbers after it, in order.
\<close>

theorem run_events_after_cursor:
  assumes "reachable s" and "get_run tenant_id run_id s = (Inr r, s')" and "0 \<le> cursor after"
  shows "\<exists>es. list_run_events tenant_id run_id after s = (Inr es, s)
    \<and> map ev_sequence es
        = [cursor after + 1..int (length (dict_get_list (run_events s) run_id))]
    \<and> set es \<subseteq> set (dict_get_list (run_events s) run_id)"
proof -
  let ?es = "filter (\<lambda>e. case after of None \<Rightarrow> True | Some n \<Rightarrow> n < ev_sequence e)
    (dict_get_list (run_events s) run_id)"
  have "map ev_sequence ?es = [cursor after + 1..int (length (dict_get_list (run_events s) run_id))]"
    by (rule filter_cursor_run [OF run_log_numbered [OF reachable_event_log_ok [OF assms(1)]] assms(3)])
  moreover have "list_run_events tenant_id run_id after s = (Inr ?es, s)"
    using assms(2) by (auto simp: list_run_events_def op_simps dest: readonlyD [OF readonly_get_run])
  ultimately show ?thesis by auto
qed

theorem run_events_after_cursor_witness:
  "\<exists>es. list_run_events ''t1'' demo_run (Some 2) (demo_store 3) = (Inr es, demo_store 3)
    \<and> map ev_sequence es = [3, 4]"
proof -
  obtain r s' where "get_run ''t1'' demo_run (demo_store 3) = (Inr r, s')"
    and "length (dict_get_list (run_events (demo_store 3)) demo_run) = 4"
    using demo_facts by (auto simp: demo_view_def split: prod.splits sum.splits)
  with run_events_after_cursor [OF demo_store_reachable, of "''t1''" demo_run 3 r s' "Some 2"]
  show ?thesis by (auto simp: cursor_def upto.simps)
qed

text \<open>
  C2: In every reachable state the events of a chat thread, over all of its runs, carry each
  thread number from 1 to their count exactly once; \<open>list_thread_events\<close> after the number n
  returns exactly the events n+1, ..., k of the thread, in order.
\<close>

theorem thread_events_after_cursor:
  assumes "reachable s" and "get_chat_thread tenant_id thread_id s = (Inr th, s')"
    and "0 \<le> cursor after"
  shows "\<exists>es. list_thread_events tenant_id thread_id after s = (Inr es, s)
    \<and> map ev_thread_sequence es
        = map Some [cursor after + 1..int (length (thread_events_of tenant_id thread_id s))]
    \<and> set es \<subseteq> set (thread_events_of tenant_id thread_id s)"
proof -
  note ok = reachable_event_log_ok [OF assms(1)]
  let ?log = "log_thread_events tenant_id thread_id (run_events s)"
  let ?es = "sort_key (\<lambda>e. (thread_sequence_or_0 e, ev_id e))
    (filter (\<lambda>e. case ev_thread_sequence e of None \<Rightarrow> False
       | Some q \<Rightarrow> (case after of None \<Rightarrow> True | Some n \<Rightarrow> n < q)) ?log)"
  have "map thread_sequence_or_0 ?es = [cursor after + 1..int (length ?log)]"
    by (rule filter_cursor_thread [OF ok assms(3)])
  moreover have "map ev_thread_sequence ?es = map Some (map thread_sequence_or_0 ?es)"
    by (auto intro: thread_log_sequences(1) [OF ok])
  moreover have "list_thread_events tenant_id thread_id after s = (Inr ?es, s)"
    using assms(2) by (auto simp: list_thread_events_def op_simps thread_events_of_log
      dest: readonlyD [OF readonly_get_chat_thread])
  ultimately show ?thesis by (auto simp: thread_events_of_log)
qed

theorem thread_events_after_cursor_witness:
  "\<exists>es. list_thread_events ''t1'' demo_thread None (demo_store 3) = (Inr es, demo_store 3)
    \<and> map ev_thread_sequence es = map Some [1, 2, 3, 4]"
proof -
  obtain th s' where "get_chat_thread ''t1'' demo_thread (demo_store 3) = (Inr th, s')"
    and "length (thread_events_of ''t1'' demo_thread (demo_store 3)) = 4"
    using demo_facts by (auto simp: demo_view_def split: prod.splits sum.splits)
  with thread_events_after_cursor
    [OF demo_store_reachable, of "''t1''" demo_thread 3 th s' None]
  show ?thesis by (auto simp: cursor_def upto.simps)
qed

end
