(* ===== verification/Ownership.thy ===== *)
theory Ownership
  imports Scenario
begin

text \<open>
  Who owns what: a workspace or user, once it belongs to a tenant, belongs to it for ever, and
  every run, thread and message lies in a workspace of its own tenant
  (\<open>_validate_context_ownership\<close>, \<open>_register_context\<close>, \<open>create_run\<close>, \<open>create_chat_thread\<close>,
  \<open>append_chat_message\<close> of \<^verbatim>\<open>store.py\<close>).
\<close>

section \<open>Registration\<close>

definition may_use :: "store \<Rightarrow> string \<Rightarrow> string \<Rightarrow> string \<Rightarrow> bool" where
  "may_use s t w u \<longleftrightarrow> dict_get (workspace_tenants s) w \<in> {None, Some t}
     \<and> dict_get (user_tenants s) u \<in> {None, Some t}"

abbreviation registered :: "string \<Rightarrow> string \<Rightarrow> string \<Rightarrow> store \<Rightarrow> store" where
  "registered t w u s \<equiv> s\<lparr>workspace_tenants := dict_set w t (workspace_tenants s),
     user_tenants := dict_set u t (user_tenants s)\<rparr>"

lemma validate_context_Inr:
  "validate_context_ownership t w u s = (Inr x, s') \<longleftrightarrow> may_use s t w u \<and> s' = s"
  by (auto simp: validate_context_ownership_def op_simps may_use_def split: if_splits)

lemma ensure_context_snd:
  "snd (ensure_context t w u s) = (if may_use s t w u then registered t w u s else s)"
  by (auto simp: ensure_context_def validate_context_ownership_def register_context_def op_simps
      may_use_def)

lemma ensure_context_Inr:
  "ensure_context t w u s = (Inr x, s') \<longleftrightarrow> may_use s t w u \<and> s' = registered t w u s"
  by (auto simp: ensure_context_def Inr_iffs validate_context_Inr register_context_def)

lemma preserves_ensure_context:
  assumes "\<And>s. I s \<Longrightarrow> may_use s t w u \<Longrightarrow> I (registered t w u s)"
  shows "preserves I (ensure_context t w u)"
  using assms by (simp add: preserves_def ensure_context_snd)

section \<open>What \<open>create_run\<close> does first\<close>

definition thread_matches :: "store \<Rightarrow> run_create \<Rightarrow> string \<Rightarrow> bool" where
  "thread_matches s rc t \<longleftrightarrow>
     (\<forall>i. rc_thread_id rc = Some i \<longrightarrow>
        (\<exists>th. dict_get (chat_threads s) i = Some th \<and> th_tenant_id th = t
          \<and> th_workspace_id th = rc_workspace_id rc))"

lemma get_chat_thread_Inr:
  "get_chat_thread t i s = (Inr th, s') \<longleftrightarrow>
     s' = s \<and> dict_get (chat_threads s) i = Some th \<and> th_tenant_id th = t"
  by (auto simp: get_chat_thread_def op_simps split: option.splits if_splits)

lemma get_chat_message_Inr:
  "get_chat_message t i s = (Inr m, s') \<longleftrightarrow>
     s' = s \<and> dict_get (chat_messages s) i = Some m \<and> m_tenant_id m = t"
  by (auto simp: get_chat_message_def op_simps split: option.splits if_splits)

lemma get_run_Inr:
  "get_run t i s = (Inr r, s') \<longleftrightarrow> s' = s \<and> dict_get (runs s) i = Some r \<and> r_tenant_id r = t"
  by (auto simp: get_run_def op_simps split: option.splits if_splits)

lemma check_run_payload_Inr:
  assumes "check_run_payload t u rc s = (Inr x, s')"
  shows "s' = s" and "may_use s t (rc_workspace_id rc) u" and "thread_matches s rc t"
proof -
  from assms show "s' = s" "may_use s t (rc_workspace_id rc) u" "thread_matches s rc t"
    unfolding check_run_payload_def
    by (cases "rc_thread_id rc"; cases "rc_trigger_message_id rc";
        auto simp: Inr_iffs validate_context_Inr get_chat_thread_Inr get_chat_message_Inr
          thread_matches_def)+
qed

definition new_run :: "string \<Rightarrow> string \<Rightarrow> run_create \<Rightarrow> store \<Rightarrow> run" where
  "new_run t u rc s =
     \<lparr>r_id = ''run'' @ ''_'' @ uuid4_hex s (Suc (tick s)), r_tenant_id = t,
      r_workspace_id = rc_workspace_id rc, r_user_id = u, r_agent_id = rc_agent_id rc,
      r_message = rc_message rc, r_attachments = rc_attachments rc, r_mode = rc_mode rc,
      r_status = RS_CREATED, r_created_at = clock s (tick s), r_updated_at = clock s (tick s),
      r_thread_id = rc_thread_id rc, r_trigger_message_id = rc_trigger_message_id rc,
      r_provider_id = rc_provider_id rc, r_model_id = rc_model_id rc,
      r_reasoning_effort = rc_reasoning_effort rc, r_resource_refs = rc_resource_refs rc\<rparr>"

definition announce_run :: "run \<Rightarrow> (store, run) op" where
  "announce_run r =
     andThen (append_run_event r ''run.created''
       [(''status'', JStr (run_status_value (r_status r))),
        (''mode'', JStr (run_mode_value (r_mode r))),
        (''agent_id'', opt_str (r_agent_id r))]) (\<lambda>_.
     andThen (record_run_meter r) (\<lambda>_.
     andThen (record_audit_event_internal (r_tenant_id r) (Some (r_workspace_id r))
       (Some (r_user_id r)) (Some (r_id r)) ''run.created''
       [(''mode'', JStr (run_mode_value (r_mode r))), (''agent_id'', opt_str (r_agent_id r))]) (\<lambda>_.
     ret r)))"

abbreviation with_new_run :: "string \<Rightarrow> string \<Rightarrow> run_create \<Rightarrow> store \<Rightarrow> store" where
  "with_new_run t u rc s \<equiv>
     (registered t (rc_workspace_id rc) u s)\<lparr>tick := Suc (Suc (tick s)),
       runs := dict_set (r_id (new_run t u rc s)) (new_run t u rc s) (runs s)\<rparr>"

lemma create_run_snd:
  "snd (create_run t u rc s) =
     (case check_run_payload t u rc s of
        (Inl e, s') \<Rightarrow> s'
      | (Inr x, s') \<Rightarrow> snd (announce_run (new_run t u rc s') (with_new_run t u rc s')))"
  by (auto simp: create_run_def andThen_apply register_context_def modify_apply utc_now_eval
      new_id_eval put_run_def new_run_def announce_run_def Let_def split: prod.splits sum.splits)

lemma check_run_payload_snd: "snd (check_run_payload t u rc s) = s"
  using preserves_lookups(14) [of "\<lambda>x. x = s"] by (auto simp: preserves_def)

lemma create_run_split:
  obtains (refused) "snd (create_run t u rc s) = s"
  | (created) "may_use s t (rc_workspace_id rc) u" and "thread_matches s rc t"
      and "snd (create_run t u rc s) = snd (announce_run (new_run t u rc s) (with_new_run t u rc s))"
proof (cases "check_run_payload t u rc s")
  case (Pair x s')
  have s': "s' = s" using check_run_payload_snd [of t u rc s] Pair by simp
  show thesis
  proof (cases x)
    case (Inl e)
    with Pair s' refused show thesis by (simp add: create_run_snd)
  next
    case (Inr y)
    with Pair s' created check_run_payload_Inr [of t u rc s y s'] show thesis
      by (simp add: create_run_snd)
  qed
qed

context frame begin

lemma announce_run_frame: "preserves I (announce_run r)"
  unfolding announce_run_def by (intro frame_rules run_meter_frame audit_frame event)

lemma preserves_create_run_checked:
  assumes "\<And>s. I s \<Longrightarrow> may_use s t (rc_workspace_id rc) u \<Longrightarrow> thread_matches s rc t \<Longrightarrow>
      I (with_new_run t u rc s)"
  shows "preserves I (create_run t u rc)"
proof (rule preservesI)
  fix s r s' assume I: "I s" and run: "create_run t u rc s = (r, s')"
  show "I s'"
    using create_run_split [of t u rc s] run I assms
    by cases (auto intro: preserves_snd [OF announce_run_frame])
qed

end

section \<open>Owners never change\<close>

interpretation ws_owner: frame "\<lambda>s. dict_get (workspace_tenants s) w = Some tenant"
  for w tenant
  by unfold_locales (simp_all add: preserves_append_run_event_free)

interpretation ws_owner: store_frame "\<lambda>s. dict_get (workspace_tenants s) w = Some tenant"
  for w tenant
  by unfold_locales
    (auto simp: may_use_def intro!: preserves_ensure_context preserves_chat_creation_free
      ws_owner.preserves_create_run_checked)

interpretation user_owner: frame "\<lambda>s. dict_get (user_tenants s) u = Some tenant"
  for u tenant
  by unfold_locales (simp_all add: preserves_append_run_event_free)

interpretation user_owner: store_frame "\<lambda>s. dict_get (user_tenants s) u = Some tenant"
  for u tenant
  by unfold_locales
    (auto simp: may_use_def intro!: preserves_ensure_context preserves_chat_creation_free
      user_owner.preserves_create_run_checked)

section \<open>Everything lies in its own tenant\<close>

definition ws_of :: "store \<Rightarrow> string \<Rightarrow> string \<Rightarrow> bool" where
  "ws_of s w t \<longleftrightarrow> dict_get (workspace_tenants s) w = Some t"

definition user_of :: "store \<Rightarrow> string \<Rightarrow> string \<Rightarrow> bool" where
  "user_of s u t \<longleftrightarrow> dict_get (user_tenants s) u = Some t"

definition thread_scope :: "store \<Rightarrow> string \<Rightarrow> (string \<times> string) option" where
  "thread_scope s i =
     map_option (\<lambda>th. (th_tenant_id th, th_workspace_id th)) (dict_get (chat_threads s) i)"

definition runs_ok :: "store \<Rightarrow> bool" where
  "runs_ok s \<longleftrightarrow> (\<forall>k r. dict_get (runs s) k = Some r \<longrightarrow>
     r_id r = k \<and> ws_of s (r_workspace_id r) (r_tenant_id r) \<and> user_of s (r_user_id r) (r_tenant_id r))"

definition threads_ok :: "store \<Rightarrow> bool" where
  "threads_ok s \<longleftrightarrow> (\<forall>k th. dict_get (chat_threads s) k = Some th \<longrightarrow>
     th_id th = k \<and> ws_of s (th_workspace_id th) (th_tenant_id th) \<and> issued ''thread'' s k)"

definition messages_ok :: "store \<Rightarrow> bool" where
  "messages_ok s \<longleftrightarrow> (\<forall>k m. dict_get (chat_messages s) k = Some m \<longrightarrow>
     m_id m = k \<and> thread_scope s (m_thread_id m) = Some (m_tenant_id m, m_workspace_id m))"

definition run_threads_ok :: "store \<Rightarrow> bool" where
  "run_threads_ok s \<longleftrightarrow> (\<forall>k r i. dict_get (runs s) k = Some r \<longrightarrow> r_thread_id r = Some i \<longrightarrow>
     thread_scope s i = Some (r_tenant_id r, r_workspace_id r))"

lemma ws_of_registered:
  "ws_of s w' t' \<Longrightarrow> may_use s t w u \<Longrightarrow> ws_of (registered t w u s) w' t'"
  by (auto simp: ws_of_def may_use_def)

lemma user_of_registered:
  "user_of s u' t' \<Longrightarrow> may_use s t w u \<Longrightarrow> user_of (registered t w u s) u' t'"
  by (auto simp: user_of_def may_use_def)

lemma ws_of_cong: "workspace_tenants s' = workspace_tenants s \<Longrightarrow> ws_of s' = ws_of s"
  by (simp add: ws_of_def fun_eq_iff)

lemma user_of_cong: "user_tenants s' = user_tenants s \<Longrightarrow> user_of s' = user_of s"
  by (simp add: user_of_def fun_eq_iff)

lemma thread_scope_cong: "chat_threads s' = chat_threads s \<Longrightarrow> thread_scope s' = thread_scope s"
  by (simp add: thread_scope_def fun_eq_iff)

subsection \<open>Runs\<close>

lemmas runs_ok_defs = runs_ok_def ws_of_def user_of_def

lemma runs_ok_registered: "runs_ok s \<Longrightarrow> may_use s t w u \<Longrightarrow> runs_ok (registered t w u s)"
  by (auto simp: runs_ok_def intro: ws_of_registered user_of_registered)

lemma runs_ok_new_run:
  "runs_ok s \<Longrightarrow> may_use s t (rc_workspace_id rc) u \<Longrightarrow> runs_ok (with_new_run t u rc s)"
  using runs_ok_registered [of s t "rc_workspace_id rc" u]
  by (auto simp: runs_ok_def ws_of_def user_of_def new_run_def)

interpretation runs_ok: frame runs_ok
  by unfold_locales
    (auto intro!: preserves_append_run_event_free simp: runs_ok_defs)

interpretation runs_ok: store_frame runs_ok
proof unfold_locales
  have e: "preserves runs_ok (ensure_context t w u)" for t w u
    by (intro preserves_ensure_context runs_ok_registered)
  then show "preserves runs_ok (ensure_context t w u)" for t w u .
  fix t u tc i us mc rc
  show "preserves runs_ok (create_chat_thread t u tc)"
    by (intro preserves_chat_creation_free e; simp add: runs_ok_defs)
  show "preserves runs_ok (append_chat_message t i us mc)"
    by (intro preserves_chat_creation_free e; simp add: runs_ok_defs)
  show "preserves runs_ok (create_run t u rc)"
    by (intro runs_ok.preserves_create_run_checked runs_ok_new_run)
qed (simp_all add: runs_ok_defs)

lemma reachable_runs_ok: "reachable s \<Longrightarrow> runs_ok s"
  by (erule runs_ok.reachable_frame) (simp add: runs_ok_def empty_store_def)

subsection \<open>Threads, messages, and the runs of a thread\<close>

definition new_thread :: "string \<Rightarrow> string \<Rightarrow> chat_thread_create \<Rightarrow> store \<Rightarrow> chat_thread" where
  "new_thread t u tc s =
     \<lparr>th_id = ''thread'' @ ''_'' @ uuid4_hex s (Suc (tick s)), th_tenant_id = t,
      th_workspace_id = tc_workspace_id tc, th_created_by_user_id = u, th_title = tc_title tc,
      th_status = TS_ACTIVE, th_pinned = False, th_provider_id = tc_provider_id tc,
      th_model_id = tc_model_id tc, th_reasoning_effort = tc_reasoning_effort tc,
      th_sandbox_session_id = tc_sandbox_session_id tc,
      th_created_at = clock s (tick s), th_updated_at = clock s (tick s)\<rparr>"

abbreviation with_new_thread :: "string \<Rightarrow> string \<Rightarrow> chat_thread_create \<Rightarrow> store \<Rightarrow> store" where
  "with_new_thread t u tc s \<equiv>
     s\<lparr>tick := Suc (Suc (tick s)),
       chat_threads := dict_set (th_id (new_thread t u tc s)) (new_thread t u tc s) (chat_threads s)\<rparr>"

lemma create_chat_thread_snd:
  "snd (create_chat_thread t u tc s) =
     (if may_use s t (tc_workspace_id tc) u
      then with_new_thread t u tc (registered t (tc_workspace_id tc) u s)
      else s\<lparr>tick := Suc (Suc (tick s))\<rparr>)"
  by (simp add: create_chat_thread_def ensure_context_def validate_context_ownership_def
      register_context_def op_simps utc_now_eval new_id_eval may_use_def new_thread_def Let_def)

definition new_message ::
  "chat_thread \<Rightarrow> string \<Rightarrow> string \<Rightarrow> string option \<Rightarrow> chat_message_create \<Rightarrow> store \<Rightarrow> chat_message" where
  "new_message th t i us mc s =
     \<lparr>m_id = ''message'' @ ''_'' @ uuid4_hex s (Suc (tick s)), m_tenant_id = t,
      m_workspace_id = th_workspace_id th, m_thread_id = i,
      m_sequence = next_message_sequence i s, m_created_by_user_id = us,
      m_role = mc_role mc, m_content = mc_content mc,
      m_execution_content = mc_execution_content mc, m_kind = mc_kind mc,
      m_dispatch_status = mc_dispatch_status mc, m_delivery_status = mc_delivery_status mc,
      m_attachments = mc_attachments mc, m_resource_refs = mc_resource_refs mc,
      m_created_at = clock s (tick s), m_updated_at = clock s (tick s)\<rparr>"

abbreviation with_new_message ::
  "chat_thread \<Rightarrow> string \<Rightarrow> string \<Rightarrow> string option \<Rightarrow> chat_message_create \<Rightarrow> store \<Rightarrow> store" where
  "with_new_message th t i us mc s \<equiv>
     s\<lparr>tick := Suc (Suc (tick s)),
       chat_threads := dict_set i (th\<lparr>th_updated_at := clock s (tick s)\<rparr>) (chat_threads s),
       chat_messages := dict_set (m_id (new_message th t i us mc s)) (new_message th t i us mc s)
         (chat_messages s)\<rparr>"

definition write_message ::
  "chat_thread \<Rightarrow> string \<Rightarrow> string \<Rightarrow> string option \<Rightarrow> chat_message_create \<Rightarrow> (store, chat_message) op" where
  "write_message th t i us mc =
     (\<lambda>s. (Inr (new_message th t i us mc s), with_new_message th t i us mc s))"

lemma append_chat_message_eq:
  "append_chat_message t i us mc =
     andThen (get_chat_thread t i) (\<lambda>th.
     andThen (case us of None \<Rightarrow> ret () | Some u \<Rightarrow> ensure_context t (th_workspace_id th) u) (\<lambda>_.
     write_message th t i us mc))"
  unfolding append_chat_message_def
  by (intro arg_cong [where f = "andThen (get_chat_thread t i)"] ext arg_cong2 [where f = andThen] refl)
    (simp add: op_simps utc_now_eval new_id_eval new_message_def write_message_def
      next_message_sequence_def Let_def)

lemma append_chat_message_split:
  obtains (refused) "snd (append_chat_message t i us mc s) = s"
  | (appended) th s' where "dict_get (chat_threads s) i = Some th" and "th_tenant_id th = t"
      and "s' = s \<or> (\<exists>u. us = Some u \<and> may_use s t (th_workspace_id th) u
                      \<and> s' = registered t (th_workspace_id th) u s)"
      and "snd (append_chat_message t i us mc s) = with_new_message th t i us mc s'"
proof (cases "get_chat_thread t i s")
  case (Pair x s1)
  then have s1: "s1 = s" by (rule readonlyD [OF readonly_get_chat_thread])
  show thesis
  proof (cases x)
    case (Inl e)
    with Pair s1 show thesis by (intro refused) (simp add: append_chat_message_eq andThen_apply)
  next
    case (Inr th)
    with Pair have th: "dict_get (chat_threads s) i = Some th" "th_tenant_id th = t"
      by (simp_all add: get_chat_thread_Inr)
    let ?ctx = "case us of None \<Rightarrow> ret () | Some u \<Rightarrow> ensure_context t (th_workspace_id th) u"
    have eq: "snd (append_chat_message t i us mc s) =
        (case ?ctx s of (Inl e, s') \<Rightarrow> s' | (Inr y, s') \<Rightarrow> with_new_message th t i us mc s')"
      using Pair Inr s1
      by (simp add: append_chat_message_eq andThen_apply write_message_def split: prod.splits sum.splits)
    show thesis
    proof (cases us)
      case None
      with eq th show thesis by (intro appended [of th s]) (simp_all add: ret_apply)
    next
      case (Some u)
      show thesis
      proof (cases "may_use s t (th_workspace_id th) u")
        case True
        then have "ensure_context t (th_workspace_id th) u s
            = (Inr (), registered t (th_workspace_id th) u s)"
          by (simp add: ensure_context_Inr)
        with Some eq th True show thesis
          by (intro appended [of th "registered t (th_workspace_id th) u s"]) simp_all
      next
        case False
        then have "\<exists>e. ensure_context t (th_workspace_id th) u s = (Inl e, s)"
          by (auto simp: ensure_context_def validate_context_ownership_def op_simps may_use_def)
        with Some eq show thesis by (intro refused) auto
      qed
    qed
  qed
qed

text \<open>The invariant needs that generated thread identifiers do not repeat.\<close>

definition chat_ok :: "store \<Rightarrow> bool" where
  "chat_ok s \<longleftrightarrow> (unique_uuids s \<longrightarrow> threads_ok s \<and> messages_ok s \<and> run_threads_ok s)"

lemmas chat_ok_defs = chat_ok_def threads_ok_def messages_ok_def run_threads_ok_def
  unique_uuids_def ws_of_def thread_scope_def

lemma issued_tick: "issued p s x \<Longrightarrow> tick s \<le> n \<Longrightarrow> issued p (s\<lparr>tick := n\<rparr>) x"
  by (rule issued_mono) simp_all

lemma issued_simps [simp]:
  "issued p (s\<lparr>chat_threads := f\<rparr>) x = issued p s x"
  "issued p (s\<lparr>chat_messages := g\<rparr>) x = issued p s x"
  "issued p (s\<lparr>runs := h\<rparr>) x = issued p s x"
  "issued p (registered t w u s) x = issued p s x"
  by (simp_all add: issued_def)

lemma chat_ok_tick: "chat_ok s \<Longrightarrow> tick s \<le> n \<Longrightarrow> chat_ok (s\<lparr>tick := n\<rparr>)"
  by (auto simp: chat_ok_defs intro: issued_tick)

lemma chat_ok_registered: "chat_ok s \<Longrightarrow> may_use s t w u \<Longrightarrow> chat_ok (registered t w u s)"
  by (auto simp: chat_ok_defs may_use_def)

lemma chat_ok_thread_updated:
  assumes "chat_ok s" and "dict_get (chat_threads s) i = Some th" and "thread_key th' = thread_key th"
  shows "chat_ok (s\<lparr>chat_threads := dict_set i th' (chat_threads s)\<rparr>)"
proof -
  have "thread_scope (s\<lparr>chat_threads := dict_set i th' (chat_threads s)\<rparr>) = thread_scope s"
    using assms(2,3) by (auto simp: thread_scope_def thread_key_def)
  moreover have "unique_uuids s \<Longrightarrow> threads_ok (s\<lparr>chat_threads := dict_set i th' (chat_threads s)\<rparr>)"
    using assms by (auto simp: chat_ok_def threads_ok_def ws_of_def thread_key_def)
  ultimately show ?thesis
    using assms(1) by (simp add: chat_ok_def messages_ok_def run_threads_ok_def unique_uuids_def)
qed

lemma chat_ok_new_thread:
  assumes ok: "chat_ok s" and w: "ws_of s (tc_workspace_id tc) t"
  shows "chat_ok (with_new_thread t u tc s)"
    (is "chat_ok ?s'")
proof -
  let ?th = "new_thread t u tc s"
  have "threads_ok ?s' \<and> messages_ok ?s' \<and> run_threads_ok ?s'" if u: "unique_uuids s"
  proof -
    have fresh: "dict_get (chat_threads s) (th_id ?th) = None"
    proof (rule ccontr)
      assume "dict_get (chat_threads s) (th_id ?th) \<noteq> None"
      with ok u have "issued ''thread'' s (th_id ?th)" by (auto simp: chat_ok_def threads_ok_def)
      with u show False by (auto simp: issued_def new_thread_def unique_uuids_def dest: injD)
    qed
    then have scope: "thread_scope ?s' i = thread_scope s i" if "thread_scope s i \<noteq> None" for i
      using that by (auto simp: thread_scope_def)
    have "threads_ok ?s'"
      using ok u w
      by (auto simp: chat_ok_def threads_ok_def ws_of_def issued_tick)
        (auto simp: new_thread_def issued_def)
    then show ?thesis
      using ok u scope by (auto simp: chat_ok_def messages_ok_def run_threads_ok_def)
  qed
  then show ?thesis by (simp add: chat_ok_def unique_uuids_def)
qed

lemma chat_ok_message_set:
  assumes "chat_ok s"
    and "thread_scope s (m_thread_id m) = Some (m_tenant_id m, m_workspace_id m)"
  shows "chat_ok (s\<lparr>chat_messages := dict_set (m_id m) m (chat_messages s)\<rparr>)"
  using assms by (auto simp: chat_ok_defs)

lemma chat_ok_run_set:
  assumes "chat_ok s"
    and "\<And>i. r_thread_id r = Some i \<Longrightarrow> thread_scope s i = Some (r_tenant_id r, r_workspace_id r)"
  shows "chat_ok (s\<lparr>runs := dict_set (r_id r) r (runs s)\<rparr>)"
  using assms by (auto simp: chat_ok_defs)

lemma chat_ok_new_message:
  assumes ok: "chat_ok s" and th: "dict_get (chat_threads s) i = Some th" "th_tenant_id th = t"
  shows "chat_ok (with_new_message th t i us mc s)"
proof -
  let ?s = "s\<lparr>tick := Suc (Suc (tick s)),
    chat_threads := dict_set i (th\<lparr>th_updated_at := clock s (tick s)\<rparr>) (chat_threads s)\<rparr>"
  have "chat_ok (s\<lparr>tick := Suc (Suc (tick s))\<rparr>)" using ok by (rule chat_ok_tick) simp
  then have "chat_ok ?s"
    using chat_ok_thread_updated [of "s\<lparr>tick := Suc (Suc (tick s))\<rparr>" i th
        "th\<lparr>th_updated_at := clock s (tick s)\<rparr>"] th by (simp add: thread_key_def)
  then show ?thesis
    using th chat_ok_message_set [of ?s "new_message th t i us mc s"]
    by (simp add: thread_scope_def new_message_def)
qed

interpretation chat_ok: frame chat_ok
proof unfold_locales
  show "preserves chat_ok (append_run_event r ty pl)" for r ty pl
    by (intro preserves_append_run_event_free chat_ok_tick; simp add: chat_ok_defs issued_def)
qed (simp_all add: chat_ok_tick, simp_all add: chat_ok_defs issued_def)

interpretation chat_ok: store_frame chat_ok
proof unfold_locales
  show "preserves chat_ok (ensure_context t w u)" for t w u
    by (intro preserves_ensure_context chat_ok_registered)
  show "preserves chat_ok (create_chat_thread t u tc)" for t u tc
    unfolding preserves_def create_chat_thread_snd
    by (intro allI impI; split if_split; intro conjI impI;
        (rule chat_ok_new_thread, erule (1) chat_ok_registered, simp add: ws_of_def
         | erule chat_ok_tick, simp))
  show "preserves chat_ok (append_chat_message t i us mc)" for t i us mc
  proof (rule preservesI)
    fix s r s' assume ok: "chat_ok s" and run: "append_chat_message t i us mc s = (r, s')"
    show "chat_ok s'"
      using append_chat_message_split [of t i us mc s]
    proof cases
      case refused
      with ok run show ?thesis by simp
    next
      case (appended th s1)
      from appended(3) ok have "chat_ok s1" by (auto intro: chat_ok_registered)
      moreover have "chat_threads s1 = chat_threads s" using appended(3) by auto
      ultimately show ?thesis
        using chat_ok_new_message [of s1 i th t us mc] appended run by simp
    qed
  qed
  show "preserves chat_ok (create_run t u rc)" for t u rc
  proof (rule chat_ok.preserves_create_run_checked)
    fix s assume ok: "chat_ok s" and use: "may_use s t (rc_workspace_id rc) u"
      and th: "thread_matches s rc t"
    have "chat_ok (registered t (rc_workspace_id rc) u s)" using ok use by (rule chat_ok_registered)
    then have "chat_ok ((registered t (rc_workspace_id rc) u s)\<lparr>tick := Suc (Suc (tick s))\<rparr>)"
      by (rule chat_ok_tick) simp
    then show "chat_ok (with_new_run t u rc s)"
      using th chat_ok_run_set [of "(registered t (rc_workspace_id rc) u s)\<lparr>tick := Suc (Suc (tick s))\<rparr>"
          "new_run t u rc s"]
      by (auto simp: thread_scope_def thread_matches_def new_run_def)
  qed
  show "chat_ok (s\<lparr>chat_messages := dict_set i m' (chat_messages s)\<rparr>)"
    if "chat_ok s" and "dict_get (chat_messages s) i = Some m" and "message_key m' = message_key m"
    for s i m m'
    using that by (auto simp: chat_ok_defs message_key_def)
qed (simp_all add: chat_ok_thread_updated, auto simp: chat_ok_defs issued_def)

lemma reachable_chat_ok: "reachable s \<Longrightarrow> chat_ok s"
  by (erule chat_ok.reachable_frame) (simp add: chat_ok_defs empty_store_def)

section \<open>What follows\<close>

text \<open>
  C3: Ownership is permanent: once a workspace or a user belongs to a tenant, no sequence of
  store operations of any tenant moves it to another tenant or frees it.
\<close>

theorem owners_never_change:
  assumes "store_steps s t"
  shows "(dict_get (workspace_tenants s) w = Some tenant \<longrightarrow>
            dict_get (workspace_tenants t) w = Some tenant)
    \<and> (dict_get (user_tenants s) u = Some tenant \<longrightarrow> dict_get (user_tenants t) u = Some tenant)"
  using ws_owner.steps_frame [OF assms] user_owner.steps_frame [OF assms] by blast

theorem owners_never_change_witness:
  "dict_get (workspace_tenants (demo_store 7)) ''w1'' = Some ''t1''
    \<and> dict_get (user_tenants (demo_store 7)) ''u1'' = Some ''t1''"
  using owners_never_change [OF demo_store_steps [of 3 7], of "''w1''" "''t1''" "''u1''"] demo_facts
  by (simp add: demo_view_def split: prod.splits sum.splits)

text \<open>
  C4: In every reachable state each run is stored under its own id, its workspace and its user
  are registered to the run's tenant, and so two runs that share a workspace or a user belong
  to the same tenant.
\<close>

theorem runs_in_own_tenant:
  assumes "reachable s" and "dict_get (runs s) i = Some r" and "dict_get (runs s) j = Some r'"
  shows "r_id r = i
    \<and> dict_get (workspace_tenants s) (r_workspace_id r) = Some (r_tenant_id r)
    \<and> dict_get (user_tenants s) (r_user_id r) = Some (r_tenant_id r)
    \<and> (r_workspace_id r = r_workspace_id r' \<or> r_user_id r = r_user_id r' \<longrightarrow>
         r_tenant_id r = r_tenant_id r')"
proof -
  note ok = reachable_runs_ok [OF assms(1), unfolded runs_ok_defs, rule_format]
  from ok [OF assms(2)] ok [OF assms(3)] show ?thesis by auto
qed

theorem runs_in_own_tenant_witness:
  "\<exists>r. dict_get (runs (demo_store 3)) demo_run = Some r
     \<and> dict_get (workspace_tenants (demo_store 3)) (r_workspace_id r) = Some (r_tenant_id r)"
proof -
  obtain r where r: "dict_get (runs (demo_store 3)) demo_run = Some r"
    using demo_facts
    by (auto simp: demo_view_def get_run_Inr split: prod.splits sum.splits)
  from runs_in_own_tenant [OF demo_store_reachable r r] r show ?thesis by blast
qed

text \<open>
  C5: As long as generated identifiers do not repeat, in every reachable state the thread of a
  message exists and has the message's tenant and workspace, and the thread of a run exists
  and has the run's tenant and workspace.
\<close>

theorem thread_contents_in_scope:
  assumes "reachable s" and "unique_uuids s"
  shows "(\<forall>i m. dict_get (chat_messages s) i = Some m \<longrightarrow>
       (\<exists>th. dict_get (chat_threads s) (m_thread_id m) = Some th
          \<and> th_tenant_id th = m_tenant_id m \<and> th_workspace_id th = m_workspace_id m))
    \<and> (\<forall>i r k. dict_get (runs s) i = Some r \<longrightarrow> r_thread_id r = Some k \<longrightarrow>
       (\<exists>th. dict_get (chat_threads s) k = Some th
          \<and> th_tenant_id th = r_tenant_id r \<and> th_workspace_id th = r_workspace_id r))"
  using reachable_chat_ok [OF assms(1)] assms(2) by (simp add: chat_ok_defs)

theorem thread_contents_in_scope_witness:
  "\<exists>m th. dict_get (chat_messages (demo_store 3)) demo_message = Some m
     \<and> dict_get (chat_threads (demo_store 3)) demo_thread = Some th
     \<and> th_workspace_id th = m_workspace_id m"
proof -
  obtain m where "dict_get (chat_messages (demo_store 3)) demo_message = Some m"
    and "m_thread_id m = demo_thread"
    using demo_facts by (auto simp: demo_view_def demo_thread_def)
  with thread_contents_in_scope [OF demo_store_reachable unique_uuids_demo, of 3]
  show ?thesis by metis
qed

end
