(* ===== verification/TenantTables.thy ===== *)
theory TenantTables
  imports Ownership
begin

text \<open>
  Lookup by tenant and identifier. Every table of the store that tenants reach by identifier
  keeps one contract: the row is returned only to its own tenant, and the lookup changes
  nothing. Some tables keep a stronger one: another tenant's row and a missing row raise the
  same exception, so the lookup does not reveal that the row exists.
\<close>

locale tenant_table =
  fixes lookup :: "string \<Rightarrow> string \<Rightarrow> (store, 'a) op"
    and table :: "store \<Rightarrow> (string, 'a) dict"
    and owner :: "'a \<Rightarrow> string"
  assumes own_row:
      "dict_get (table s) k = Some x \<Longrightarrow> owner x = t \<Longrightarrow> lookup t k s = (Inr x, s)"
    and foreign_row:
      "dict_get (table s) k = Some x \<Longrightarrow> owner x \<noteq> t \<Longrightarrow>
         \<exists>m. lookup t k s \<in> {(Inl (TenantAccessError m), s), (Inl (NotFoundError m), s)}"
    and no_row:
      "dict_get (table s) k = None \<Longrightarrow> \<exists>m. lookup t k s = (Inl (NotFoundError m), s)"
begin

lemma lookup_Inr:
  "lookup t k s = (Inr x, s') \<longleftrightarrow> s' = s \<and> dict_get (table s) k = Some x \<and> owner x = t"
  using own_row [of s k x t] foreign_row [of s k _ t] no_row [of s k t]
  by (cases "dict_get (table s) k"; cases "owner (the (dict_get (table s) k)) = t")
    (fastforce dest: own_row)+

lemma lookup_readonly: "readonly (lookup t k)"
proof -
  have "snd (lookup t k s) = s" for s
    using own_row [of s k _ t] foreign_row [of s k _ t] no_row [of s k t]
    by (cases "dict_get (table s) k"; cases "owner (the (dict_get (table s) k)) = t") fastforce+
  then show ?thesis by (simp add: readonly_def)
qed

lemma one_tenant:
  "lookup t k s = (Inr x, s') \<Longrightarrow> t' \<noteq> t \<Longrightarrow> \<exists>e. lookup t' k s = (Inl e, s)"
  using foreign_row [of s k x t'] by (auto simp: lookup_Inr)

text \<open>The answer depends on the tenant's own rows only.\<close>

lemma own_rows_decide:
  assumes "\<And>x. owner x = t \<Longrightarrow>
    dict_get (table s) k = Some x \<longleftrightarrow> dict_get (table s') k = Some x"
  shows "(\<exists>u. lookup t k s = (Inr x, u)) \<longleftrightarrow> (\<exists>u. lookup t k s' = (Inr x, u))"
  using assms by (auto simp: lookup_Inr)

end

text \<open>The stronger contract: one answer for every row that is not the tenant's own.\<close>

locale hidden_table =
  fixes lookup :: "string \<Rightarrow> string \<Rightarrow> (store, 'a) op"
    and table :: "store \<Rightarrow> (string, 'a) dict"
    and owner :: "'a \<Rightarrow> string"
    and missing :: "string \<Rightarrow> string"
  assumes own:
      "dict_get (table s) k = Some x \<Longrightarrow> owner x = t \<Longrightarrow> lookup t k s = (Inr x, s)"
    and others:
      "(\<And>x. dict_get (table s) k = Some x \<Longrightarrow> owner x \<noteq> t) \<Longrightarrow>
         lookup t k s = (Inl (NotFoundError (missing k)), s)"
begin

lemma no_existence_oracle:
  assumes "\<And>x. owner x = t \<Longrightarrow>
    dict_get (table s) k = Some x \<longleftrightarrow> dict_get (table s') k = Some x"
  shows "fst (lookup t k s) = fst (lookup t k s')"
proof (cases "\<exists>x. dict_get (table s) k = Some x \<and> owner x = t")
  case True
  then obtain x where "dict_get (table s) k = Some x" "owner x = t" by blast
  with assms [of x] show ?thesis by (simp add: own)
next
  case False
  with assms have "\<And>x. dict_get (table s') k = Some x \<Longrightarrow> owner x \<noteq> t" by blast
  with False show ?thesis using others [of s k t] others [of s' k t] by simp
qed

end

sublocale hidden_table \<subseteq> tenant_table lookup table owner
proof unfold_locales
  fix s k x t
  assume x: "dict_get (table s) k = Some x"
  { assume "owner x = t"
    with x show "lookup t k s = (Inr x, s)" by (rule own) }
  assume "owner x \<noteq> t"
  with x have "lookup t k s = (Inl (NotFoundError (missing k)), s)" by (intro others) auto
  then show "\<exists>m. lookup t k s \<in> {(Inl (TenantAccessError m), s), (Inl (NotFoundError m), s)}"
    by blast
next
  fix s k t
  assume "dict_get (table s) k = None"
  then have "lookup t k s = (Inl (NotFoundError (missing k)), s)" by (intro others) simp
  then show "\<exists>m. lookup t k s = (Inl (NotFoundError m), s)" by blast
qed

section \<open>The tables of the store\<close>






interpretation workflow_table: hidden_table get_workflow workflows wf_tenant_id
    "\<lambda>k. ''Workflow not found: '' @ k"
  by unfold_locales (auto simp: get_workflow_def op_simps split: option.splits)

interpretation invitation_table: hidden_table get_tenant_invitation tenant_invitations
    in_tenant_id "\<lambda>k. ''Tenant invitation not found: '' @ k"
  by unfold_locales (auto simp: get_tenant_invitation_def op_simps split: option.splits)

interpretation capture_table: hidden_table get_secret_capture_request secret_capture_requests
    sc_tenant_id "\<lambda>k. ''Secret capture request not found: '' @ k"
  by unfold_locales (auto simp: get_secret_capture_request_def op_simps split: option.splits)


text \<open>
  Workflows, invitations and secret capture requests of other tenants are invisible: what a
  lookup answers, exception included, depends only on the asking tenant's own rows, so a
  missing row and a row of another tenant cannot be told apart.
\<close>

theorem foreign_rows_are_hidden:
  assumes "\<And>w. wf_tenant_id w = t \<Longrightarrow>
      dict_get (workflows s) k = Some w \<longleftrightarrow> dict_get (workflows s') k = Some w"
    and "\<And>i. in_tenant_id i = t \<Longrightarrow>
      dict_get (tenant_invitations s) k = Some i \<longleftrightarrow> dict_get (tenant_invitations s') k = Some i"
    and "\<And>c. sc_tenant_id c = t \<Longrightarrow>
      dict_get (secret_capture_requests s) k = Some c
        \<longleftrightarrow> dict_get (secret_capture_requests s') k = Some c"
  shows "fst (get_workflow t k s) = fst (get_workflow t k s')
    \<and> fst (get_tenant_invitation t k s) = fst (get_tenant_invitation t k s')
    \<and> fst (get_secret_capture_request t k s) = fst (get_secret_capture_request t k s')"
  by (intro conjI workflow_table.no_existence_oracle invitation_table.no_existence_oracle
      capture_table.no_existence_oracle assms)

definition demo_invitation :: tenant_invitation_record where
  "demo_invitation =
     \<lparr>in_id = ''i1'', in_tenant_id = ''t2'', in_email = ''a@b'', in_token_hash = ''h'',
      in_invited_by_user_id = ''u2'', in_created_at = 0, in_expires_at = 10,
      in_accepted_at = None, in_revoked_at = None, in_accepted_by_user_id = None\<rparr>"

theorem foreign_rows_are_hidden_witness:
  "fst (get_tenant_invitation ''t1'' ''i1''
      (demo_start\<lparr>tenant_invitations := [(''i1'', demo_invitation)]\<rparr>))
   = fst (get_tenant_invitation ''t1'' ''i1'' demo_start)"
  by (rule foreign_rows_are_hidden [THEN conjunct2, THEN conjunct1])
    (auto simp: demo_start_def empty_store_def demo_invitation_def)

end
