(* ===== verification/ActionLeases.thy ===== *)
theory ActionLeases
  imports Ownership
begin

text \<open>
  Agent actions of \<^verbatim>\<open>store.py\<close>: how an action may evolve under any operation of the store, and
  what the lease fence (owner, generation, expiry) gives a worker.
\<close>

section \<open>Moves of an action\<close>

definition same_action :: "agent_action \<Rightarrow> agent_action \<Rightarrow> bool" where
  "same_action a b \<longleftrightarrow>
     ac_id b = ac_id a \<and> ac_tenant_id b = ac_tenant_id a \<and> ac_workspace_id b = ac_workspace_id a
     \<and> ac_run_id b = ac_run_id a \<and> ac_cycle_id b = ac_cycle_id a
     \<and> ac_action_key b = ac_action_key a \<and> ac_decision b = ac_decision a
     \<and> ac_thread_id b = ac_thread_id a"

text \<open>The status changes the operations make, other than staying.\<close>

fun legal_move :: "action_status \<Rightarrow> action_status \<Rightarrow> bool" where
  "legal_move AS_PENDING b \<longleftrightarrow> b \<in> {AS_RUNNING, AS_CANCELLED}"
| "legal_move AS_RUNNING b \<longleftrightarrow> b \<in> {AS_SUCCEEDED, AS_FAILED, AS_UNCERTAIN, AS_CANCELLED}"
| "legal_move AS_UNCERTAIN b \<longleftrightarrow> b \<in> {AS_PENDING, AS_SUCCEEDED, AS_FAILED, AS_CANCELLED}"
| "legal_move AS_FAILED b \<longleftrightarrow> b = AS_UNCERTAIN"
| "legal_move AS_SUCCEEDED b \<longleftrightarrow> False"
| "legal_move AS_CANCELLED b \<longleftrightarrow> False"

text \<open>One operation: nothing, a renewal of a running lease, a claim, or another status change.\<close>

definition action_move :: "agent_action \<Rightarrow> agent_action \<Rightarrow> bool" where
  "action_move a b \<longleftrightarrow> same_action a b \<and>
     (b = a
      \<or> ac_status a = AS_RUNNING \<and> ac_status b = AS_RUNNING
          \<and> ac_lease_generation b = ac_lease_generation a
          \<and> ac_lease_owner_id b = ac_lease_owner_id a \<and> ac_lease_expires_at b \<noteq> None
      \<or> ac_status a = AS_PENDING \<and> ac_status b = AS_RUNNING
          \<and> ac_lease_generation b = ac_lease_generation a + 1
          \<and> truthy (ac_lease_owner_id b) \<and> ac_lease_expires_at b \<noteq> None
      \<or> legal_move (ac_status a) (ac_status b) \<and> ac_status b \<noteq> AS_RUNNING
          \<and> ac_lease_generation b = ac_lease_generation a)"

lemma action_move_refl [simp]: "action_move a a"
  by (simp add: action_move_def same_action_def)

type_synonym actions = "(string, agent_action) dict"

text \<open>What one operation does to the table: each action moves, and at most one is added, whose
  identifier and whose key within its run are new.\<close>

definition actions_ok :: "actions \<Rightarrow> bool" where
  "actions_ok d \<longleftrightarrow> dict_ok d \<and> (\<forall>k a. dict_get d k = Some a \<longrightarrow> ac_id a = k)"

definition moved :: "actions \<Rightarrow> actions \<Rightarrow> bool" where
  "moved d d' \<longleftrightarrow>
     (\<forall>k a. dict_get d k = Some a \<longrightarrow> (\<exists>b. dict_get d' k = Some b \<and> action_move a b))
     \<and> (\<forall>k b. dict_get d' k = Some b \<longrightarrow> dict_get d k = None \<longrightarrow>
          ac_id b = k \<and> ac_status b = AS_PENDING
          \<and> (\<forall>k' a. dict_get d' k' = Some a \<longrightarrow> k' \<noteq> k \<longrightarrow>
               \<not> (ac_run_id a = ac_run_id b \<and> ac_action_key a = ac_action_key b)))
     \<and> (actions_ok d \<longrightarrow> actions_ok d')"

lemma moved_refl [simp]: "moved d d"
  by (auto simp: moved_def)

lemma moved_get:
  "moved d d' \<Longrightarrow> dict_get d k = Some a \<Longrightarrow> \<exists>b. dict_get d' k = Some b \<and> action_move a b"
  by (simp add: moved_def)

lemma moved_set:
  assumes "dict_get d k = Some a" and "action_move a b"
  shows "moved d (dict_set k b d)"
  using assms by (auto simp: moved_def actions_ok_def action_move_def same_action_def)

lemma moved_new:
  assumes "dict_get d (ac_id a) = None" and "ac_status a = AS_PENDING"
    and "\<not> list_ex (\<lambda>e. ac_run_id e = ac_run_id a \<and> ac_action_key e = ac_action_key a) (dict_values d)"
  shows "moved d (dict_set (ac_id a) a d)"
  using assms dict_get_values [of d] by (auto simp: moved_def actions_ok_def list_ex_iff)

section \<open>Rules for programs\<close>

definition moving :: "(store, 'a) op \<Rightarrow> bool" where
  "moving m \<longleftrightarrow> (\<forall>s. actions_ok (agent_actions s) \<longrightarrow>
     moved (agent_actions s) (agent_actions (snd (m s))))"

definition moving_from :: "string \<Rightarrow> agent_action \<Rightarrow> (store, 'a) op \<Rightarrow> bool" where
  "moving_from k a m \<longleftrightarrow>
     (\<forall>s. actions_ok (agent_actions s) \<longrightarrow> dict_get (agent_actions s) k = Some a \<longrightarrow>
        moved (agent_actions s) (agent_actions (snd (m s))))"

named_theorems move_rules \<open>rules for moving and moving_from\<close>

lemma keeps_moving: "keeps agent_actions m \<Longrightarrow> moving m"
  by (simp add: keeps_def moving_def)

lemma keeps_moving_from: "keeps agent_actions m \<Longrightarrow> moving_from k a m"
  by (simp add: keeps_def moving_from_def)

lemma keeps_andThen:
  "keeps p m \<Longrightarrow> (\<And>x. keeps p (f x)) \<Longrightarrow> keeps p (andThen m f)"
  unfolding keeps_eq by (intro allI frame_rules) auto

lemma moving_andThen:
  "keeps agent_actions m \<Longrightarrow> (\<And>x. moving (f x)) \<Longrightarrow> moving (andThen m f)"
  unfolding moving_def keeps_def andThen_def
  by (auto split: prod.splits sum.splits) (metis moved_refl snd_conv)+

lemma moving_from_andThen:
  "keeps agent_actions m \<Longrightarrow> (\<And>x. moving_from k a (f x)) \<Longrightarrow> moving_from k a (andThen m f)"
  unfolding moving_from_def keeps_def andThen_def
  by (auto split: prod.splits sum.splits) (metis moved_refl snd_conv)+

lemma moving_from_result:
  assumes "keeps agent_actions m" and "\<And>s x s'. m s = (Inr x, s') \<Longrightarrow> moving_from k a (f x)"
  shows "moving_from k a (andThen m f)"
proof -
  have "moved (agent_actions s) (agent_actions (snd (andThen m f s)))"
    if "actions_ok (agent_actions s)" and "dict_get (agent_actions s) k = Some a" for s
  proof (cases "m s")
    case (Pair r s')
    with assms(1) have eq: "agent_actions s' = agent_actions s" by (rule keepsD)
    show ?thesis
    proof (cases r)
      case (Inr x)
      with Pair assms(2) have "moving_from k a (f x)" by blast
      moreover from that eq have "actions_ok (agent_actions s')"
        and "dict_get (agent_actions s') k = Some a" by simp_all
      ultimately have "moved (agent_actions s') (agent_actions (snd (f x s')))"
        unfolding moving_from_def by blast
      then show ?thesis by (simp add: Pair Inr eq andThen_apply)
    qed (simp add: Pair eq andThen_apply)
  qed
  then show ?thesis by (simp add: moving_from_def)
qed

lemma moving_get_agent_action:
  "(\<And>a. ac_tenant_id a = t \<Longrightarrow> moving_from k a (f a)) \<Longrightarrow> moving (andThen (get_agent_action t k) f)"
  by (auto simp: moving_def moving_from_def get_agent_action_def op_simps split: option.splits)

lemma moving_from_require:
  "(b \<Longrightarrow> moving_from k a (f ())) \<Longrightarrow> moving_from k a (andThen (require b e) f)"
  by (auto simp: moving_from_def op_simps)

lemma moving_require:
  "(b \<Longrightarrow> moving (f ())) \<Longrightarrow> moving (andThen (require b e) f)"
  by (auto simp: moving_def op_simps)

lemma moving_from_put:
  "action_move a b \<Longrightarrow> keeps agent_actions m \<Longrightarrow> moving_from k a (andThen (put_action k b) (\<lambda>_. m))"
  by (auto simp: moving_from_def put_action_def op_simps keeps_def intro: moved_set)

lemma moving_from_if:
  "(b \<Longrightarrow> moving_from k a m) \<Longrightarrow> (\<not> b \<Longrightarrow> moving_from k a n) \<Longrightarrow> moving_from k a (if b then m else n)"
  by simp

lemma moving_from_ret: "moving_from k a (ret x)"
  by (simp add: moving_from_def ret_apply)

text \<open>The table is looked up without a tenant check: \<open>claim\<close> and \<open>renew\<close>.\<close>

lemma moving_gets_action:
  assumes "moving (f None)" and "\<And>a. moving_from k a (f (Some a))"
  shows "moving (andThen (gets (\<lambda>s. dict_get (agent_actions s) k)) f)"
  using assms unfolding moving_def moving_from_def
  by (auto simp: op_simps) (metis not_None_eq)

section \<open>Which operations leave the actions alone\<close>

interpretation acts: frame "\<lambda>s. agent_actions s = d" for d
  by unfold_locales (auto intro!: preserves_append_run_event_free)

interpretation acts: calm_frame "\<lambda>s. agent_actions s = d" for d
  by unfold_locales
    (auto intro!: preserves_ensure_context_free preserves_chat_creation_free
      acts.preserves_create_run)

lemma calm_moving: "store_op m \<Longrightarrow> \<not> action_op m \<Longrightarrow> moving m"
  by (intro keeps_moving keepsI acts.calm_op_frame)

text \<open>What follows the write of an action: events and checkpoints.\<close>

lemma keeps_append_checkpoint: "keeps agent_actions (append_checkpoint cp)"
  unfolding append_checkpoint_def by (intro keepsI preserves_modify) simp

lemma keeps_lease_time: "keeps agent_actions (lease_time v)"
  unfolding lease_time_def
  by (auto intro!: keepsI frame_rules split: option.split py_datetime.split)

lemma keeps_lease_expiration: "keeps agent_actions (lease_expiration n l)"
  unfolding lease_expiration_def by (intro keepsI frame_rules)

lemmas keeps_lookups = preserves_lookups [THEN keepsI]

section \<open>The action operations\<close>

lemmas move_defs = action_move_def same_action_def

lemma moving_claim: "moving (claim_agent_action t i ow ls nw)"
  unfolding claim_agent_action_def Let_def
  by (intro moving_andThen keeps_lease_time keeps_lease_expiration moving_require
      moving_gets_action;
      auto intro!: keeps_moving moving_from_if moving_from_ret moving_from_put keepsI frame_rules
        simp: move_defs truthy_def)

lemma moving_renew: "moving (renew_agent_action_lease t i ow g ls nw)"
  unfolding renew_agent_action_lease_def Let_def
  by (intro moving_andThen keeps_lease_time keeps_lease_expiration moving_gets_action;
      auto intro!: keeps_moving moving_from_if moving_from_ret moving_from_put keepsI frame_rules
        simp: move_defs holds_lease_def)

lemma moving_cancel: "moving (cancel_agent_action t i nw)"
  unfolding cancel_agent_action_def Let_def
  by (intro moving_get_agent_action moving_from_if moving_from_ret moving_from_andThen
      keeps_lease_time moving_from_put; auto intro!: keepsI frame_rules simp: move_defs)

text \<open>After the write, the rest only looks up the run and appends an event.\<close>

lemma keeps_report:
  "keeps agent_actions (andThen (get_run t i) (\<lambda>r. andThen (append_run_event r ty pl) (\<lambda>_. ret x)))"
  by (intro keepsI frame_rules acts.event)

lemma moving_resolve: "moving (resolve_uncertain_agent_action t i res u nt)"
proof (cases "resolution_of res")
  case None
  then show ?thesis
    by (auto simp: resolve_uncertain_agent_action_def intro!: keeps_moving keepsI frame_rules)
next
  case (Some x)
  show ?thesis
    unfolding resolve_uncertain_agent_action_def Some option.case Let_def
    by (rule moving_get_agent_action, rule moving_from_require, rule moving_from_result,
        (intro keepsI frame_rules; fail), rule moving_from_put [OF _ keeps_report], cases x;
        simp add: ret_Inr_iff andThen_Inr_iff utc_now_eval; clarsimp simp: move_defs)
qed
lemma moving_pause: "moving (pause_connector_action_for_reconnect t i cn)"
  unfolding pause_connector_action_for_reconnect_def Let_def
  by (intro moving_get_agent_action moving_from_require moving_from_put keeps_report;
      simp add: move_defs)

lemma moving_retry: "moving (retry_connector_action_after_reconnect t i cn u)"
  unfolding retry_connector_action_after_reconnect_def Let_def
  by (intro moving_get_agent_action moving_from_require moving_from_put keeps_report;
      simp add: move_defs)

lemma keeps_basics:
  "keeps agent_actions (gets g)" "keeps agent_actions (new_id p)" "keeps agent_actions (ret x)"
  by (simp_all add: keeps_def op_simps new_id_eval)

lemma moving_commit: "moving (commit_agent_action_observation t i ob ow g nw us sp cs sb)"
  unfolding commit_agent_action_observation_def Let_def
  by (rule moving_get_agent_action, rule moving_from_require,
      rule moving_from_andThen, rule keeps_lease_time, rule moving_from_require,
      rule moving_from_andThen, rule keeps_basics, rule moving_from_andThen, rule keeps_basics,
      rule moving_from_require, rule moving_from_put)
    (simp add: move_defs holds_lease_def,
     rule keeps_andThen [OF keeps_append_checkpoint], rule keeps_basics)

lemma moving_create: "moving (create_agent_action a)"
  by (auto simp: moving_def create_agent_action_def get_agent_cycle_def put_action_def op_simps
      intro!: moved_new split: option.split)

text \<open>Recovery walks over the rows it read at the start.\<close>

lemma find_SomeD: "find p xs = Some x \<Longrightarrow> x \<in> set xs \<and> p x"
  by (induction xs) (auto split: if_splits)

lemma dict_get_foldl_set:
  "dict_get (foldl (\<lambda>d x. dict_set (f x) (g x) d) d xs) k =
     (case find (\<lambda>x. f x = k) (rev xs) of None \<Rightarrow> dict_get d k | Some x \<Rightarrow> Some (g x))"
  by (induction xs rule: rev_induct) (auto split: option.split)

lemma dict_ok_foldl_set:
  "dict_ok d \<Longrightarrow> dict_ok (foldl (\<lambda>d x. dict_set (f x) (g x) d) d xs)"
  by (induction xs arbitrary: d) auto

definition give_up :: "agent_action \<Rightarrow> agent_action" where
  "give_up a = a\<lparr>ac_status := AS_UNCERTAIN, ac_lease_owner_id := None, ac_lease_expires_at := None\<rparr>"

lemma for_each_give_up:
  "for_each as (\<lambda>a. andThen (put_action (ac_id a) (give_up a)) (\<lambda>_. ret (give_up a))) s
   = (Inr (map give_up as),
      s\<lparr>agent_actions := foldl (\<lambda>d a. dict_set (ac_id a) (give_up a) d) (agent_actions s) as\<rparr>)"
  by (induction as arbitrary: s) (simp_all add: op_simps put_action_def)

lemma recover_eq:
  "recover_expired_agent_actions t nw mx =
     andThen (require (1 \<le> mx) (ValueError ''limit must be at least 1'')) (\<lambda>_.
     andThen (lease_time nw) (\<lambda>now s.
       (Inr (map give_up (expired_actions t now (nat mx) s)),
        s\<lparr>agent_actions := foldl (\<lambda>d a. dict_set (ac_id a) (give_up a) d) (agent_actions s)
            (expired_actions t now (nat mx) s)\<rparr>)))"
  unfolding recover_expired_agent_actions_def Let_def give_up_def [symmetric]
  by (intro arg_cong2 [where f = andThen] refl ext)
    (simp add: andThen_apply gets_apply for_each_give_up)

lemma expired_actions_mem:
  assumes "actions_ok (agent_actions s)" and "a \<in> set (expired_actions t now n s)"
  shows "dict_get (agent_actions s) (ac_id a) = Some a" and "lease_lost t now a"
proof -
  from assms(2) have a: "a \<in> set (dict_values (agent_actions s))" "lease_lost t now a"
    by (auto simp: expired_actions_def dest: in_set_takeD)
  with assms(1) show "dict_get (agent_actions s) (ac_id a) = Some a"
    by (auto simp: actions_ok_def dict_values_get)
  from a show "lease_lost t now a" by simp
qed

lemma give_up_get:
  assumes "\<And>a. a \<in> set as \<Longrightarrow> dict_get d (ac_id a) = Some a"
  shows "dict_get (foldl (\<lambda>d a. dict_set (ac_id a) (give_up a) d) d as) k
      = (if \<exists>a \<in> set as. ac_id a = k then map_option give_up (dict_get d k) else dict_get d k)"
proof (cases "find (\<lambda>a. ac_id a = k) (rev as)")
  case None
  moreover from this have "\<not> (\<exists>a \<in> set as. ac_id a = k)" by (simp add: find_None_iff)
  ultimately show ?thesis by (simp add: dict_get_foldl_set)
next
  case (Some a)
  then have "a \<in> set as" "ac_id a = k" by (auto dest: find_SomeD)
  with Some assms show ?thesis by (auto simp: dict_get_foldl_set)
qed

lemma moved_give_up:
  assumes ok: "actions_ok d"
    and mem: "\<And>a. a \<in> set as \<Longrightarrow> dict_get d (ac_id a) = Some a \<and> ac_status a = AS_RUNNING"
  shows "moved d (foldl (\<lambda>d a. dict_set (ac_id a) (give_up a) d) d as)"
proof -
  have "action_move a (give_up a)" if "ac_status a = AS_RUNNING" for a
    using that by (simp add: move_defs give_up_def)
  moreover have "ac_id (give_up a) = ac_id a" for a by (simp add: give_up_def)
  ultimately show ?thesis
    using mem ok give_up_get [of as d]
    by (auto simp: moved_def actions_ok_def dict_ok_foldl_set split: if_splits)
qed

lemma moving_recover: "moving (recover_expired_agent_actions t nw mx)"
  unfolding recover_eq
proof (intro moving_require moving_andThen keeps_lease_time)
  fix now
  show "moving (\<lambda>s. (Inr (map give_up (expired_actions t now (nat mx) s)),
        s\<lparr>agent_actions := foldl (\<lambda>d a. dict_set (ac_id a) (give_up a) d) (agent_actions s)
            (expired_actions t now (nat mx) s)\<rparr>))"
    using expired_actions_mem [of _ _ t now "nat mx"]
    by (auto simp: moving_def lease_lost_def intro!: moved_give_up)
qed

lemma void_snd [simp]: "moving (void m) = moving m"
  by (simp add: moving_def void_step)

lemma moving_action_op: "action_op m \<Longrightarrow> moving m"
proof (erule action_op.cases; hypsubst)
  show "moving (void (create_agent_cycle c))" for c
    unfolding create_agent_cycle_def
    by (intro keeps_moving keepsI frame_rules preserves_modify) simp
  show "moving (void (complete_agent_cycle t i st vr))" for t i st vr
    unfolding complete_agent_cycle_def
    by (intro keeps_moving keepsI frame_rules preserves_modify) simp
  show "moving (void (list_agent_actions t i))" for t i
    unfolding list_agent_actions_def
    by (intro keeps_moving keepsI frame_rules preserves_started_at_keys)
  show "moving (void (create_agent_checkpoint cp))" for cp
    unfolding create_agent_checkpoint_def append_checkpoint_def
    by (intro keeps_moving keepsI frame_rules preserves_modify) simp
qed (simp_all add: moving_create moving_resolve moving_pause moving_retry moving_claim moving_renew
    moving_cancel moving_recover moving_commit)

lemma moving_store_op: "store_op m \<Longrightarrow> moving m"
  using calm_moving moving_action_op by blast

section \<open>Many operations\<close>

text \<open>
  What holds between any earlier and later state: a final status is final; the generation
  never decreases; within one generation an action that runs was already running, for the
  same owner.
\<close>

definition final_status :: "action_status \<Rightarrow> bool" where
  "final_status st \<longleftrightarrow> st \<in> {AS_SUCCEEDED, AS_CANCELLED}"

definition later :: "agent_action \<Rightarrow> agent_action \<Rightarrow> bool" where
  "later a b \<longleftrightarrow> same_action a b
     \<and> (final_status (ac_status a) \<longrightarrow> b = a)
     \<and> ac_lease_generation a \<le> ac_lease_generation b
     \<and> (ac_lease_generation b = ac_lease_generation a \<longrightarrow> ac_status b = AS_RUNNING \<longrightarrow>
          ac_status a = AS_RUNNING \<and> ac_lease_owner_id b = ac_lease_owner_id a)"

lemma action_move_later: "action_move a b \<Longrightarrow> later a b"
  by (cases "ac_status a") (auto simp: action_move_def later_def final_status_def)

lemma later_refl: "later a a"
  by (simp add: later_def same_action_def)

lemma same_action_trans: "same_action a b \<Longrightarrow> same_action b c \<Longrightarrow> same_action a c"
  by (simp add: same_action_def)

lemma later_trans: "later a b \<Longrightarrow> later b c \<Longrightarrow> later a c"
  unfolding later_def using same_action_trans by (metis order.antisym order.trans)

lemma actions_ok_store_op: "store_op m \<Longrightarrow> preserves (\<lambda>s. actions_ok (agent_actions s)) m"
  using moving_store_op by (auto simp: preserves_def moving_def moved_def)

lemma reachable_actions_ok: "reachable s \<Longrightarrow> actions_ok (agent_actions s)"
  by (rule reachable_invariant [OF _ actions_ok_store_op])
    (auto simp: empty_store_def actions_ok_def)

lemma later_actions:
  assumes "store_steps s t" and "actions_ok (agent_actions s)"
    and "dict_get (agent_actions s) k = Some a"
  shows "actions_ok (agent_actions t) \<and> (\<exists>b. dict_get (agent_actions t) k = Some b \<and> later a b)"
  using assms
proof (induction rule: store_steps.induct)
  case (steps_refl s)
  then show ?case by (auto intro: later_refl)
next
  case (steps_step s t m)
  then obtain b where ok: "actions_ok (agent_actions t)"
    and b: "dict_get (agent_actions t) k = Some b" "later a b" by blast
  from steps_step.hyps(2) ok have m: "moved (agent_actions t) (agent_actions (snd (m t)))"
    using moving_store_op by (simp add: moving_def)
  with b(1) obtain c where "dict_get (agent_actions (snd (m t))) k = Some c" "action_move b c"
    using moved_get by blast
  moreover from m ok have "actions_ok (agent_actions (snd (m t)))" by (simp add: moved_def)
  ultimately show ?case using b(2) by (blast intro: later_trans action_move_later)
qed

section \<open>Commit\<close>

lemma lease_time_cases:
  obtains (error) e where "lease_time nw s = (Inl e, s)"
  | (time) now n where "lease_time nw s = (Inr now, s\<lparr>tick := n\<rparr>)"
proof (cases nw)
  case None
  then show thesis using time [of _ "Suc (tick s)"] by (simp add: lease_time_def utc_now_eval)
next
  case (Some x)
  then show thesis
    using error time [of _ "tick s"] by (cases x) (simp_all add: lease_time_def op_simps)
qed

definition committed_action ::
  "agent_action \<Rightarrow> agent_observation \<Rightarrow> json_obj \<Rightarrow> datetime \<Rightarrow> agent_action" where
  "committed_action a ob us now = a\<lparr>
     ac_status := (if ob_success ob then AS_SUCCEEDED else AS_FAILED),
     ac_observation := Some ob, ac_failure_class := ob_failure_class ob,
     ac_lease_owner_id := None, ac_lease_expires_at := None, ac_usage := us,
     ac_completed_at := Some now\<rparr>"

lemma next_checkpoint_sequence_tick [simp]:
  "next_checkpoint_sequence r (s\<lparr>tick := n\<rparr>) = next_checkpoint_sequence r s"
  by (simp add: next_checkpoint_sequence_def)

text \<open>A commit either changes nothing but the clock position, or writes the action and its
  checkpoint together, and then the fence held.\<close>

lemma commit_cases:
  obtains (refused) e n where
      "commit_agent_action_observation t i ob ow g nw us sp cs sb s = (Inl e, s\<lparr>tick := n\<rparr>)"
  | (committed) a now cp n where
      "commit_agent_action_observation t i ob ow g nw us sp cs sb s =
        (Inr (committed_action a ob us now, cp),
         s\<lparr>tick := n, agent_actions := dict_set i (committed_action a ob us now) (agent_actions s),
           agent_checkpoints := dict_append (cp_run_id cp) cp (agent_checkpoints s)\<rparr>)"
      and "dict_get (agent_actions s) i = Some a" and "ac_tenant_id a = t"
      and "ob_action_id ob = ac_id a" and "holds_lease a ow g now" and "cs \<noteq> []"
      and "cp_run_id cp = ac_run_id a" and "cp_checksum cp = cs" and "cp_state_payload cp = sp"
      and "cp_sequence cp = next_checkpoint_sequence (ac_run_id a) s"
      and "cp_last_committed_action_id cp = Some (ac_id a)"
      and "\<And>x. nw = Some (Aware x) \<Longrightarrow> now = x"
proof (cases "\<exists>a. dict_get (agent_actions s) i = Some a \<and> ac_tenant_id a = t
    \<and> ob_action_id ob = ac_id a")
  case False
  have same: "s = s\<lparr>tick := tick s\<rparr>" by simp
  from False have "\<exists>e. commit_agent_action_observation t i ob ow g nw us sp cs sb s = (Inl e, s)"
    by (auto simp: commit_agent_action_observation_def get_agent_action_def op_simps
        split: option.splits)
  with same refused show thesis by metis
next
  case True
  then obtain a where a: "dict_get (agent_actions s) i = Some a" "ac_tenant_id a = t"
    "ob_action_id ob = ac_id a" by blast
  note commit_defs = commit_agent_action_observation_def get_agent_action_def op_simps a
    new_id_eval Let_def
  show thesis
  proof (cases rule: lease_time_cases [of nw s])
    case (error e)
    then show thesis using refused [of e "tick s"] by (simp add: commit_defs)
  next
    case (time now n)
    show thesis
    proof (cases "holds_lease a ow g now \<and> cs \<noteq> []")
      case True
      let ?cp = "\<lparr>cp_id = ''checkpoint'' @ ''_'' @ uuid4_hex s n, cp_tenant_id = ac_tenant_id a,
        cp_workspace_id = ac_workspace_id a, cp_run_id = ac_run_id a,
        cp_sequence = next_checkpoint_sequence (ac_run_id a) s, cp_state_payload = sp,
        cp_checksum = cs, cp_thread_id = ac_thread_id a, cp_cycle_id = Some (ac_cycle_id a),
        cp_last_committed_action_id = Some (ac_id a), cp_sandbox_checkpoint_ref = sb,
        cp_created_at = now\<rparr>"
      from True time a have "commit_agent_action_observation t i ob ow g nw us sp cs sb s =
        (Inr (committed_action a ob us now, ?cp),
         s\<lparr>tick := Suc n, agent_actions := dict_set i (committed_action a ob us now) (agent_actions s),
           agent_checkpoints := dict_append (cp_run_id ?cp) ?cp (agent_checkpoints s)\<rparr>)"
        by (simp add: commit_defs append_checkpoint_def put_action_def committed_action_def)
      moreover have "now = x" if "nw = Some (Aware x)" for x
        using time that by (simp add: lease_time_def op_simps)
      ultimately show thesis using committed [of a now ?cp "Suc n"] True a by simp
    next
      case False
      with time a have "\<exists>e. commit_agent_action_observation t i ob ow g nw us sp cs sb s
            = (Inl e, s\<lparr>tick := n\<rparr>)
          \<or> commit_agent_action_observation t i ob ow g nw us sp cs sb s
            = (Inl e, s\<lparr>tick := Suc n\<rparr>)"
        by (auto simp: commit_defs)
      with refused show thesis by blast
    qed
  qed
qed

section \<open>Claim\<close>

definition claimed_action :: "agent_action \<Rightarrow> string \<Rightarrow> datetime \<Rightarrow> int \<Rightarrow> agent_action" where
  "claimed_action a ow now ls = a\<lparr>ac_status := AS_RUNNING, ac_lease_owner_id := Some ow,
     ac_lease_expires_at := Some (now + ls * 1000000),
     ac_lease_generation := ac_lease_generation a + 1, ac_started_at := Some now\<rparr>"

lemma claim_cases:
  obtains (refused) e n where "claim_agent_action t i ow ls nw s = (Inl e, s\<lparr>tick := n\<rparr>)"
  | (unavailable) n where "claim_agent_action t i ow ls nw s = (Inr None, s\<lparr>tick := n\<rparr>)"
      and "\<And>a. dict_get (agent_actions s) i = Some a \<Longrightarrow> ac_tenant_id a = t \<Longrightarrow> ac_status a \<noteq> AS_PENDING"
  | (claimed) a now n where
      "claim_agent_action t i ow ls nw s = (Inr (Some (claimed_action a ow now ls)),
         s\<lparr>tick := n, agent_actions := dict_set i (claimed_action a ow now ls) (agent_actions s)\<rparr>)"
      and "dict_get (agent_actions s) i = Some a" and "ac_tenant_id a = t"
      and "ac_status a = AS_PENDING" and "1 \<le> ls" and "ow \<noteq> []"
      and "\<And>x. nw = Some (Aware x) \<Longrightarrow> now = x"
proof (cases rule: lease_time_cases [of nw s])
  case (error e)
  then show thesis using refused [of e "tick s"] by (simp add: claim_agent_action_def andThen_apply)
next
  case (time now n)
  note defs = claim_agent_action_def lease_expiration_def op_simps time Let_def
  show thesis
  proof (cases "1 \<le> ls \<and> ow \<noteq> []")
    case False
    then have "\<exists>e. claim_agent_action t i ow ls nw s = (Inl e, s\<lparr>tick := n\<rparr>)"
      by (auto simp: defs)
    with refused show thesis by blast
  next
    case True
    show thesis
    proof (cases "\<exists>a. dict_get (agent_actions s) i = Some a \<and> ac_tenant_id a = t
        \<and> ac_status a = AS_PENDING")
      case False
      with True show thesis
        by (intro unavailable [of n]) (auto simp: defs split: option.split)
    next
      case a: True
      then obtain a where "dict_get (agent_actions s) i = Some a" "ac_tenant_id a = t"
        "ac_status a = AS_PENDING" by blast
      with True time show thesis
        by (intro claimed [of a now n]) (auto simp: defs put_action_def claimed_action_def
            lease_time_def)
    qed
  qed
qed

section \<open>Properties\<close>

text \<open>
  C7: The life cycle of an action: in a reachable state one operation of the store leaves every
  action in place with the same identity, and changes its status only along pending to running
  or cancelled; running to succeeded, failed, uncertain or cancelled; uncertain to pending,
  succeeded, failed or cancelled; failed to uncertain.
\<close>

theorem action_moves_are_legal:
  assumes "reachable s" and "store_op m" and "dict_get (agent_actions s) k = Some a"
  shows "\<exists>b. dict_get (agent_actions (snd (m s))) k = Some b \<and> same_action a b
    \<and> (ac_status b = ac_status a \<or> legal_move (ac_status a) (ac_status b))"
proof -
  have "moved (agent_actions s) (agent_actions (snd (m s)))"
    using moving_store_op [OF assms(2)] reachable_actions_ok [OF assms(1)] by (simp add: moving_def)
  then obtain b where "dict_get (agent_actions (snd (m s))) k = Some b" "action_move a b"
    using moved_get assms(3) by blast
  then show ?thesis by (auto simp: action_move_def)
qed

lemma demo_actions:
  obtains a b c where "dict_get (agent_actions (demo_store 5)) ''a1'' = Some a"
    and "ac_status a = AS_PENDING" and "ac_lease_generation a = 0"
    and "dict_get (agent_actions (demo_store 6)) ''a1'' = Some b"
    and "ac_status b = AS_RUNNING" and "ac_lease_generation b = 1"
    and "ac_lease_owner_id b = Some ''w1''"
    and "dict_get (agent_actions (demo_store 7)) ''a1'' = Some c"
    and "ac_status c = AS_SUCCEEDED" and "ac_lease_generation c = 1"
  using demo_lease by (auto simp: lease_view_def)

theorem action_moves_are_legal_witness:
  "\<exists>a b. dict_get (agent_actions (demo_store 6)) ''a1'' = Some a
     \<and> dict_get (agent_actions (demo_store 7)) ''a1'' = Some b
     \<and> same_action a b \<and> ac_status a = AS_RUNNING \<and> ac_status b = AS_SUCCEEDED"
proof (rule demo_actions)
  fix a b c
  assume b: "dict_get (agent_actions (demo_store 6)) ''a1'' = Some b" "ac_status b = AS_RUNNING"
    and c: "dict_get (agent_actions (demo_store 7)) ''a1'' = Some c" "ac_status c = AS_SUCCEEDED"
  have "store_op (void (commit_agent_action_observation ''t1'' ''a1'' demo_observation ''w1'' 1
      (Some (Aware 5)) [] [] ''sum'' None))" by (intro store_ops)
  from action_moves_are_legal [OF demo_store_reachable this b(1)] b c show ?thesis
    by (simp add: demo_store_7 [symmetric])
qed

text \<open>
  A succeeded or cancelled action is never touched again: no sequence of store operations
  changes any of its fields.
\<close>

theorem finished_actions_never_change:
  assumes "reachable s" and "store_steps s t"
    and "dict_get (agent_actions s) k = Some a" and "ac_status a \<in> {AS_SUCCEEDED, AS_CANCELLED}"
  shows "dict_get (agent_actions t) k = Some a"
  using later_actions [OF assms(2) reachable_actions_ok [OF assms(1)] assms(3)] assms(4)
  by (auto simp: later_def final_status_def)

theorem finished_actions_never_change_witness:
  "dict_get (agent_actions (snd (cancel_agent_action ''t1'' ''a1'' None (demo_store 7)))) ''a1''
     = dict_get (agent_actions (demo_store 7)) ''a1''
   \<and> dict_get (agent_actions (demo_store 7)) ''a1'' \<noteq> None"
proof (rule demo_actions)
  fix a b c
  assume c: "dict_get (agent_actions (demo_store 7)) ''a1'' = Some c" "ac_status c = AS_SUCCEEDED"
  have "store_op (void (cancel_agent_action ''t1'' ''a1'' None))" by (intro store_ops)
  then have "store_steps (demo_store 7) (snd (cancel_agent_action ''t1'' ''a1'' None (demo_store 7)))"
    using steps_step [OF steps_refl] by (metis void_step)
  from finished_actions_never_change [OF demo_store_reachable this c(1)] c show ?thesis by simp
qed

text \<open>A lease generation is closed once the action moved past it or stopped running in it.\<close>

definition closed_generation :: "agent_action \<Rightarrow> int \<Rightarrow> bool" where
  "closed_generation a g \<longleftrightarrow>
     g < ac_lease_generation a \<or> ac_lease_generation a = g \<and> ac_status a \<noteq> AS_RUNNING"

lemma closed_later: "closed_generation a g \<Longrightarrow> later a b \<Longrightarrow> closed_generation b g"
  by (auto simp: closed_generation_def later_def)

lemma closed_no_lease: "closed_generation a g \<Longrightarrow> \<not> holds_lease a ow g now"
  by (auto simp: closed_generation_def holds_lease_def)

lemma closed_commit_fails:
  assumes "dict_get (agent_actions s) k = Some a" and "closed_generation a g"
  shows "\<exists>e n. commit_agent_action_observation t k ob ow g nw us sp cs sb s = (Inl e, s\<lparr>tick := n\<rparr>)"
proof (cases rule: commit_cases [of t k ob ow g nw us sp cs sb s])
  case (refused e n)
  then show ?thesis by blast
next
  case (committed b now cp n)
  with assms closed_no_lease show ?thesis by auto
qed

text \<open>
  C8: The lease fence holds for ever: once a generation of an action is closed (the action was
  committed, cancelled, given up as uncertain, or claimed again under a higher generation), no
  commit under that generation succeeds in any later state, whatever its owner, time or
  observation, and the refused commit changes nothing of the store but the clock position.
\<close>

theorem stale_generation_never_commits:
  assumes "reachable s" and "store_steps s t"
    and "dict_get (agent_actions s) k = Some a" and "closed_generation a g"
  shows "\<exists>e n. commit_agent_action_observation tenant k ob owner g now us sp cs sb t
    = (Inl e, t\<lparr>tick := n\<rparr>)"
proof -
  obtain b where "dict_get (agent_actions t) k = Some b" "later a b"
    using later_actions [OF assms(2) reachable_actions_ok [OF assms(1)] assms(3)] by blast
  with assms(4) show ?thesis by (blast intro: closed_commit_fails closed_later)
qed

theorem stale_generation_never_commits_witness:
  "\<exists>e n. commit_agent_action_observation ''t1'' ''a1'' demo_observation ''w1'' 1 None [] [] ''sum''
     None (demo_store 7) = (Inl e, (demo_store 7)\<lparr>tick := n\<rparr>)"
proof (rule demo_actions)
  fix a b c
  assume c: "dict_get (agent_actions (demo_store 7)) ''a1'' = Some c" "ac_status c = AS_SUCCEEDED"
    "ac_lease_generation c = 1"
  then show ?thesis
    by (intro stale_generation_never_commits [OF demo_store_reachable steps_refl c(1)])
      (simp add: closed_generation_def)
qed

lemma committed_closed:
  assumes "holds_lease a ow g now"
  shows "closed_generation (committed_action a ob us now') g"
  using assms by (auto simp: closed_generation_def holds_lease_def committed_action_def)

lemma store_steps_op: "store_op (void m) \<Longrightarrow> store_steps s (snd (m s))"
  using steps_step [OF steps_refl] by (metis void_step)

lemma steps_commit:
  "store_steps s (snd (commit_agent_action_observation t k ob ow g nw us sp cs sb s))"
  and steps_claim: "store_steps s (snd (claim_agent_action t k ow ls nw s))"
  by (intro store_steps_op store_ops)+

text \<open>
  A lease generation commits at most once: after a commit under a generation succeeded,
  every later commit of that action under the same generation, by the same or another owner,
  fails and leaves action and checkpoints alone.
\<close>

theorem one_commit_per_generation:
  assumes "reachable s"
    and "commit_agent_action_observation tenant k ob owner g now us sp cs sb s = (Inr x, s1)"
    and "store_steps s1 t"
  shows "\<exists>e n. commit_agent_action_observation tenant' k ob' owner' g now' us' sp' cs' sb' t
    = (Inl e, t\<lparr>tick := n\<rparr>)"
proof (cases rule: commit_cases [of tenant k ob owner g now us sp cs sb s])
  case (committed a tm cp n)
  have "store_steps s s1"
    using steps_commit [of s tenant k ob owner g now us sp cs sb] assms(2) by simp
  then have "reachable s1" using assms(1) by (rule store_steps_reachable)
  moreover have "dict_get (agent_actions s1) k = Some (committed_action a ob us tm)"
    using committed(1) assms(2) by auto
  ultimately obtain b where "dict_get (agent_actions t) k = Some b"
    and "later (committed_action a ob us tm) b"
    using later_actions [OF assms(3) reachable_actions_ok] by blast
  with committed_closed [OF committed(5)] show ?thesis
    by (blast intro: closed_commit_fails closed_later)
qed (use assms(2) in simp)

lemma demo_commit:
  obtains x where "commit_agent_action_observation ''t1'' ''a1'' demo_observation ''w1'' 1
    (Some (Aware 5)) [] [] ''sum'' None (demo_store 6) = (Inr x, demo_store 7)"
proof (rule demo_actions)
  fix a b c
  assume b: "dict_get (agent_actions (demo_store 6)) ''a1'' = Some b" "ac_status b = AS_RUNNING"
    and c: "dict_get (agent_actions (demo_store 7)) ''a1'' = Some c" "ac_status c = AS_SUCCEEDED"
  show thesis
  proof (cases rule: commit_cases [of "''t1''" "''a1''" demo_observation "''w1''" 1
      "Some (Aware 5)" "[]" "[]" "''sum''" None "demo_store 6"])
    case (refused e n)
    then have "agent_actions (demo_store 7) = agent_actions (demo_store 6)"
      by (simp add: demo_store_7 void_step)
    with b c show thesis by simp
  next
    case (committed a now cp n)
    with that show thesis by (simp add: demo_store_7 void_step)
  qed
qed

theorem one_commit_per_generation_witness:
  "\<exists>e n. commit_agent_action_observation ''t1'' ''a1'' demo_observation ''w2'' 1 None [] [] ''sum''
     None (demo_store 7) = (Inl e, (demo_store 7)\<lparr>tick := n\<rparr>)"
proof (rule demo_commit)
  fix x
  assume "commit_agent_action_observation ''t1'' ''a1'' demo_observation ''w1'' 1
    (Some (Aware 5)) [] [] ''sum'' None (demo_store 6) = (Inr x, demo_store 7)"
  from one_commit_per_generation [OF demo_store_reachable this steps_refl] show ?thesis .
qed

text \<open>
  C9: Claims are exclusive: after a claim succeeded, as long as the action runs under that
  claim's generation it runs for that claim's owner and no claim of it succeeds, and a claim
  that succeeds in any later state carries a greater generation.
\<close>

theorem claims_are_exclusive:
  assumes "reachable s"
    and "claim_agent_action tenant k owner ls now s = (Inr (Some c), s1)"
    and "store_steps s1 t" and "dict_get (agent_actions t) k = Some a"
  shows "(ac_status a = AS_RUNNING \<and> ac_lease_generation a = ac_lease_generation c \<longrightarrow>
       ac_lease_owner_id a = Some owner
       \<and> (\<forall>tenant' owner' ls' now' d t'.
            claim_agent_action tenant' k owner' ls' now' t \<noteq> (Inr (Some d), t')))
    \<and> (\<forall>tenant' owner' ls' now' d t'.
         claim_agent_action tenant' k owner' ls' now' t = (Inr (Some d), t') \<longrightarrow>
         ac_lease_generation c < ac_lease_generation d)"
proof (cases rule: claim_cases [of tenant k owner ls now s])
  case (claimed a0 tm n)
  have "store_steps s s1"
    using steps_claim [of s tenant k owner ls now] assms(2) by simp
  then have r1: "reachable s1" using assms(1) by (rule store_steps_reachable)
  from claimed(1) assms(2) have c: "c = claimed_action a0 owner tm ls"
    and s1: "dict_get (agent_actions s1) k = Some c" by auto
  from later_actions [OF assms(3) reachable_actions_ok [OF r1] s1] assms(4)
  have later: "later c a" by auto
  have gen: "ac_lease_generation d = ac_lease_generation a + 1 \<and> ac_status a = AS_PENDING"
    if "claim_agent_action tenant' k owner' ls' now' t = (Inr (Some d), t')"
    for tenant' owner' ls' now' d t'
    using that assms(4)
    by (cases rule: claim_cases [of tenant' k owner' ls' now' t]) (auto simp: claimed_action_def)
  from later c show ?thesis
    by (auto simp: later_def claimed_action_def dest: gen)
qed (use assms(2) in simp_all)

lemma demo_claim:
  obtains c where "claim_agent_action ''t1'' ''a1'' ''w1'' 30 (Some (Aware 0)) (demo_store 5)
    = (Inr (Some c), demo_store 6)" and "ac_lease_generation c = 1"
    and "dict_get (agent_actions (demo_store 6)) ''a1'' = Some c"
    and "lease_lost ''t1'' 30000000 c"
proof (rule demo_actions)
  fix a b c
  assume a: "dict_get (agent_actions (demo_store 5)) ''a1'' = Some a" "ac_status a = AS_PENDING"
    and b: "dict_get (agent_actions (demo_store 6)) ''a1'' = Some b" "ac_status b = AS_RUNNING"
      "ac_lease_generation b = 1"
  show thesis
  proof (cases rule: claim_cases [of "''t1''" "''a1''" "''w1''" 30 "Some (Aware 0)" "demo_store 5"])
    case (refused e n)
    then have "agent_actions (demo_store 6) = agent_actions (demo_store 5)"
      by (simp add: demo_store_6 void_step)
    with a b show thesis by simp
  next
    case (unavailable n)
    then have "agent_actions (demo_store 6) = agent_actions (demo_store 5)"
      by (simp add: demo_store_6 void_step)
    with a b show thesis by simp
  next
    case (claimed a' now n)
    then have "dict_get (agent_actions (demo_store 6)) ''a1''
        = Some (claimed_action a' ''w1'' now 30)"
      by (simp add: demo_store_6 void_step)
    moreover from claimed have "now = 0" by simp
    ultimately have "claimed_action a' ''w1'' now 30 = b" and "lease_lost ''t1'' 30000000 b"
      using b claimed by (auto simp: lease_lost_def claimed_action_def)
    with b claimed that show thesis by (simp add: demo_store_6 void_step)
  qed
qed

theorem claims_are_exclusive_witness:
  "\<forall>d t'. claim_agent_action ''t1'' ''a1'' ''w2'' 30 None (demo_store 6) \<noteq> (Inr (Some d), t')"
proof (rule demo_actions, rule demo_claim)
  fix a b c d
  assume b: "dict_get (agent_actions (demo_store 6)) ''a1'' = Some b" "ac_status b = AS_RUNNING"
      "ac_lease_generation b = 1"
    and d: "claim_agent_action ''t1'' ''a1'' ''w1'' 30 (Some (Aware 0)) (demo_store 5)
      = (Inr (Some d), demo_store 6)" "ac_lease_generation d = 1"
  from claims_are_exclusive [OF demo_store_reachable d(1) steps_refl b(1)] b d show ?thesis by simp
qed

text \<open>
  A commit is all or nothing: at a given time it succeeds exactly when the action exists,
  belongs to the tenant, is the observation's action, and is running under the caller's
  unexpired lease and generation (and the checkpoint has a checksum); then it stores the
  finished action and one checkpoint with the run's next number, and nothing else but the
  clock position changes; otherwise the store keeps both tables as they were.
\<close>

theorem commit_is_atomic:
  "(case commit_agent_action_observation tenant k ob owner g (Some (Aware now)) us sp cs sb s of
      (Inl e, s') \<Rightarrow> (\<exists>n. s' = s\<lparr>tick := n\<rparr>)
        \<and> \<not> (\<exists>a. dict_get (agent_actions s) k = Some a \<and> ac_tenant_id a = tenant
             \<and> ob_action_id ob = ac_id a \<and> holds_lease a owner g now \<and> cs \<noteq> [])
    | (Inr (b, cp), s') \<Rightarrow>
        (\<exists>a n. dict_get (agent_actions s) k = Some a \<and> ac_tenant_id a = tenant
           \<and> ob_action_id ob = ac_id a \<and> holds_lease a owner g now \<and> cs \<noteq> []
           \<and> b = committed_action a ob us now
           \<and> cp_run_id cp = ac_run_id a \<and> cp_checksum cp = cs \<and> cp_state_payload cp = sp
           \<and> cp_last_committed_action_id cp = Some (ac_id a)
           \<and> cp_sequence cp = next_checkpoint_sequence (ac_run_id a) s
           \<and> s' = s\<lparr>tick := n, agent_actions := dict_set k b (agent_actions s),
               agent_checkpoints := dict_append (cp_run_id cp) cp (agent_checkpoints s)\<rparr>))"
proof (cases rule: commit_cases [of tenant k ob owner g "Some (Aware now)" us sp cs sb s])
  case (refused e n)
  have "False" if "dict_get (agent_actions s) k = Some a" and "ac_tenant_id a = tenant"
    and "ob_action_id ob = ac_id a" and "holds_lease a owner g now" and "cs \<noteq> []" for a
    using refused that by (simp add: commit_agent_action_observation_def get_agent_action_def
        op_simps lease_time_def new_id_eval append_checkpoint_def put_action_def Let_def)
  with refused show ?thesis by auto
next
  case (committed a tm cp n)
  then have "tm = now" by simp
  with committed show ?thesis by auto
qed

section \<open>Recovery of lost leases\<close>

lemma sort_key_expired:
  "set (expired_actions t now n s) \<subseteq> {a \<in> set (dict_values (agent_actions s)). lease_lost t now a}"
  by (auto simp: expired_actions_def dest: in_set_takeD)

lemma expired_actions_complete:
  assumes "length (expired_actions t now n s) < n"
  shows "set (expired_actions t now n s) = {a \<in> set (dict_values (agent_actions s)). lease_lost t now a}"
  using assms by (auto simp: expired_actions_def min_def split: if_splits)

text \<open>
  C10: Recovery gives up exactly the lost leases: it returns at most \<open>limit\<close> actions, each of
  which was running for the tenant with an expired lease and is now uncertain (never pending:
  nothing is silently run twice); every other action is unchanged; and when fewer than
  \<open>limit\<close> were found, no running action of the tenant with an expired lease is left.
\<close>

theorem recovery_gives_up_lost_leases:
  assumes "reachable s"
    and "recover_expired_agent_actions tenant (Some (Aware now)) limit s = (Inr found, s')"
  shows "int (length found) \<le> limit
    \<and> (\<forall>b \<in> set found. ac_status b = AS_UNCERTAIN \<and> dict_get (agent_actions s') (ac_id b) = Some b
         \<and> (\<exists>a. dict_get (agent_actions s) (ac_id b) = Some a \<and> lease_lost tenant now a
              \<and> b = give_up a))
    \<and> (\<forall>k a. dict_get (agent_actions s) k = Some a \<longrightarrow> k \<notin> ac_id ` set found \<longrightarrow>
         dict_get (agent_actions s') k = Some a)
    \<and> (int (length found) < limit \<longrightarrow>
         (\<forall>k a. dict_get (agent_actions s') k = Some a \<longrightarrow> \<not> lease_lost tenant now a))"
proof -
  let ?ex = "expired_actions tenant now (nat limit) s"
  note ok = reachable_actions_ok [OF assms(1)]
  from assms(2) have lim: "1 \<le> limit" and found: "found = map give_up ?ex"
    and s': "agent_actions s' = foldl (\<lambda>d a. dict_set (ac_id a) (give_up a) d) (agent_actions s) ?ex"
    by (auto simp: recover_eq op_simps lease_time_def split: if_splits)
  have ids [simp]: "ac_id (give_up a) = ac_id a" "ac_status (give_up a) = AS_UNCERTAIN" for a
    by (simp_all add: give_up_def)
  have mem: "dict_get (agent_actions s) (ac_id a) = Some a" "lease_lost tenant now a"
    if "a \<in> set ?ex" for a
    using expired_actions_mem [OF ok that] by simp_all
  have get: "dict_get (agent_actions s') k
      = (if k \<in> ac_id ` set ?ex then map_option give_up (dict_get (agent_actions s) k)
         else dict_get (agent_actions s) k)" for k
    unfolding s' using give_up_get [of ?ex "agent_actions s" k] mem by auto
  have "length ?ex \<le> nat limit" by (simp add: expired_actions_def)
  then have len: "int (length found) \<le> limit" using lim found by simp
  have all: "\<not> lease_lost tenant now a"
    if less: "int (length found) < limit" and a: "dict_get (agent_actions s') k = Some a" for k a
  proof
    assume lost: "lease_lost tenant now a"
    then have run: "ac_status a = AS_RUNNING" by (simp add: lease_lost_def)
    with a get have k: "k \<notin> ac_id ` set ?ex" and a0: "dict_get (agent_actions s) k = Some a"
      by (auto split: if_splits)
    have "a \<in> set ?ex"
      using expired_actions_complete [of tenant now "nat limit" s] less found lost
        dict_get_values [OF a0] by auto
    with k a0 ok show False by (auto simp: actions_ok_def)
  qed
  have [simp]: "ac_id ` give_up ` A = ac_id ` A" for A by (simp add: image_image)
  show ?thesis
    using len all mem by (auto simp: found get)
qed

theorem recovery_gives_up_lost_leases_witness:
  "\<exists>b found s'. recover_expired_agent_actions ''t1'' (Some (Aware 30000000)) 1 (demo_store 6)
     = (Inr (b # found), s') \<and> ac_status b = AS_UNCERTAIN"
proof (rule demo_claim)
  fix c assume c: "dict_get (agent_actions (demo_store 6)) ''a1'' = Some c"
    "lease_lost ''t1'' 30000000 c"
  obtain found s' where r: "recover_expired_agent_actions ''t1'' (Some (Aware 30000000)) 1
      (demo_store 6) = (Inr found, s')"
    by (simp add: recover_eq op_simps lease_time_def)
  note * = recovery_gives_up_lost_leases [OF demo_store_reachable r]
  have "found \<noteq> []"
  proof
    assume "found = []"
    with * c show False by fastforce
  qed
  with * r show ?thesis by (cases found) auto
qed

end
