(* ===== verification/JobModels.thy ===== *)
theory JobModels
  imports Prelude
begin

text \<open>
  \<^verbatim>\<open>taroai/workers/models.py\<close>: job types, job status, the envelope a queue stores, and what the
  operations of \<^verbatim>\<open>workers/queue.py\<close> do to one envelope. The payload is the JSON object that
  \<open>payload.model_dump\<close> returned.
\<close>

datatype job_type =
    JT_RUN_EXECUTION | JT_TRIGGER_DUE | JT_RESTORE_DRILL_DUE | JT_RESTORE_DRILL_EXECUTION
  | JT_RESTORE_DRILL_EVIDENCE | JT_CONNECTOR_SYNC | JT_BILLING_AGGREGATION | JT_CLEANUP

fun job_type_value :: "job_type \<Rightarrow> string" where
  "job_type_value JT_RUN_EXECUTION = ''runs.execute''"
| "job_type_value JT_TRIGGER_DUE = ''triggers.due''"
| "job_type_value JT_RESTORE_DRILL_DUE = ''restore_drill.due''"
| "job_type_value JT_RESTORE_DRILL_EXECUTION = ''restore_drill.execute''"
| "job_type_value JT_RESTORE_DRILL_EVIDENCE = ''restore_drill.evidence''"
| "job_type_value JT_CONNECTOR_SYNC = ''connectors.sync''"
| "job_type_value JT_BILLING_AGGREGATION = ''billing.aggregate''"
| "job_type_value JT_CLEANUP = ''system.cleanup''"

lemma job_type_value_inject [simp]: "job_type_value a = job_type_value b \<longleftrightarrow> a = b"
  by (cases a; cases b) simp_all

text \<open>\<open>for current_type in JobType\<close> iterates in the order of the class.\<close>

instantiation job_type :: enum
begin

definition enum_job_type :: "job_type list" where
  "enum_job_type =
     [JT_RUN_EXECUTION, JT_TRIGGER_DUE, JT_RESTORE_DRILL_DUE, JT_RESTORE_DRILL_EXECUTION,
      JT_RESTORE_DRILL_EVIDENCE, JT_CONNECTOR_SYNC, JT_BILLING_AGGREGATION, JT_CLEANUP]"

definition enum_all_job_type :: "(job_type \<Rightarrow> bool) \<Rightarrow> bool" where
  "enum_all_job_type p \<longleftrightarrow> list_all p enum_class.enum"

definition enum_ex_job_type :: "(job_type \<Rightarrow> bool) \<Rightarrow> bool" where
  "enum_ex_job_type p \<longleftrightarrow> list_ex p enum_class.enum"

lemma set_enum_job_type: "x \<in> set (enum_class.enum :: job_type list)"
  by (cases x) (simp_all add: enum_job_type_def)

instance
proof
  show univ: "(UNIV :: job_type set) = set enum_class.enum"
    using set_enum_job_type by blast
  show "distinct (enum_class.enum :: job_type list)" by (simp add: enum_job_type_def)
  show "enum_class.enum_all P \<longleftrightarrow> Ball UNIV P" for P :: "job_type \<Rightarrow> bool"
    by (simp add: enum_all_job_type_def list_all_iff univ)
  show "enum_class.enum_ex P \<longleftrightarrow> Bex UNIV P" for P :: "job_type \<Rightarrow> bool"
    by (simp add: enum_ex_job_type_def list_ex_iff univ)
qed

end

datatype job_status =
    JS_PENDING | JS_RUNNING | JS_SUCCEEDED | JS_FAILED | JS_DEAD_LETTER | JS_CANCELLED

record job =
  jb_id :: string
  jb_type :: job_type
  jb_payload :: json_obj
  jb_status :: job_status
  jb_created_at :: datetime
  jb_available_at :: datetime
  jb_started_at :: "datetime option"
  jb_completed_at :: "datetime option"
  jb_lease_expires_at :: "datetime option"
  jb_worker_id :: "string option"
  jb_attempts :: int
  jb_max_attempts :: int
  jb_error :: "string option"

section \<open>Updates of one envelope\<close>

definition new_job :: "string \<Rightarrow> job_type \<Rightarrow> json_obj \<Rightarrow> datetime \<Rightarrow> int \<Rightarrow> job" where
  "new_job job_id job_type payload now max_attempts =
     \<lparr>jb_id = job_id, jb_type = job_type, jb_payload = payload, jb_status = JS_PENDING,
      jb_created_at = now, jb_available_at = now, jb_started_at = None, jb_completed_at = None,
      jb_lease_expires_at = None, jb_worker_id = None, jb_attempts = 0,
      jb_max_attempts = max_attempts, jb_error = None\<rparr>"

definition claimed_job :: "string \<Rightarrow> datetime \<Rightarrow> int \<Rightarrow> job \<Rightarrow> job" where
  "claimed_job worker_id now lease_seconds j = j\<lparr>
     jb_status := JS_RUNNING, jb_worker_id := Some worker_id, jb_started_at := Some now,
     jb_lease_expires_at := Some (now + lease_seconds * 1000000),
     jb_attempts := jb_attempts j + 1, jb_error := None\<rparr>"

definition acked_job :: "datetime \<Rightarrow> job \<Rightarrow> job" where
  "acked_job now j = j\<lparr>jb_status := JS_SUCCEEDED, jb_completed_at := Some now,
     jb_lease_expires_at := None, jb_error := None\<rparr>"

definition failed_job :: "string \<Rightarrow> datetime \<Rightarrow> job \<Rightarrow> job" where
  "failed_job err now j = j\<lparr>jb_status := JS_FAILED, jb_completed_at := Some now,
     jb_lease_expires_at := None, jb_error := Some err\<rparr>"

definition requeued_job :: "string \<Rightarrow> datetime \<Rightarrow> job \<Rightarrow> job" where
  "requeued_job err available_at j = j\<lparr>jb_status := JS_PENDING, jb_available_at := available_at,
     jb_lease_expires_at := None, jb_worker_id := None, jb_completed_at := None,
     jb_error := Some err\<rparr>"

definition dead_job :: "string \<Rightarrow> datetime \<Rightarrow> job \<Rightarrow> job" where
  "dead_job err now j = j\<lparr>jb_status := JS_DEAD_LETTER, jb_completed_at := Some now,
     jb_lease_expires_at := None, jb_error := Some err\<rparr>"

text \<open>What \<open>reject\<close> and \<open>reap_expired_leases\<close> make of a job: retried while attempts remain.\<close>

definition retried_job :: "string \<Rightarrow> datetime \<Rightarrow> datetime \<Rightarrow> job \<Rightarrow> job" where
  "retried_job err available_at now j =
     (if jb_attempts j < jb_max_attempts j then requeued_job err available_at j
      else dead_job err now j)"

definition lease_expired :: "datetime \<Rightarrow> job \<Rightarrow> bool" where
  "lease_expired now j \<longleftrightarrow> jb_status j = JS_RUNNING
     \<and> (case jb_lease_expires_at j of None \<Rightarrow> False | Some t \<Rightarrow> t \<le> now)"

definition reapable :: "job_type option \<Rightarrow> datetime \<Rightarrow> job \<Rightarrow> bool" where
  "reapable job_type now j \<longleftrightarrow>
     (job_type = None \<or> job_type = Some (jb_type j)) \<and> lease_expired now j"

definition claimable_job :: "job_type \<Rightarrow> datetime \<Rightarrow> job \<Rightarrow> bool" where
  "claimable_job job_type now j \<longleftrightarrow>
     jb_type j = job_type \<and> jb_status j = JS_PENDING \<and> jb_available_at j \<le> now"

text \<open>The fields no update of an envelope touches.\<close>

lemmas job_updates = claimed_job_def acked_job_def failed_job_def requeued_job_def dead_job_def
  retried_job_def

lemma job_update_ids [simp]:
  "jb_id (claimed_job w n l j) = jb_id j" "jb_id (acked_job n j) = jb_id j"
  "jb_id (failed_job e n j) = jb_id j" "jb_id (retried_job e a n j) = jb_id j"
  "jb_type (claimed_job w n l j) = jb_type j" "jb_type (acked_job n j) = jb_type j"
  "jb_type (failed_job e n j) = jb_type j" "jb_type (retried_job e a n j) = jb_type j"
  "jb_max_attempts (claimed_job w n l j) = jb_max_attempts j"
  "jb_max_attempts (acked_job n j) = jb_max_attempts j"
  "jb_max_attempts (failed_job e n j) = jb_max_attempts j"
  "jb_max_attempts (retried_job e a n j) = jb_max_attempts j"
  by (simp_all add: job_updates)

lemma job_update_attempts [simp]:
  "jb_attempts (claimed_job w n l j) = jb_attempts j + 1"
  "jb_attempts (acked_job n j) = jb_attempts j" "jb_attempts (failed_job e n j) = jb_attempts j"
  "jb_attempts (retried_job e a n j) = jb_attempts j"
  "jb_attempts (new_job i ty pl n mx) = 0"
  by (simp_all add: job_updates new_job_def)

lemma job_update_status [simp]:
  "jb_status (claimed_job w n l j) = JS_RUNNING"
  "jb_status (acked_job n j) = JS_SUCCEEDED" "jb_status (failed_job e n j) = JS_FAILED"
  "jb_status (retried_job e a n j) =
     (if jb_attempts j < jb_max_attempts j then JS_PENDING else JS_DEAD_LETTER)"
  by (simp_all add: job_updates)

text \<open>The time an operation works with: the caller's, or the clock's.\<close>

definition resolve_now :: "datetime option \<Rightarrow> ('b world_scheme, datetime) op" where
  "resolve_now now = (case now of None \<Rightarrow> utc_now | Some t \<Rightarrow> ret t)"

lemma resolve_now_cases:
  obtains t n where "resolve_now now s = (Inr t, s\<lparr>tick := n\<rparr>)" and "tick s \<le> n"
    and "\<And>x. now = Some x \<Longrightarrow> t = x"
proof (cases now)
  case None
  show thesis
    by (rule that [of "clock s (tick s)" "Suc (tick s)"])
      (simp_all add: None resolve_now_def utc_now_def)
next
  case (Some x)
  show thesis
    by (rule that [of x "tick s"]) (simp_all add: Some resolve_now_def ret_def)
qed

end
