(* ===== verification/JobQueue.thy ===== *)
theory JobQueue
  imports JobModels
begin

text \<open>
  The contract of class \<open>JobQueue\<close> (\<^verbatim>\<open>workers/queue.py\<close>) as a locale: what each operation does
  to the jobs, seen as a map from identifiers to envelopes. Both implementations are shown to
  keep it, and what a worker relies on is proved here once: every job is handed out at most
  \<open>max_attempts\<close> times, never while another worker's lease on it lasts, and no job is lost.
\<close>

type_synonym job_map = "string \<Rightarrow> job option"

definition stamp :: "datetime option \<Rightarrow> datetime \<Rightarrow> bool" where
  "stamp now t \<longleftrightarrow> (\<forall>x. now = Some x \<longrightarrow> t = x)"

text \<open>The jobs after the reaper ran: expired leases are retried or given up.\<close>

definition reaped_job :: "job_type option \<Rightarrow> datetime \<Rightarrow> string \<Rightarrow> job \<Rightarrow> job" where
  "reaped_job jt t err j = (if reapable jt t j then retried_job err t t j else j)"

definition reaped_map :: "job_type option \<Rightarrow> datetime \<Rightarrow> string \<Rightarrow> job_map \<Rightarrow> job_map" where
  "reaped_map jt t err m = (\<lambda>i. map_option (reaped_job jt t err) (m i))"

definition lease_error :: string where
  "lease_error = ''worker lease expired''"

text \<open>One call of a client, and its effect: the job it delivered (a claim) and the new state.\<close>

datatype queue_call =
    Q_enqueue job_type json_obj "datetime option" int
  | Q_claim job_type string "datetime option" int
  | Q_ack string "datetime option"
  | Q_fail string string "datetime option"
  | Q_reject string string "datetime option" int
  | Q_reap "job_type option" "datetime option" string

definition delivered :: "((error + job option) \<times> 's) option \<Rightarrow> 's \<Rightarrow> job option \<times> 's" where
  "delivered r q = (case r of
       None \<Rightarrow> (None, q)
     | Some (Inl e, q') \<Rightarrow> (None, q')
     | Some (Inr d, q') \<Rightarrow> (d, q'))"

text \<open>The jobs a sequence of calls delivers, in order, and the state it ends in.\<close>

fun deliveries :: "(queue_call \<Rightarrow> 's \<Rightarrow> job option \<times> 's) \<Rightarrow> queue_call list \<Rightarrow> 's \<Rightarrow> job list \<times> 's" where
  "deliveries exec [] q = ([], q)"
| "deliveries exec (c # cs) q =
     (case exec c q of (d, q') \<Rightarrow>
        (case deliveries exec cs q' of (ds, q'') \<Rightarrow>
           ((case d of None \<Rightarrow> ds | Some j \<Rightarrow> j # ds), q'')))"

text \<open>Attempts are counted and bounded.\<close>

definition jobs_sound :: "job_map \<Rightarrow> bool" where
  "jobs_sound m \<longleftrightarrow> (\<forall>i j. m i = Some j \<longrightarrow>
     jb_id j = i \<and> 0 \<le> jb_attempts j \<and> jb_attempts j \<le> jb_max_attempts j
     \<and> (jb_status j = JS_PENDING \<longrightarrow> jb_attempts j < jb_max_attempts j))"

text \<open>How a call moves the jobs: each stays, with its identity, and one attempt is counted
  for the job that is delivered.\<close>

definition counted :: "job option \<Rightarrow> job_map \<Rightarrow> job_map \<Rightarrow> bool" where
  "counted d m m' \<longleftrightarrow>
     (\<forall>i j. m i = Some j \<longrightarrow> (\<exists>j'. m' i = Some j' \<and> jb_max_attempts j' = jb_max_attempts j
        \<and> jb_type j' = jb_type j
        \<and> jb_attempts j' = jb_attempts j + (if map_option jb_id d = Some i then 1 else 0)))
     \<and> (\<forall>i j'. m i = None \<longrightarrow> m' i = Some j' \<longrightarrow> jb_attempts j' = 0 \<and> map_option jb_id d \<noteq> Some i)"

lemma jobs_sound_upd:
  "jobs_sound m \<Longrightarrow> jb_id j = i \<Longrightarrow> 0 \<le> jb_attempts j \<Longrightarrow> jb_attempts j \<le> jb_max_attempts j \<Longrightarrow>
   (jb_status j = JS_PENDING \<Longrightarrow> jb_attempts j < jb_max_attempts j) \<Longrightarrow> jobs_sound (m(i \<mapsto> j))"
  by (auto simp: jobs_sound_def)

lemma jobs_soundD:
  assumes "jobs_sound m" and "m i = Some j"
  shows "jb_id j = i" and "0 \<le> jb_attempts j" and "jb_attempts j \<le> jb_max_attempts j"
    and "jb_status j = JS_PENDING \<Longrightarrow> jb_attempts j < jb_max_attempts j"
  using assms by (auto simp: jobs_sound_def)

lemma reaped_job_simps [simp]:
  "jb_id (reaped_job jt t e j) = jb_id j" "jb_type (reaped_job jt t e j) = jb_type j"
  "jb_max_attempts (reaped_job jt t e j) = jb_max_attempts j"
  "jb_attempts (reaped_job jt t e j) = jb_attempts j"
  by (simp_all add: reaped_job_def job_updates)

lemma reaped_job_pending:
  "jb_status (reaped_job jt t e j) = JS_PENDING \<longleftrightarrow>
     jb_status j = JS_PENDING \<or> reapable jt t j \<and> jb_attempts j < jb_max_attempts j"
  by (auto simp: reaped_job_def job_updates reapable_def lease_expired_def)

lemma jobs_sound_reaped: "jobs_sound m \<Longrightarrow> jobs_sound (reaped_map jt t e m)"
  by (auto simp: jobs_sound_def reaped_map_def reaped_job_pending)

lemma counted_reaped: "counted None m (reaped_map jt t e m)"
  by (auto simp: counted_def reaped_map_def)

lemma counted_refl: "counted None m m"
  by (auto simp: counted_def)

lemma counted_upd:
  "m i = Some j \<Longrightarrow> jb_max_attempts j' = jb_max_attempts j \<Longrightarrow> jb_type j' = jb_type j \<Longrightarrow>
   jb_attempts j' = jb_attempts j \<Longrightarrow> counted None m (m(i \<mapsto> j'))"
  by (auto simp: counted_def)

lemma single_update:
  assumes "jobs_sound m" and "m i = Some j"
    and "jb_id j' = jb_id j" and "jb_type j' = jb_type j"
    and "jb_max_attempts j' = jb_max_attempts j" and "jb_attempts j' = jb_attempts j"
    and "jb_status j' = JS_PENDING \<Longrightarrow> jb_attempts j < jb_max_attempts j"
  shows "jobs_sound (m(i \<mapsto> j')) \<and> counted None m (m(i \<mapsto> j'))"
proof
  note j = jobs_soundD [OF assms(1,2)]
  show "jobs_sound (m(i \<mapsto> j'))"
    by (rule jobs_sound_upd [OF assms(1)]) (use j assms(3-) in simp_all)
  show "counted None m (m(i \<mapsto> j'))"
    by (rule counted_upd [of m i j]) (use assms in simp_all)
qed

text \<open>How often a job was delivered.\<close>

definition count_of :: "string \<Rightarrow> job list \<Rightarrow> int" where
  "count_of i ds = int (length (filter (\<lambda>j. jb_id j = i) ds))"

lemma count_of_simps [simp]:
  "count_of i [] = 0"
  "count_of i (d # ds) = (if jb_id d = i then 1 else 0) + count_of i ds"
  by (simp_all add: count_of_def)

text \<open>Jobs after a sequence of calls: none is lost, and each delivery was one attempt.\<close>

definition counted_run :: "job list \<Rightarrow> job_map \<Rightarrow> job_map \<Rightarrow> bool" where
  "counted_run ds m m' \<longleftrightarrow>
     (\<forall>i j. m i = Some j \<longrightarrow> (\<exists>j'. m' i = Some j' \<and> jb_max_attempts j' = jb_max_attempts j
        \<and> jb_type j' = jb_type j \<and> jb_attempts j' = jb_attempts j + count_of i ds))
     \<and> (\<forall>i j'. m i = None \<longrightarrow> m' i = Some j' \<longrightarrow> jb_attempts j' = count_of i ds)
     \<and> (\<forall>i. m' i = None \<longrightarrow> count_of i ds = 0)"

lemma counted_run_Nil: "counted_run [] m m"
  by (simp add: counted_run_def)

lemma counted_run_Cons:
  assumes c: "counted d m m1" and r: "counted_run ds m1 m2"
    and known: "\<And>j. d = Some j \<Longrightarrow> m (jb_id j) \<noteq> None"
  shows "counted_run (case d of None \<Rightarrow> ds | Some j \<Rightarrow> j # ds) m m2"
proof -
  let ?hit = "\<lambda>i. if map_option jb_id d = Some i then 1 else (0::int)"
  have cnt: "count_of i (case d of None \<Rightarrow> ds | Some j \<Rightarrow> j # ds) = ?hit i + count_of i ds" for i
    by (cases d) auto
  have c1: "\<exists>j1. m1 i = Some j1 \<and> jb_max_attempts j1 = jb_max_attempts j \<and> jb_type j1 = jb_type j
      \<and> jb_attempts j1 = jb_attempts j + ?hit i" if "m i = Some j" for i j
    using c that unfolding counted_def by blast
  have c2: "jb_attempts j1 = 0 \<and> ?hit i = 0" if "m i = None" "m1 i = Some j1" for i j1
    using c that unfolding counted_def by simp
  have r1: "\<exists>j2. m2 i = Some j2 \<and> jb_max_attempts j2 = jb_max_attempts j \<and> jb_type j2 = jb_type j
      \<and> jb_attempts j2 = jb_attempts j + count_of i ds" if "m1 i = Some j" for i j
    using r that unfolding counted_run_def by blast
  have r2: "jb_attempts j2 = count_of i ds" if "m1 i = None" "m2 i = Some j2" for i j2
    using r that unfolding counted_run_def by blast
  have r3: "count_of i ds = 0" if "m2 i = None" for i
    using r that unfolding counted_run_def by blast
  have hit: "?hit i = 0" if "m i = None" for i
    using known that by (cases d) auto
  show ?thesis
    unfolding counted_run_def cnt
  proof (intro conjI allI impI)
    fix i j assume "m i = Some j"
    from c1 [OF this] obtain j1 where j1: "m1 i = Some j1" "jb_max_attempts j1 = jb_max_attempts j"
      "jb_type j1 = jb_type j" "jb_attempts j1 = jb_attempts j + ?hit i" by blast
    with r1 [OF j1(1)] show "\<exists>j'. m2 i = Some j' \<and> jb_max_attempts j' = jb_max_attempts j
        \<and> jb_type j' = jb_type j \<and> jb_attempts j' = jb_attempts j + (?hit i + count_of i ds)"
      by (auto simp: algebra_simps)
  next
    fix i j' assume m: "m i = None" "m2 i = Some j'"
    show "jb_attempts j' = ?hit i + count_of i ds"
    proof (cases "m1 i")
      case None
      with r2 m hit [OF m(1)] show ?thesis by simp
    next
      case (Some j1)
      with c2 [OF m(1) Some] r1 [OF Some] m show ?thesis by auto
    qed
  next
    fix i assume "m2 i = None"
    moreover from this have "m1 i = None" using r1 [of i] by (cases "m1 i") simp_all
    moreover from this have "m i = None" using c1 [of i] by (cases "m i") simp_all
    ultimately show "?hit i + count_of i ds = 0" using r3 hit by simp
  qed
qed

locale job_queue =
  fixes inv :: "'b world_scheme \<Rightarrow> bool"
    and jobs_of :: "'b world_scheme \<Rightarrow> job_map"
    and enqueue :: "job_type \<Rightarrow> json_obj \<Rightarrow> datetime option \<Rightarrow> int \<Rightarrow> ('b world_scheme, job) op"
    and claim :: "job_type \<Rightarrow> string \<Rightarrow> datetime option \<Rightarrow> int \<Rightarrow> 'b world_scheme
      \<Rightarrow> ((error + job option) \<times> 'b world_scheme) option"
    and ack :: "string \<Rightarrow> datetime option \<Rightarrow> ('b world_scheme, job) op"
    and fail :: "string \<Rightarrow> string \<Rightarrow> datetime option \<Rightarrow> ('b world_scheme, job) op"
    and reject :: "string \<Rightarrow> string \<Rightarrow> datetime option \<Rightarrow> int \<Rightarrow> ('b world_scheme, job) op"
    and reap :: "job_type option \<Rightarrow> datetime option \<Rightarrow> string \<Rightarrow> ('b world_scheme, job list) op"
  assumes keyed: "inv q \<Longrightarrow> jobs_of q i = Some j \<Longrightarrow> jb_id j = i"
    and enqueue_law: "inv q \<Longrightarrow>
      (if mx < 1 then \<exists>e q'. enqueue ty pl now mx q = (Inl e, q') \<and> inv q' \<and> jobs_of q' = jobs_of q
       else \<exists>i t q'. enqueue ty pl now mx q = (Inr (new_job i ty pl t mx), q') \<and> stamp now t
         \<and> inv q' \<and> jobs_of q i = None \<and> jobs_of q' = (jobs_of q)(i \<mapsto> new_job i ty pl t mx))"
    and claim_law: "inv q \<Longrightarrow>
      \<exists>t d q'. claim ty w now l q = Some (Inr d, q') \<and> stamp now t \<and> inv q'
        \<and> (case d of
             None \<Rightarrow> jobs_of q' = reaped_map (Some ty) t lease_error (jobs_of q)
           | Some j' \<Rightarrow> \<exists>j. reaped_map (Some ty) t lease_error (jobs_of q) (jb_id j) = Some j
               \<and> claimable_job ty t j \<and> j' = claimed_job w t l j
               \<and> jobs_of q' = (reaped_map (Some ty) t lease_error (jobs_of q))(jb_id j \<mapsto> j'))"
    and ack_law: "inv q \<Longrightarrow>
      (case jobs_of q i of
         None \<Rightarrow> \<exists>m q'. ack i now q = (Inl (NotFoundError m), q') \<and> inv q' \<and> jobs_of q' = jobs_of q
       | Some j \<Rightarrow> \<exists>t q'. ack i now q = (Inr (acked_job t j), q') \<and> stamp now t \<and> inv q'
           \<and> jobs_of q' = (jobs_of q)(i \<mapsto> acked_job t j))"
    and fail_law: "inv q \<Longrightarrow>
      (case jobs_of q i of
         None \<Rightarrow> \<exists>m q'. fail i e now q = (Inl (NotFoundError m), q') \<and> inv q' \<and> jobs_of q' = jobs_of q
       | Some j \<Rightarrow> \<exists>t q'. fail i e now q = (Inr (failed_job e t j), q') \<and> stamp now t \<and> inv q'
           \<and> jobs_of q' = (jobs_of q)(i \<mapsto> failed_job e t j))"
    and reject_law: "inv q \<Longrightarrow>
      (case jobs_of q i of
         None \<Rightarrow> \<exists>m q'. reject i e now d q = (Inl (NotFoundError m), q') \<and> inv q'
           \<and> jobs_of q' = jobs_of q
       | Some j \<Rightarrow> \<exists>t q'. reject i e now d q = (Inr (retried_job e (t + d * 1000000) t j), q')
           \<and> stamp now t \<and> inv q'
           \<and> jobs_of q' = (jobs_of q)(i \<mapsto> retried_job e (t + d * 1000000) t j))"
    and reap_law: "inv q \<Longrightarrow>
      \<exists>t rs q'. reap jt now e q = (Inr rs, q') \<and> stamp now t \<and> inv q'
        \<and> jobs_of q' = reaped_map jt t e (jobs_of q)
        \<and> set rs = {retried_job e t t j | i j. jobs_of q i = Some j \<and> reapable jt t j}"

definition exec_call ::
  "(job_type \<Rightarrow> json_obj \<Rightarrow> datetime option \<Rightarrow> int \<Rightarrow> ('s, job) op)
   \<Rightarrow> (job_type \<Rightarrow> string \<Rightarrow> datetime option \<Rightarrow> int \<Rightarrow> 's \<Rightarrow> ((error + job option) \<times> 's) option)
   \<Rightarrow> (string \<Rightarrow> datetime option \<Rightarrow> ('s, job) op)
   \<Rightarrow> (string \<Rightarrow> string \<Rightarrow> datetime option \<Rightarrow> ('s, job) op)
   \<Rightarrow> (string \<Rightarrow> string \<Rightarrow> datetime option \<Rightarrow> int \<Rightarrow> ('s, job) op)
   \<Rightarrow> (job_type option \<Rightarrow> datetime option \<Rightarrow> string \<Rightarrow> ('s, job list) op)
   \<Rightarrow> queue_call \<Rightarrow> 's \<Rightarrow> job option \<times> 's" where
  "exec_call enq cl ack fl rej reap c q =
     (case c of
        Q_enqueue ty pl now mx \<Rightarrow> (None, snd (enq ty pl now mx q))
      | Q_claim ty w now l \<Rightarrow> delivered (cl ty w now l q) q
      | Q_ack i now \<Rightarrow> (None, snd (ack i now q))
      | Q_fail i e now \<Rightarrow> (None, snd (fl i e now q))
      | Q_reject i e now d \<Rightarrow> (None, snd (rej i e now d q))
      | Q_reap jt now e \<Rightarrow> (None, snd (reap jt now e q)))"

context job_queue begin

abbreviation exec :: "queue_call \<Rightarrow> 'b world_scheme \<Rightarrow> job option \<times> 'b world_scheme" where
  "exec \<equiv> exec_call enqueue claim ack fail reject reap"

lemma exec_counted:
  assumes inv: "inv q" and sound: "jobs_sound (jobs_of q)" and run: "exec c q = (d, q')"
  shows "inv q'" and "jobs_sound (jobs_of q')" and "counted d (jobs_of q) (jobs_of q')"
proof -
  have "inv q' \<and> jobs_sound (jobs_of q') \<and> counted d (jobs_of q) (jobs_of q')"
  proof (cases c)
    case (Q_enqueue ty pl now mx)
    with enqueue_law [OF inv, of mx ty pl now] run sound show ?thesis
      by (auto simp: exec_call_def counted_refl new_job_def split: if_splits
          intro!: jobs_sound_upd) (auto simp: counted_def)
  next
    case (Q_claim ty w now l)
    obtain t e q1 where e: "claim ty w now l q = Some (Inr e, q1)" "inv q1"
      and m: "case e of
             None \<Rightarrow> jobs_of q1 = reaped_map (Some ty) t lease_error (jobs_of q)
           | Some j' \<Rightarrow> \<exists>j. reaped_map (Some ty) t lease_error (jobs_of q) (jb_id j) = Some j
               \<and> claimable_job ty t j \<and> j' = claimed_job w t l j
               \<and> jobs_of q1 = (reaped_map (Some ty) t lease_error (jobs_of q))(jb_id j \<mapsto> j')"
      using claim_law [OF inv, of ty w now l] by blast
    from e run Q_claim have q1: "q1 = q'" "e = d" by (simp_all add: exec_call_def delivered_def)
    let ?m = "reaped_map (Some ty) t lease_error (jobs_of q)"
    note rs = jobs_sound_reaped [OF sound, of "Some ty" t lease_error]
    show ?thesis
    proof (cases d)
      case None
      with m e q1 rs show ?thesis by (simp add: counted_reaped)
    next
      case (Some j')
      with m q1 obtain j where j: "?m (jb_id j) = Some j" "claimable_job ty t j"
        "j' = claimed_job w t l j" "jobs_of q' = ?m(jb_id j \<mapsto> j')" by auto
      have "0 \<le> jb_attempts j" and "jb_attempts j < jb_max_attempts j"
        using jobs_soundD [OF rs j(1)] j(2) by (simp_all add: claimable_job_def)
      then have "jobs_sound (?m(jb_id j \<mapsto> claimed_job w t l j))"
        by (intro jobs_sound_upd [OF rs]) (simp_all add: claimed_job_def)
      then have "jobs_sound (jobs_of q')" using j(3,4) by simp
      moreover have "counted d (jobs_of q) (jobs_of q')"
        using j Some by (auto simp: counted_def reaped_map_def claimed_job_def)
      ultimately show ?thesis using e q1 by simp
    qed
  next
    case (Q_ack i now)
    show ?thesis
    proof (cases "jobs_of q i")
      case None
      with ack_law [OF inv, of i now] run sound Q_ack show ?thesis
        by (auto simp: exec_call_def counted_refl)
    next
      case (Some j)
      then obtain t q1 where "ack i now q = (Inr (acked_job t j), q1)" "inv q1"
        "jobs_of q1 = (jobs_of q)(i \<mapsto> acked_job t j)"
        using ack_law [OF inv, of i now] by auto
      with run Q_ack single_update [OF sound Some, of "acked_job t j"] show ?thesis
        by (simp add: exec_call_def)
    qed
  next
    case (Q_fail i e now)
    show ?thesis
    proof (cases "jobs_of q i")
      case None
      with fail_law [OF inv, of i e now] run sound Q_fail show ?thesis
        by (auto simp: exec_call_def counted_refl)
    next
      case (Some j)
      then obtain t q1 where "fail i e now q = (Inr (failed_job e t j), q1)" "inv q1"
        "jobs_of q1 = (jobs_of q)(i \<mapsto> failed_job e t j)"
        using fail_law [OF inv, of i e now] by auto
      with run Q_fail single_update [OF sound Some, of "failed_job e t j"] show ?thesis
        by (simp add: exec_call_def)
    qed
  next
    case (Q_reject i e now r)
    show ?thesis
    proof (cases "jobs_of q i")
      case None
      with reject_law [OF inv, of i e now r] run sound Q_reject show ?thesis
        by (auto simp: exec_call_def counted_refl)
    next
      case (Some j)
      then obtain t q1 where "reject i e now r q = (Inr (retried_job e (t + r * 1000000) t j), q1)"
        "inv q1" "jobs_of q1 = (jobs_of q)(i \<mapsto> retried_job e (t + r * 1000000) t j)"
        using reject_law [OF inv, of i e now r] by auto
      moreover have "jobs_sound ((jobs_of q)(i \<mapsto> retried_job e (t + r * 1000000) t j))
          \<and> counted None (jobs_of q) ((jobs_of q)(i \<mapsto> retried_job e (t + r * 1000000) t j))"
        by (rule single_update [OF sound Some]) (simp_all split: if_splits)
      ultimately show ?thesis using run Q_reject by (simp add: exec_call_def)
    qed
  next
    case (Q_reap jt now e)
    obtain t rs q1 where "reap jt now e q = (Inr rs, q1)" "inv q1"
      "jobs_of q1 = reaped_map jt t e (jobs_of q)"
      using reap_law [OF inv, of jt now e] by (elim exE conjE)
    with run Q_reap show ?thesis
      by (simp add: exec_call_def counted_reaped jobs_sound_reaped [OF sound])
  qed
  then show "inv q'" "jobs_sound (jobs_of q')" "counted d (jobs_of q) (jobs_of q')" by auto
qed

lemma delivered_known:
  assumes "inv q" and "exec c q = (Some j, q')"
  shows "jobs_of q (jb_id j) \<noteq> None"
proof (cases c)
  case (Q_claim ty w now l)
  obtain t d q1 where "claim ty w now l q = Some (Inr d, q1)"
    and "case d of
             None \<Rightarrow> jobs_of q1 = reaped_map (Some ty) t lease_error (jobs_of q)
           | Some j' \<Rightarrow> \<exists>j. reaped_map (Some ty) t lease_error (jobs_of q) (jb_id j) = Some j
               \<and> claimable_job ty t j \<and> j' = claimed_job w t l j
               \<and> jobs_of q1 = (reaped_map (Some ty) t lease_error (jobs_of q))(jb_id j \<mapsto> j')"
    using claim_law [OF assms(1), of ty w now l] by blast
  with assms(2) Q_claim show ?thesis
    by (auto simp: exec_call_def delivered_def reaped_map_def)
qed (use assms(2) in \<open>simp_all add: exec_call_def\<close>)

lemma deliveries_counted:
  assumes "inv q" and "jobs_sound (jobs_of q)" and "deliveries exec cs q = (ds, q')"
  shows "inv q' \<and> jobs_sound (jobs_of q') \<and> counted_run ds (jobs_of q) (jobs_of q')"
  using assms
proof (induction cs arbitrary: q ds)
  case Nil
  then show ?case by (simp add: counted_run_Nil)
next
  case (Cons c cs)
  obtain d q1 where c: "exec c q = (d, q1)" by (cases "exec c q") auto
  obtain ds1 where r: "deliveries exec cs q1 = (ds1, q')" and ds: "ds = (case d of None \<Rightarrow> ds1 | Some j \<Rightarrow> j # ds1)"
    using Cons.prems(3) c by (auto split: prod.splits)
  note step = exec_counted [OF Cons.prems(1,2) c]
  have "counted_run ds (jobs_of q) (jobs_of q')"
    unfolding ds using step(3) Cons.IH [OF step(1,2) r] delivered_known [OF Cons.prems(1)] c
    by (intro counted_run_Cons) auto
  with Cons.IH [OF step(1,2) r] show ?case by simp
qed

text \<open>A job is delivered at most \<open>max_attempts\<close> times.\<close>

lemma deliveries_bounded:
  assumes "inv q" and "jobs_sound (jobs_of q)" and "deliveries exec cs q = (ds, q')"
    and "jobs_of q' i = Some j"
  shows "count_of i ds \<le> jb_max_attempts j"
proof -
  from deliveries_counted [OF assms(1-3)] have sound: "jobs_sound (jobs_of q')"
    and run: "counted_run ds (jobs_of q) (jobs_of q')" by auto
  have "count_of i ds \<le> jb_attempts j"
  proof (cases "jobs_of q i")
    case None
    with run assms(4) show ?thesis by (auto simp: counted_run_def)
  next
    case (Some j0)
    with run obtain j' where "jobs_of q' i = Some j'"
      "jb_attempts j' = jb_attempts j0 + count_of i ds"
      unfolding counted_run_def by blast
    with assms(4) have "jb_attempts j = jb_attempts j0 + count_of i ds" by simp
    with jobs_soundD(2) [OF assms(2) Some] show ?thesis by simp
  qed
  with jobs_soundD(3) [OF sound assms(4)] show ?thesis by simp
qed

text \<open>A claim hands out only a waiting job, or one whose lease has run out.\<close>

lemma claim_respects_leases:
  assumes "inv q" and "claim ty w now l q = Some (Inr (Some j'), q')"
  shows "\<exists>t j. stamp now t \<and> jobs_of q (jb_id j') = Some j \<and> jb_type j = ty
    \<and> (jb_status j = JS_PENDING \<and> jb_available_at j \<le> t
       \<or> lease_expired t j \<and> jb_attempts j < jb_max_attempts j)
    \<and> jobs_of q' (jb_id j') = Some j' \<and> jb_status j' = JS_RUNNING
    \<and> jb_worker_id j' = Some w \<and> jb_lease_expires_at j' = Some (t + l * 1000000)"
proof -
  obtain t d q1 where c: "claim ty w now l q = Some (Inr d, q1)" "stamp now t"
    and m: "case d of
             None \<Rightarrow> jobs_of q1 = reaped_map (Some ty) t lease_error (jobs_of q)
           | Some j' \<Rightarrow> \<exists>j. reaped_map (Some ty) t lease_error (jobs_of q) (jb_id j) = Some j
               \<and> claimable_job ty t j \<and> j' = claimed_job w t l j
               \<and> jobs_of q1 = (reaped_map (Some ty) t lease_error (jobs_of q))(jb_id j \<mapsto> j')"
    using claim_law [OF assms(1), of ty w now l] by blast
  with assms(2) obtain j where j: "reaped_map (Some ty) t lease_error (jobs_of q) (jb_id j) = Some j"
      "claimable_job ty t j" "j' = claimed_job w t l j"
      "jobs_of q' = (reaped_map (Some ty) t lease_error (jobs_of q))(jb_id j \<mapsto> j')" by auto
  from j(1) obtain j0 where j0: "jobs_of q (jb_id j) = Some j0"
    and jj: "j = reaped_job (Some ty) t lease_error j0" by (auto simp: reaped_map_def)
  have "jb_status j0 = JS_PENDING \<and> jb_available_at j0 \<le> t
       \<or> lease_expired t j0 \<and> jb_attempts j0 < jb_max_attempts j0"
    using j(2) unfolding jj claimable_job_def
    by (auto simp: reaped_job_pending) (auto simp: reaped_job_def reapable_def lease_expired_def)
  with c(2) j j0 jj show ?thesis
    by (intro exI [of _ t] exI [of _ j0]) (auto simp: claimable_job_def claimed_job_def)
qed

end

end
