(* ===== verification/MemoryQueue.thy ===== *)
theory MemoryQueue
  imports JobQueue
begin

text \<open>
  \<open>InMemoryJobQueue\<close> of \<^verbatim>\<open>workers/queue.py\<close>: the jobs are a list in the order they were
  enqueued. It keeps the contract of \<open>job_queue\<close>; beyond it, a claim is first come, first
  served, and comes back empty only when no job of the type is available.
\<close>

record mem_queue = world +
  mq_jobs :: "job list"

definition mem_get :: "string \<Rightarrow> (mem_queue, job) op" where
  "mem_get job_id =
     andThen (gets (\<lambda>q. find (\<lambda>j. jb_id j = job_id) (mq_jobs q))) (\<lambda>found.
     case found of
       Some j \<Rightarrow> ret j
     | None \<Rightarrow> raise (NotFoundError (''Job not found: '' @ job_id)))"

text \<open>The loop of \<open>_replace\<close>: the first job with the identifier is overwritten.\<close>

fun replace_first :: "job \<Rightarrow> job list \<Rightarrow> job list option" where
  "replace_first u [] = None"
| "replace_first u (j # js) =
     (if jb_id j = jb_id u then Some (u # js) else map_option ((#) j) (replace_first u js))"

definition mem_replace :: "job \<Rightarrow> (mem_queue, unit) op" where
  "mem_replace u =
     andThen (gets (\<lambda>q. replace_first u (mq_jobs q))) (\<lambda>js.
     case js of
       Some js' \<Rightarrow> modify (\<lambda>q. q\<lparr>mq_jobs := js'\<rparr>)
     | None \<Rightarrow> raise (NotFoundError (''Job not found: '' @ jb_id u)))"

definition mem_enqueue ::
  "job_type \<Rightarrow> json_obj \<Rightarrow> datetime option \<Rightarrow> int \<Rightarrow> (mem_queue, job) op" where
  "mem_enqueue job_type payload now max_attempts =
     andThen (resolve_now now) (\<lambda>resolved_now.
     andThen (new_id ''job'') (\<lambda>job_id.
     andThen (require (1 \<le> max_attempts) (ValidationError ''JobEnvelope'')) (\<lambda>_.
     let j = new_job job_id job_type payload resolved_now max_attempts in
     andThen (modify (\<lambda>q. q\<lparr>mq_jobs := mq_jobs q @ [j]\<rparr>)) (\<lambda>_.
     ret j))))"

definition mem_reap ::
  "job_type option \<Rightarrow> datetime option \<Rightarrow> string \<Rightarrow> (mem_queue, job list) op" where
  "mem_reap job_type now err =
     andThen (resolve_now now) (\<lambda>resolved_now.
     andThen (gets mq_jobs) (\<lambda>js.
     andThen (modify (\<lambda>q. q\<lparr>mq_jobs := map (reaped_job job_type resolved_now err) js\<rparr>)) (\<lambda>_.
     ret (map (retried_job err resolved_now resolved_now)
       (filter (reapable job_type resolved_now) js)))))"

text \<open>The loop of \<open>claim\<close>: the first available job of the type.\<close>

fun claim_first ::
  "job_type \<Rightarrow> string \<Rightarrow> datetime \<Rightarrow> int \<Rightarrow> job list \<Rightarrow> job option \<times> job list" where
  "claim_first ty w now l [] = (None, [])"
| "claim_first ty w now l (j # js) =
     (if jb_type j \<noteq> ty \<or> jb_status j \<noteq> JS_PENDING \<or> jb_available_at j > now
      then (case claim_first ty w now l js of (d, js') \<Rightarrow> (d, j # js'))
      else (Some (claimed_job w now l j), claimed_job w now l j # js))"

definition mem_claim ::
  "job_type \<Rightarrow> string \<Rightarrow> datetime option \<Rightarrow> int \<Rightarrow> (mem_queue, job option) op" where
  "mem_claim job_type worker_id now lease_seconds =
     andThen (resolve_now now) (\<lambda>resolved_now.
     andThen (mem_reap (Some job_type) (Some resolved_now) lease_error) (\<lambda>_.
     andThen (gets (\<lambda>q. claim_first job_type worker_id resolved_now lease_seconds (mq_jobs q)))
       (\<lambda>(d, js).
     andThen (modify (\<lambda>q. q\<lparr>mq_jobs := js\<rparr>)) (\<lambda>_.
     ret d))))"

definition mem_ack :: "string \<Rightarrow> datetime option \<Rightarrow> (mem_queue, job) op" where
  "mem_ack job_id now =
     andThen (mem_get job_id) (\<lambda>j.
     andThen (resolve_now now) (\<lambda>t.
     andThen (mem_replace (acked_job t j)) (\<lambda>_.
     ret (acked_job t j))))"

definition mem_fail :: "string \<Rightarrow> string \<Rightarrow> datetime option \<Rightarrow> (mem_queue, job) op" where
  "mem_fail job_id err now =
     andThen (mem_get job_id) (\<lambda>j.
     andThen (resolve_now now) (\<lambda>t.
     andThen (mem_replace (failed_job err t j)) (\<lambda>_.
     ret (failed_job err t j))))"

definition mem_reject :: "string \<Rightarrow> string \<Rightarrow> datetime option \<Rightarrow> int \<Rightarrow> (mem_queue, job) op" where
  "mem_reject job_id err now retry_delay_seconds =
     andThen (resolve_now now) (\<lambda>t.
     andThen (mem_get job_id) (\<lambda>j.
     let u = retried_job err (t + retry_delay_seconds * 1000000) t j in
     andThen (mem_replace u) (\<lambda>_.
     ret u)))"

definition mem_list_dead_letters :: "job_type option \<Rightarrow> (mem_queue, job list) op" where
  "mem_list_dead_letters job_type =
     gets (\<lambda>q. filter (\<lambda>j. jb_status j = JS_DEAD_LETTER
       \<and> (job_type = None \<or> job_type = Some (jb_type j))) (mq_jobs q))"

definition empty_mem_queue :: "(nat \<Rightarrow> datetime) \<Rightarrow> (nat \<Rightarrow> string) \<Rightarrow> mem_queue" where
  "empty_mem_queue clk uuids = \<lparr>clock = clk, uuid4_hex = uuids, tick = 0, mq_jobs = []\<rparr>"

section \<open>The contract\<close>

definition mem_inv :: "mem_queue \<Rightarrow> bool" where
  "mem_inv q \<longleftrightarrow> unique_uuids q \<and> distinct (map jb_id (mq_jobs q))
     \<and> (\<forall>j \<in> set (mq_jobs q). issued ''job'' q (jb_id j))"

definition mem_jobs :: "mem_queue \<Rightarrow> job_map" where
  "mem_jobs q = map_of (map (\<lambda>j. (jb_id j, j)) (mq_jobs q))"

lemma map_of_ids_find: "map_of (map (\<lambda>j. (jb_id j, j)) js) i = find (\<lambda>j. jb_id j = i) js"
  by (induction js) auto

lemma map_of_ids_map:
  "(\<And>j. jb_id (f j) = jb_id j) \<Longrightarrow>
   map_of (map (\<lambda>j. (jb_id j, j)) (map f js)) = (\<lambda>i. map_option f (map_of (map (\<lambda>j. (jb_id j, j)) js) i))"
  by (induction js) auto

lemma map_of_ids_Some: "map_of (map (\<lambda>j. (jb_id j, j)) js) i = Some j \<Longrightarrow> jb_id j = i \<and> j \<in> set js"
  by (induction js) (auto split: if_splits)

lemma map_of_ids_mem:
  "distinct (map jb_id js) \<Longrightarrow> j \<in> set js \<Longrightarrow> map_of (map (\<lambda>j. (jb_id j, j)) js) (jb_id j) = Some j"
  by (induction js) (auto simp: image_iff)

lemma replace_first_present:
  assumes "map_of (map (\<lambda>j. (jb_id j, j)) js) (jb_id u) = Some j"
  shows "\<exists>js'. replace_first u js = Some js' \<and> map jb_id js' = map jb_id js
    \<and> map_of (map (\<lambda>j. (jb_id j, j)) js') = (map_of (map (\<lambda>j. (jb_id j, j)) js))(jb_id u \<mapsto> u)"
  using assms
proof (induction js)
  case (Cons a js)
  then show ?case by (cases "jb_id a = jb_id u") (auto simp: fun_eq_iff)
qed simp

lemma mem_inv_cong:
  "map jb_id (mq_jobs q') = map jb_id (mq_jobs q) \<Longrightarrow> uuid4_hex q' = uuid4_hex q \<Longrightarrow>
   tick q \<le> tick q' \<Longrightarrow> mem_inv q \<Longrightarrow> mem_inv q'"
proof -
  assume ids: "map jb_id (mq_jobs q') = map jb_id (mq_jobs q)" and u: "uuid4_hex q' = uuid4_hex q"
    and t: "tick q \<le> tick q'" and inv: "mem_inv q"
  have "set (map jb_id (mq_jobs q')) = set (map jb_id (mq_jobs q))" using ids by simp
  then have "\<forall>j \<in> set (mq_jobs q'). \<exists>j0 \<in> set (mq_jobs q). jb_id j = jb_id j0" by auto
  with inv ids u t show ?thesis
    unfolding mem_inv_def unique_uuids_def by (metis issued_mono)
qed

text \<open>Acknowledging, failing and rejecting share one step: overwrite the job found.\<close>

lemma mem_replace_present:
  assumes "mem_inv q" and "mem_jobs q i = Some j" and "jb_id u = i" and "tick q \<le> n"
  shows "\<exists>q'. mem_replace u (q\<lparr>tick := n\<rparr>) = (Inr (), q') \<and> mem_inv q'
    \<and> mem_jobs q' = (mem_jobs q)(i \<mapsto> u)"
proof -
  obtain js' where js': "replace_first u (mq_jobs q) = Some js'" "map jb_id js' = map jb_id (mq_jobs q)"
      "map_of (map (\<lambda>j. (jb_id j, j)) js') = (mem_jobs q)(jb_id u \<mapsto> u)"
    using replace_first_present [of "mq_jobs q" u j] assms by (auto simp: mem_jobs_def)
  have "mem_inv (q\<lparr>tick := n, mq_jobs := js'\<rparr>)"
    by (rule mem_inv_cong [OF _ _ _ assms(1)]) (use js' assms(4) in simp_all)
  then show ?thesis
    using js' assms(3) by (simp add: mem_replace_def op_simps mem_jobs_def)
qed

lemma mem_inv_tick: "mem_inv q \<Longrightarrow> tick q \<le> n \<Longrightarrow> mem_inv (q\<lparr>tick := n\<rparr>)"
  by (rule mem_inv_cong) simp_all

lemma mem_jobs_tick [simp]: "mem_jobs (q\<lparr>tick := n\<rparr>) = mem_jobs q"
  by (simp add: mem_jobs_def)

lemma mem_get_eval:
  "mem_get i q = ((case mem_jobs q i of
       Some j \<Rightarrow> Inr j | None \<Rightarrow> Inl (NotFoundError (''Job not found: '' @ i))), q)"
  by (auto simp: mem_get_def op_simps mem_jobs_def map_of_ids_find split: option.split)

lemma mem_jobs_id: "mem_jobs q i = Some j \<Longrightarrow> jb_id j = i"
  by (auto simp: mem_jobs_def dest: map_of_ids_Some)

lemma mem_enqueue_law:
  assumes inv: "mem_inv q"
  shows "if mx < 1
    then \<exists>e q'. mem_enqueue ty pl now mx q = (Inl e, q') \<and> mem_inv q' \<and> mem_jobs q' = mem_jobs q
    else \<exists>i t q'. mem_enqueue ty pl now mx q = (Inr (new_job i ty pl t mx), q') \<and> stamp now t
      \<and> mem_inv q' \<and> mem_jobs q i = None \<and> mem_jobs q' = (mem_jobs q)(i \<mapsto> new_job i ty pl t mx)"
proof (cases rule: resolve_now_cases [of now q])
  case (1 t n)
  let ?i = "''job'' @ ''_'' @ uuid4_hex q n"
  let ?q = "q\<lparr>tick := Suc n\<rparr>"
  have inv': "mem_inv ?q" using inv 1(2) by (intro mem_inv_tick) simp_all
  show ?thesis
  proof (cases "mx < 1")
    case True
    with 1 inv' show ?thesis
      by (auto simp: mem_enqueue_def op_simps new_id_def)
  next
    case False
    let ?j = "new_job ?i ty pl t mx"
    have fresh: "jb_id j \<noteq> ?i" if "j \<in> set (mq_jobs q)" for j
    proof -
      have "issued ''job'' (q\<lparr>tick := n\<rparr>) (jb_id j)"
        by (rule issued_mono [of _ q]) (use inv that 1(2) in \<open>simp_all add: mem_inv_def\<close>)
      moreover have "unique_uuids (q\<lparr>tick := n\<rparr>)"
        using inv by (simp add: mem_inv_def unique_uuids_def)
      ultimately show ?thesis
        using new_id_fresh [of "q\<lparr>tick := n\<rparr>" "''job''" "jb_id j"] by (simp del: append.simps)
    qed
    then have none: "mem_jobs q ?i = None"
      by (auto simp: mem_jobs_def map_of_ids_find find_None_iff)
    have "mem_inv (?q\<lparr>mq_jobs := mq_jobs q @ [?j]\<rparr>)"
      using inv' fresh by (auto simp: mem_inv_def unique_uuids_def issued_def new_job_def)
    moreover have "mem_jobs (?q\<lparr>mq_jobs := mq_jobs q @ [?j]\<rparr>) = (mem_jobs q)(?i \<mapsto> ?j)"
      using none by (auto simp: mem_jobs_def map_add_def new_job_def fun_eq_iff
          split: option.split)
    moreover have "mem_enqueue ty pl now mx q = (Inr ?j, ?q\<lparr>mq_jobs := mq_jobs q @ [?j]\<rparr>)"
      using 1 False by (simp add: mem_enqueue_def op_simps new_id_def Let_def)
    moreover have "stamp now t" using 1(3) by (simp add: stamp_def)
    ultimately show ?thesis using False none by (simp, blast)
  qed
qed

lemma mem_reap_eval:
  assumes "resolve_now now q = (Inr t, q\<lparr>tick := n\<rparr>)"
  shows "mem_reap jt now e q =
    (Inr (map (retried_job e t t) (filter (reapable jt t) (mq_jobs q))),
     q\<lparr>tick := n, mq_jobs := map (reaped_job jt t e) (mq_jobs q)\<rparr>)"
  using assms by (simp add: mem_reap_def op_simps)

lemma mem_inv_reaped:
  "mem_inv q \<Longrightarrow> tick q \<le> n \<Longrightarrow>
   mem_inv (q\<lparr>tick := n, mq_jobs := map (reaped_job jt t e) (mq_jobs q)\<rparr>)"
  by (rule mem_inv_cong) (simp_all add: o_def)

lemma mem_jobs_reaped:
  "mem_jobs (q\<lparr>tick := n, mq_jobs := map (reaped_job jt t e) (mq_jobs q)\<rparr>)
   = reaped_map jt t e (mem_jobs q)"
proof -
  have "mq_jobs (q\<lparr>tick := n, mq_jobs := map (reaped_job jt t e) (mq_jobs q)\<rparr>)
      = map (reaped_job jt t e) (mq_jobs q)" by simp
  then show ?thesis
    unfolding mem_jobs_def reaped_map_def by (simp only: map_of_ids_map reaped_job_simps)
qed

lemma mem_reap_law:
  assumes inv: "mem_inv q"
  shows "\<exists>t rs q'. mem_reap jt now e q = (Inr rs, q') \<and> stamp now t \<and> mem_inv q'
    \<and> mem_jobs q' = reaped_map jt t e (mem_jobs q)
    \<and> set rs = {retried_job e t t j | i j. mem_jobs q i = Some j \<and> reapable jt t j}"
proof (cases rule: resolve_now_cases [of now q])
  case (1 t n)
  have "set (map (retried_job e t t) (filter (reapable jt t) (mq_jobs q)))
      = {retried_job e t t j | i j. mem_jobs q i = Some j \<and> reapable jt t j}" (is "?l = ?r")
  proof
    show "?l \<subseteq> ?r"
      using inv by (auto simp: mem_inv_def mem_jobs_def dest: map_of_ids_mem)
    show "?r \<subseteq> ?l"
      by (auto simp: mem_jobs_def dest: map_of_ids_Some)
  qed
  then show ?thesis
    using mem_reap_eval [OF 1(1), of jt e] mem_inv_reaped [OF inv 1(2)] mem_jobs_reaped 1(3)
    by (auto simp: stamp_def)
qed

lemma claim_first_law:
  assumes "distinct (map jb_id js)"
  shows "case claim_first ty w now l js of
      (None, js') \<Rightarrow> js' = js \<and> (\<forall>j \<in> set js. \<not> claimable_job ty now j)
    | (Some j', js') \<Rightarrow> \<exists>xs j ys. js = xs @ j # ys \<and> claimable_job ty now j
        \<and> (\<forall>x \<in> set xs. \<not> claimable_job ty now x)
        \<and> j' = claimed_job w now l j \<and> js' = xs @ j' # ys"
proof (induction js)
  case Nil
  then show ?case by simp
next
  case (Cons a js)
  show ?case
  proof (cases "claimable_job ty now a")
    case True
    then show ?thesis
      by (auto simp: claimable_job_def intro!: exI [of _ "[]"])
  next
    case False
    then have skip: "jb_type a \<noteq> ty \<or> jb_status a \<noteq> JS_PENDING \<or> jb_available_at a > now"
      by (auto simp: claimable_job_def)
    show ?thesis
    proof (cases "claim_first ty w now l js")
      case (Pair d js')
      show ?thesis
      proof (cases d)
        case None
        with Cons Pair skip False show ?thesis by simp
      next
        case (Some j')
        with Cons Pair obtain xs j ys where "js = xs @ j # ys" "claimable_job ty now j"
          "\<forall>x \<in> set xs. \<not> claimable_job ty now x" "j' = claimed_job w now l j" "js' = xs @ j' # ys"
          by auto
        with Pair Some skip False show ?thesis
          by (auto intro!: exI [of _ "a # xs"])
      qed
    qed
  qed
qed

lemma claim_first_ids: "map jb_id (snd (claim_first ty w now l js)) = map jb_id js"
  by (induction js) (auto split: prod.splits)

lemma map_of_ids_replace:
  assumes "distinct (map jb_id (xs @ j # ys))" and "jb_id j' = jb_id j"
  shows "map_of (map (\<lambda>j. (jb_id j, j)) (xs @ j' # ys))
    = (map_of (map (\<lambda>j. (jb_id j, j)) (xs @ j # ys)))(jb_id j \<mapsto> j')"
  using assms by (induction xs) (auto simp: fun_eq_iff)

lemma mem_claim_law:
  assumes inv: "mem_inv q"
  shows "\<exists>t d q'. mem_claim ty w now l q = (Inr d, q') \<and> stamp now t \<and> mem_inv q'
    \<and> (case d of
         None \<Rightarrow> mem_jobs q' = reaped_map (Some ty) t lease_error (mem_jobs q)
           \<and> (\<forall>j \<in> set (mq_jobs q'). \<not> claimable_job ty t j)
       | Some j' \<Rightarrow> \<exists>j. reaped_map (Some ty) t lease_error (mem_jobs q) (jb_id j) = Some j
           \<and> claimable_job ty t j \<and> j' = claimed_job w t l j
           \<and> mem_jobs q' = (reaped_map (Some ty) t lease_error (mem_jobs q))(jb_id j \<mapsto> j')
           \<and> (\<exists>xs ys. map (reaped_job (Some ty) t lease_error) (mq_jobs q) = xs @ j # ys
                \<and> (\<forall>x \<in> set xs. \<not> claimable_job ty t x)))"
proof (cases rule: resolve_now_cases [of now q])
  case (1 t n)
  let ?js = "map (reaped_job (Some ty) t lease_error) (mq_jobs q)"
  let ?q = "q\<lparr>tick := n, mq_jobs := ?js\<rparr>"
  have inv1: "mem_inv ?q" using inv 1(2) by (rule mem_inv_reaped)
  have jobs1: "mem_jobs ?q = reaped_map (Some ty) t lease_error (mem_jobs q)"
    by (rule mem_jobs_reaped)
  have dist: "distinct (map jb_id ?js)" using inv1 by (simp add: mem_inv_def)
  obtain d js' where c: "claim_first ty w t l ?js = (d, js')" by (cases "claim_first ty w t l ?js")
  have "resolve_now (Some t) (q\<lparr>tick := n\<rparr>) = (Inr t, q\<lparr>tick := n\<rparr>\<lparr>tick := n\<rparr>)"
    by (simp add: resolve_now_def ret_apply)
  from mem_reap_eval [OF this, of "Some ty" lease_error]
  have run: "mem_claim ty w now l q = (Inr d, ?q\<lparr>mq_jobs := js'\<rparr>)"
    using 1(1) c by (simp add: mem_claim_def op_simps)
  have ids: "map jb_id js' = map jb_id ?js" using claim_first_ids [of ty w t l ?js] c by simp
  have inv2: "mem_inv (?q\<lparr>mq_jobs := js'\<rparr>)"
    by (rule mem_inv_cong [OF _ _ _ inv1]) (use ids in simp_all)
  have st: "stamp now t" using 1(3) by (simp add: stamp_def)
  show ?thesis
  proof (cases d)
    case None
    then have "js' = ?js" and no: "\<forall>j \<in> set ?js. \<not> claimable_job ty t j"
      using claim_first_law [OF dist, where ty = ty and w = w and now = t and l = l] c by auto
    with run st inv1 jobs1 None show ?thesis by (intro exI conjI) auto
  next
    case (Some j')
    then obtain xs j ys where x: "?js = xs @ j # ys" "claimable_job ty t j"
        "\<forall>x \<in> set xs. \<not> claimable_job ty t x" "j' = claimed_job w t l j" "js' = xs @ j' # ys"
      using claim_first_law [OF dist, where ty = ty and w = w and now = t and l = l] c by auto
    have get: "mem_jobs ?q (jb_id j) = Some j"
      using map_of_ids_mem [OF dist, of j] x(1) by (simp add: mem_jobs_def)
    have "mem_jobs (?q\<lparr>mq_jobs := js'\<rparr>) = (mem_jobs ?q)(jb_id j \<mapsto> j')"
      using map_of_ids_replace [of xs j ys j'] dist x by (simp add: mem_jobs_def)
    then have upd: "mem_jobs (?q\<lparr>mq_jobs := js'\<rparr>)
        = (reaped_map (Some ty) t lease_error (mem_jobs q))(jb_id j \<mapsto> j')"
      using jobs1 by simp
    show ?thesis
      unfolding Some
      by (rule exI [of _ t], rule exI [of _ "Some j'"], rule exI [of _ "?q\<lparr>mq_jobs := js'\<rparr>"],
          intro conjI, use run Some in simp, rule st, rule inv2, unfold option.case,
          rule exI [of _ j], intro conjI)
        (use get jobs1 upd x in simp_all, blast)
  qed
qed

lemma mem_claim_contract:
  assumes "mem_inv q"
  shows "\<exists>t d q'. Some (mem_claim ty w now l q) = Some (Inr d, q') \<and> stamp now t \<and> mem_inv q'
    \<and> (case d of
         None \<Rightarrow> mem_jobs q' = reaped_map (Some ty) t lease_error (mem_jobs q)
       | Some j' \<Rightarrow> \<exists>j. reaped_map (Some ty) t lease_error (mem_jobs q) (jb_id j) = Some j
           \<and> claimable_job ty t j \<and> j' = claimed_job w t l j
           \<and> mem_jobs q' = (reaped_map (Some ty) t lease_error (mem_jobs q))(jb_id j \<mapsto> j'))"
proof -
  obtain t d q' where run: "mem_claim ty w now l q = (Inr d, q')" "stamp now t" "mem_inv q'"
    and d: "case d of
         None \<Rightarrow> mem_jobs q' = reaped_map (Some ty) t lease_error (mem_jobs q)
           \<and> (\<forall>j \<in> set (mq_jobs q'). \<not> claimable_job ty t j)
       | Some j' \<Rightarrow> \<exists>j. reaped_map (Some ty) t lease_error (mem_jobs q) (jb_id j) = Some j
           \<and> claimable_job ty t j \<and> j' = claimed_job w t l j
           \<and> mem_jobs q' = (reaped_map (Some ty) t lease_error (mem_jobs q))(jb_id j \<mapsto> j')
           \<and> (\<exists>xs ys. map (reaped_job (Some ty) t lease_error) (mq_jobs q) = xs @ j # ys
                \<and> (\<forall>x \<in> set xs. \<not> claimable_job ty t x))"
    using mem_claim_law [OF assms, where ty = ty and w = w and now = now and l = l] by (elim exE conjE) (rule that)
  show ?thesis
    by (rule exI [of _ t], rule exI [of _ d], rule exI [of _ q'])
      (use run d in \<open>auto split: option.splits\<close>)
qed

text \<open>The three updates of a job found by its identifier.\<close>

lemma mem_update_law:
  assumes inv: "mem_inv q" and "mem_jobs q i = Some j" and ids: "\<And>t. jb_id (u t) = i"
    and run: "\<And>t n. resolve_now now q = (Inr t, q\<lparr>tick := n\<rparr>) \<Longrightarrow>
      m q = andThen (mem_replace (u t)) (\<lambda>_. ret (u t)) (q\<lparr>tick := n\<rparr>)"
  shows "\<exists>t q'. m q = (Inr (u t), q') \<and> stamp now t \<and> mem_inv q'
    \<and> mem_jobs q' = (mem_jobs q)(i \<mapsto> u t)"
proof (cases rule: resolve_now_cases [of now q])
  case (1 t n)
  obtain q' where "mem_replace (u t) (q\<lparr>tick := n\<rparr>) = (Inr (), q')" "mem_inv q'"
      "mem_jobs q' = (mem_jobs q)(i \<mapsto> u t)"
    using mem_replace_present [OF inv assms(2) ids 1(2)] by blast
  with run [OF 1(1)] 1(3) show ?thesis by (auto simp: andThen_apply ret_apply stamp_def)
qed

lemma mem_ack_law:
  assumes "mem_inv q"
  shows "case mem_jobs q i of
      None \<Rightarrow> \<exists>m q'. mem_ack i now q = (Inl (NotFoundError m), q') \<and> mem_inv q' \<and> mem_jobs q' = mem_jobs q
    | Some j \<Rightarrow> \<exists>t q'. mem_ack i now q = (Inr (acked_job t j), q') \<and> stamp now t \<and> mem_inv q'
        \<and> mem_jobs q' = (mem_jobs q)(i \<mapsto> acked_job t j)"
proof (cases "mem_jobs q i")
  case None
  with assms show ?thesis by (simp add: mem_ack_def andThen_apply mem_get_eval)
next
  case (Some j)
  then have "jb_id (acked_job t j) = i" for t by (simp add: mem_jobs_id)
  from mem_update_law [OF assms Some this, of now "mem_ack i now"] Some show ?thesis
    by (simp add: mem_ack_def andThen_apply mem_get_eval)
qed

lemma mem_fail_law:
  assumes "mem_inv q"
  shows "case mem_jobs q i of
      None \<Rightarrow> \<exists>m q'. mem_fail i e now q = (Inl (NotFoundError m), q') \<and> mem_inv q' \<and> mem_jobs q' = mem_jobs q
    | Some j \<Rightarrow> \<exists>t q'. mem_fail i e now q = (Inr (failed_job e t j), q') \<and> stamp now t \<and> mem_inv q'
        \<and> mem_jobs q' = (mem_jobs q)(i \<mapsto> failed_job e t j)"
proof (cases "mem_jobs q i")
  case None
  with assms show ?thesis by (simp add: mem_fail_def andThen_apply mem_get_eval)
next
  case (Some j)
  then have "jb_id (failed_job e t j) = i" for t by (simp add: mem_jobs_id)
  from mem_update_law [OF assms Some this, of now "mem_fail i e now"] Some show ?thesis
    by (simp add: mem_fail_def andThen_apply mem_get_eval)
qed

lemma mem_reject_law:
  assumes "mem_inv q"
  shows "case mem_jobs q i of
      None \<Rightarrow> \<exists>m q'. mem_reject i e now d q = (Inl (NotFoundError m), q') \<and> mem_inv q'
        \<and> mem_jobs q' = mem_jobs q
    | Some j \<Rightarrow> \<exists>t q'. mem_reject i e now d q = (Inr (retried_job e (t + d * 1000000) t j), q')
        \<and> stamp now t \<and> mem_inv q'
        \<and> mem_jobs q' = (mem_jobs q)(i \<mapsto> retried_job e (t + d * 1000000) t j)"
proof (cases "mem_jobs q i")
  case None
  obtain t n where "resolve_now now q = (Inr t, q\<lparr>tick := n\<rparr>)" "tick q \<le> n"
    using resolve_now_cases [of now q] by metis
  with assms None show ?thesis
    by (simp add: mem_reject_def andThen_apply mem_get_eval mem_inv_tick)
next
  case (Some j)
  then have "jb_id (retried_job e (t + d * 1000000) t j) = i" for t by (simp add: mem_jobs_id)
  from mem_update_law [OF assms Some this, of now "mem_reject i e now d"] Some show ?thesis
    by (simp add: mem_reject_def andThen_apply mem_get_eval Let_def)
qed

interpretation mem: job_queue mem_inv mem_jobs mem_enqueue
  "\<lambda>ty w now l q. Some (mem_claim ty w now l q)" mem_ack mem_fail mem_reject mem_reap
  by unfold_locales
    (erule mem_jobs_id mem_enqueue_law mem_claim_contract mem_ack_law mem_fail_law mem_reject_law
      mem_reap_law | assumption)+

lemma claim_first_find:
  "fst (claim_first ty w now l js) = map_option (claimed_job w now l) (find (claimable_job ty now) js)"
  by (induction js) (auto simp: claimable_job_def split: prod.splits)

lemma mem_claim_served:
  assumes "mem_inv q"
  shows "\<exists>d q'. mem_claim ty w (Some t) l q = (Inr d, q')
    \<and> d = map_option (claimed_job w t l)
        (find (claimable_job ty t) (map (reaped_job (Some ty) t lease_error) (mq_jobs q)))
    \<and> map jb_id (mq_jobs q') = map jb_id (mq_jobs q)"
proof -
  let ?js = "map (reaped_job (Some ty) t lease_error) (mq_jobs q)"
  have now: "resolve_now (Some t) q = (Inr t, q)" by (simp add: resolve_now_def ret_apply)
  then have "mem_reap (Some ty) (Some t) lease_error q
      = (Inr (map (retried_job lease_error t t) (filter (reapable (Some ty) t) (mq_jobs q))),
         q\<lparr>mq_jobs := ?js\<rparr>)"
    using mem_reap_eval [of "Some t" q t "tick q" "Some ty" lease_error] by simp
  with now have "mem_claim ty w (Some t) l q
      = (Inr (fst (claim_first ty w t l ?js)), q\<lparr>mq_jobs := snd (claim_first ty w t l ?js)\<rparr>)"
    by (simp add: mem_claim_def op_simps case_prod_unfold)
  moreover have "map jb_id (snd (claim_first ty w t l ?js)) = map jb_id (mq_jobs q)"
    by (simp add: claim_first_ids o_def)
  ultimately show ?thesis
    by (simp add: claim_first_find)
qed

section \<open>What a worker can rely on\<close>

text \<open>Any sequence of calls on the in-memory queue: the jobs it delivers, the state it ends in.\<close>

definition mem_run :: "queue_call list \<Rightarrow> mem_queue \<Rightarrow> job list \<times> mem_queue" where
  "mem_run = deliveries (exec_call mem_enqueue (\<lambda>ty w now l q. Some (mem_claim ty w now l q))
     mem_ack mem_fail mem_reject mem_reap)"

lemma empty_mem_queue_inv:
  "inj uuids \<Longrightarrow> mem_inv (empty_mem_queue clk uuids)
     \<and> jobs_sound (mem_jobs (empty_mem_queue clk uuids))"
  by (simp add: mem_inv_def mem_jobs_def empty_mem_queue_def unique_uuids_def jobs_sound_def)

lemma mem_run_inv:
  assumes "inj uuids" and "mem_run cs (empty_mem_queue clk uuids) = (ds, q)"
  shows "mem_inv q"
  using mem.deliveries_counted [OF _ _ assms(2) [unfolded mem_run_def]] empty_mem_queue_inv [OF assms(1)]
  by blast

lemma mem_get_Inr: "mem_get i q = (Inr j, q') \<Longrightarrow> mem_jobs q i = Some j"
  by (auto simp: mem_get_eval split: option.splits)

text \<open>A queue in which job 0 waits, was claimed at 10 for 5 seconds and reaped and claimed again.\<close>

definition demo_uuids :: "nat \<Rightarrow> string" where
  "demo_uuids n = replicate n CHR ''u''"

lemma inj_demo_uuids: "inj demo_uuids"
  by (auto simp: inj_def demo_uuids_def dest: arg_cong [of _ _ length])

definition demo_calls :: "queue_call list" where
  "demo_calls =
     [Q_enqueue JT_CLEANUP [] (Some 0) 2, Q_enqueue JT_CLEANUP [] (Some 0) 1,
      Q_claim JT_CLEANUP ''w1'' (Some 10) 5, Q_claim JT_CLEANUP ''w2'' (Some 6000000) 5]"

definition demo_queue :: mem_queue where
  "demo_queue = snd (mem_run demo_calls (empty_mem_queue (\<lambda>_. 0) demo_uuids))"

lemma demo_queue_job: "map_option jb_max_attempts (mem_jobs demo_queue ''job_'') = Some 2"
  by code_simp

text \<open>C18: bounded delivery. From the empty queue, after any sequence of calls by any workers
  (claims, acknowledgements, failures, rejections and reaps in any order, also by workers whose
  lease is gone), a job has been handed out at most \<open>max_attempts\<close> times.\<close>

theorem jobs_are_delivered_boundedly:
  assumes "inj uuids" and "mem_run cs (empty_mem_queue clk uuids) = (ds, q)"
    and "mem_get job_id q = (Inr j, q')"
  shows "count_of job_id ds \<le> jb_max_attempts j"
  using mem.deliveries_bounded [OF _ _ assms(2) [unfolded mem_run_def] mem_get_Inr [OF assms(3)]]
    empty_mem_queue_inv [OF assms(1)] by blast

theorem jobs_are_delivered_boundedly_witness:
  "\<exists>j. mem_get ''job_'' demo_queue = (Inr j, demo_queue) \<and> jb_max_attempts j = 2
     \<and> count_of ''job_'' (fst (mem_run demo_calls (empty_mem_queue (\<lambda>_. 0) demo_uuids))) \<le> 2"
proof -
  obtain j where j: "mem_get ''job_'' demo_queue = (Inr j, demo_queue)" "jb_max_attempts j = 2"
    using demo_queue_job by (auto simp: mem_get_eval)
  have "mem_run demo_calls (empty_mem_queue (\<lambda>_. 0) demo_uuids)
      = (fst (mem_run demo_calls (empty_mem_queue (\<lambda>_. 0) demo_uuids)), demo_queue)"
    by (simp add: demo_queue_def)
  from jobs_are_delivered_boundedly [OF inj_demo_uuids this j(1)] j show ?thesis by auto
qed

text \<open>a claim respects leases. Whatever calls came before, the job a worker is given was
  waiting and available, or its previous lease had run out with attempts left; and the worker's
  own lease runs from the time of the claim.\<close>

theorem claims_respect_job_leases:
  assumes "inj uuids" and "mem_run cs (empty_mem_queue clk uuids) = (ds, q)"
    and "mem_claim job_type worker_id (Some t) lease_seconds q = (Inr (Some j'), q')"
  shows "\<exists>j. mem_get (jb_id j') q = (Inr j, q) \<and> jb_type j = job_type
    \<and> (jb_status j = JS_PENDING \<and> jb_available_at j \<le> t
       \<or> lease_expired t j \<and> jb_attempts j < jb_max_attempts j)
    \<and> mem_get (jb_id j') q' = (Inr j', q') \<and> jb_status j' = JS_RUNNING
    \<and> jb_worker_id j' = Some worker_id
    \<and> jb_lease_expires_at j' = Some (t + lease_seconds * 1000000)"
  using mem.claim_respects_leases [OF mem_run_inv [OF assms(1,2)], of job_type worker_id "Some t"
      lease_seconds j' q'] assms(3)
  by (auto simp: mem_get_eval stamp_def)

theorem claims_respect_job_leases_witness:
  "\<exists>j' q' j. mem_claim JT_CLEANUP ''w3'' (Some 12000000) 5 demo_queue = (Inr (Some j'), q')
     \<and> mem_get (jb_id j') demo_queue = (Inr j, demo_queue)
     \<and> (jb_status j = JS_PENDING \<and> jb_available_at j \<le> 12000000
        \<or> lease_expired 12000000 j \<and> jb_attempts j < jb_max_attempts j)"
proof -
  have "map_option jb_id (case fst (mem_claim JT_CLEANUP ''w3'' (Some 12000000) 5 demo_queue) of
      Inl _ \<Rightarrow> None | Inr d \<Rightarrow> d) = Some ''job_u''"
    by code_simp
  then obtain j' where "fst (mem_claim JT_CLEANUP ''w3'' (Some 12000000) 5 demo_queue) = Inr (Some j')"
    by (auto split: sum.splits)
  then have run: "mem_claim JT_CLEANUP ''w3'' (Some 12000000) 5 demo_queue
      = (Inr (Some j'), snd (mem_claim JT_CLEANUP ''w3'' (Some 12000000) 5 demo_queue))"
    by (simp add: prod_eq_iff)
  have "mem_run demo_calls (empty_mem_queue (\<lambda>_. 0) demo_uuids)
      = (fst (mem_run demo_calls (empty_mem_queue (\<lambda>_. 0) demo_uuids)), demo_queue)"
    by (simp add: demo_queue_def)
  from claims_respect_job_leases [OF inj_demo_uuids this run] run show ?thesis by blast
qed

text \<open>First come, first served, and nothing is overlooked. After the leases of the type
  that have run out are reaped, the claim takes the first job of the list, in the order of
  enqueueing, that is of the type, waiting and available; it answers \<open>None\<close> only when there is
  none.\<close>

theorem claims_are_first_come_first_served:
  assumes "inj uuids" and "mem_run cs (empty_mem_queue clk uuids) = (ds, q)"
  shows "\<exists>d q'. mem_claim job_type worker_id (Some t) lease_seconds q = (Inr d, q')
    \<and> d = map_option (claimed_job worker_id t lease_seconds)
        (find (claimable_job job_type t) (map (reaped_job (Some job_type) t lease_error) (mq_jobs q)))
    \<and> map jb_id (mq_jobs q') = map jb_id (mq_jobs q)"
  using mem_claim_served [OF mem_run_inv [OF assms]] .

theorem claims_are_first_come_first_served_witness:
  "\<exists>d q'. mem_claim JT_CLEANUP ''w3'' (Some 12000000) 5 demo_queue = (Inr d, q')
     \<and> map_option jb_id d = Some ''job_u'' \<and> length (mq_jobs q') = 2"
proof -
  have "mem_run demo_calls (empty_mem_queue (\<lambda>_. 0) demo_uuids)
      = (fst (mem_run demo_calls (empty_mem_queue (\<lambda>_. 0) demo_uuids)), demo_queue)"
    by (simp add: demo_queue_def)
  from claims_are_first_come_first_served [OF inj_demo_uuids this] obtain d q' where
    c: "mem_claim JT_CLEANUP ''w3'' (Some 12000000) 5 demo_queue = (Inr d, q')"
       "d = map_option (claimed_job ''w3'' 12000000 5) (find (claimable_job JT_CLEANUP 12000000)
          (map (reaped_job (Some JT_CLEANUP) 12000000 lease_error) (mq_jobs demo_queue)))"
       "map jb_id (mq_jobs q') = map jb_id (mq_jobs demo_queue)"
    by blast
  have "map_option jb_id (map_option (claimed_job ''w3'' 12000000 5)
      (find (claimable_job JT_CLEANUP 12000000)
        (map (reaped_job (Some JT_CLEANUP) 12000000 lease_error) (mq_jobs demo_queue)))) = Some ''job_u''"
    and "length (mq_jobs demo_queue) = 2"
    by code_simp+
  with c map_eq_imp_length_eq [OF c(3)] show ?thesis by auto
qed

end
