(* ===== verification/RedisQueue.thy ===== *)
theory RedisQueue
  imports JobQueue
begin

text \<open>
  \<open>RedisJobQueue\<close> of \<^verbatim>\<open>workers/queue.py\<close>: the envelopes are JSON texts in one hash, the
  identifiers of waiting jobs are in one list per type. The Redis client and pydantic's JSON
  encoder are parameters (\<open>redis_client\<close>, an argument of every operation); what the code relies
  on is \<open>redis_ok\<close>, the documented behaviour of RPUSH, LPOP, LRANGE, HSET, HGET and HVALS and
  the round trip of \<open>model_dump_json\<close>. Under it this queue keeps the contract \<open>job_queue\<close>.
\<close>

datatype key_type = RK_none | RK_list | RK_hash

text \<open>\<open>rc_type\<close> is what the command TYPE answers; the code never asks, the laws do. A client
  made with \<open>decode_responses=True\<close> answers strings; \<open>'v\<close> is the type of the JSON texts.\<close>

record ('c, 'v) redis_client =
  rc_type :: "'c \<Rightarrow> string \<Rightarrow> key_type"
  rc_rpush :: "string \<Rightarrow> string \<Rightarrow> 'c \<Rightarrow> 'c"
  rc_lpop :: "string \<Rightarrow> 'c \<Rightarrow> string option \<times> 'c"
  rc_lrange :: "string \<Rightarrow> 'c \<Rightarrow> string list"
  rc_hset :: "string \<Rightarrow> string \<Rightarrow> 'v \<Rightarrow> 'c \<Rightarrow> 'c"
  rc_hget :: "string \<Rightarrow> string \<Rightarrow> 'c \<Rightarrow> 'v option"
  rc_hvals :: "string \<Rightarrow> 'c \<Rightarrow> 'v list"
  rc_dumps :: "job \<Rightarrow> 'v"
  rc_loads :: "'v \<Rightarrow> job option"

record 'c redis_queue = world +
  rq_client :: 'c
  rq_prefix :: string

definition pending_key :: "string \<Rightarrow> job_type \<Rightarrow> string" where
  "pending_key p ty = p @ '':'' @ job_type_value ty @ '':pending''"

definition dead_key :: "string \<Rightarrow> job_type \<Rightarrow> string" where
  "dead_key p ty = p @ '':'' @ job_type_value ty @ '':dead''"

definition jobs_key :: "string \<Rightarrow> string" where
  "jobs_key p = p @ '':jobs''"

definition redis_parse :: "('c, 'v) redis_client \<Rightarrow> 'v \<Rightarrow> ('c redis_queue, job) op" where
  "redis_parse R raw = (case rc_loads R raw of
       Some j \<Rightarrow> ret j
     | None \<Rightarrow> raise (ValidationError ''JobEnvelope''))"

definition redis_write :: "('c, 'v) redis_client \<Rightarrow> job \<Rightarrow> ('c redis_queue, unit) op" where
  "redis_write R j = modify (\<lambda>q. q\<lparr>rq_client :=
     rc_hset R (jobs_key (rq_prefix q)) (jb_id j) (rc_dumps R j) (rq_client q)\<rparr>)"

definition redis_rpush :: "('c, 'v) redis_client \<Rightarrow> (string \<Rightarrow> string) \<Rightarrow> string \<Rightarrow> ('c redis_queue, unit) op" where
  "redis_rpush R key x =
     modify (\<lambda>q. q\<lparr>rq_client := rc_rpush R (key (rq_prefix q)) x (rq_client q)\<rparr>)"

definition redis_read_or_none :: "('c, 'v) redis_client \<Rightarrow> string \<Rightarrow> ('c redis_queue, job option) op" where
  "redis_read_or_none R job_id =
     andThen (gets (\<lambda>q. rc_hget R (jobs_key (rq_prefix q)) job_id (rq_client q))) (\<lambda>raw.
     case raw of
       None \<Rightarrow> ret None
     | Some r \<Rightarrow> andThen (redis_parse R r) (\<lambda>j. ret (Some j)))"

definition redis_get :: "('c, 'v) redis_client \<Rightarrow> string \<Rightarrow> ('c redis_queue, job) op" where
  "redis_get R job_id =
     andThen (redis_read_or_none R job_id) (\<lambda>found.
     case found of
       Some j \<Rightarrow> ret j
     | None \<Rightarrow> raise (NotFoundError (''Job not found: '' @ job_id)))"

definition redis_list_jobs :: "('c, 'v) redis_client \<Rightarrow> ('c redis_queue, job list) op" where
  "redis_list_jobs R =
     andThen (gets (\<lambda>q. rc_hvals R (jobs_key (rq_prefix q)) (rq_client q))) (\<lambda>raws.
     for_each raws (redis_parse R))"

definition redis_enqueue ::
  "('c, 'v) redis_client \<Rightarrow> job_type \<Rightarrow> json_obj \<Rightarrow> datetime option \<Rightarrow> int \<Rightarrow> ('c redis_queue, job) op" where
  "redis_enqueue R job_type payload now max_attempts =
     andThen (resolve_now now) (\<lambda>resolved_now.
     andThen (new_id ''job'') (\<lambda>job_id.
     andThen (require (1 \<le> max_attempts) (ValidationError ''JobEnvelope'')) (\<lambda>_.
     let j = new_job job_id job_type payload resolved_now max_attempts in
     andThen (redis_write R j) (\<lambda>_.
     andThen (redis_rpush R (\<lambda>p. pending_key p job_type) (jb_id j)) (\<lambda>_.
     ret j)))))"

text \<open>Writing back a job that \<open>retried_job\<close> retries or gives up, and queueing its identifier.\<close>

definition redis_requeue :: "('c, 'v) redis_client \<Rightarrow> job \<Rightarrow> job \<Rightarrow> ('c redis_queue, job) op" where
  "redis_requeue R j u =
     andThen (redis_write R u) (\<lambda>_.
     andThen (if jb_attempts j < jb_max_attempts j
        then redis_rpush R (\<lambda>p. pending_key p (jb_type u)) (jb_id u)
        else redis_rpush R (\<lambda>p. dead_key p (jb_type u)) (jb_id u)) (\<lambda>_.
     ret u))"

definition redis_reap ::
  "('c, 'v) redis_client \<Rightarrow> job_type option \<Rightarrow> datetime option \<Rightarrow> string \<Rightarrow> ('c redis_queue, job list) op" where
  "redis_reap R job_type now err =
     andThen (resolve_now now) (\<lambda>resolved_now.
     andThen (redis_list_jobs R) (\<lambda>js.
     for_each (filter (reapable job_type resolved_now) js)
       (\<lambda>j. redis_requeue R j (retried_job err resolved_now resolved_now j))))"

text \<open>The loop \<open>while True\<close> of \<open>claim\<close>; that it returns is a theorem.\<close>

partial_function (option) redis_claim_loop ::
  "('c, 'v) redis_client \<Rightarrow> job_type \<Rightarrow> string \<Rightarrow> datetime \<Rightarrow> int \<Rightarrow> 'c redis_queue
   \<Rightarrow> ((error + job option) \<times> 'c redis_queue) option" where
  "redis_claim_loop R ty w now l q =
     (case rc_lpop R (pending_key (rq_prefix q) ty) (rq_client q) of
        (popped, c) \<Rightarrow>
          (case popped of
             None \<Rightarrow> Some (Inr None, q\<lparr>rq_client := c\<rparr>)
           | Some job_id \<Rightarrow>
               (case redis_read_or_none R job_id (q\<lparr>rq_client := c\<rparr>) of
                  (r, q1) \<Rightarrow>
                    (case r of
                       Inl e \<Rightarrow> Some (Inl e, q1)
                     | Inr found \<Rightarrow>
                         (case found of
                            None \<Rightarrow> redis_claim_loop R ty w now l q1
                          | Some j \<Rightarrow>
                              if jb_status j \<noteq> JS_PENDING then redis_claim_loop R ty w now l q1
                              else if jb_available_at j > now
                              then Some (Inr None,
                                snd (redis_rpush R (\<lambda>p. pending_key p ty) (jb_id j) q1))
                              else Some (Inr (Some (claimed_job w now l j)),
                                snd (redis_write R (claimed_job w now l j) q1)))))))"

definition redis_claim ::
  "('c, 'v) redis_client \<Rightarrow> job_type \<Rightarrow> string \<Rightarrow> datetime option \<Rightarrow> int \<Rightarrow> 'c redis_queue
   \<Rightarrow> ((error + job option) \<times> 'c redis_queue) option" where
  "redis_claim R job_type worker_id now lease_seconds q =
     (case andThen (resolve_now now) (\<lambda>t.
           andThen (redis_reap R (Some job_type) (Some t) lease_error) (\<lambda>_. ret t)) q of
        (Inl e, q1) \<Rightarrow> Some (Inl e, q1)
      | (Inr t, q1) \<Rightarrow> redis_claim_loop R job_type worker_id t lease_seconds q1)"

definition redis_ack :: "('c, 'v) redis_client \<Rightarrow> string \<Rightarrow> datetime option \<Rightarrow> ('c redis_queue, job) op" where
  "redis_ack R job_id now =
     andThen (redis_get R job_id) (\<lambda>j.
     andThen (resolve_now now) (\<lambda>t.
     andThen (redis_write R (acked_job t j)) (\<lambda>_.
     ret (acked_job t j))))"

definition redis_fail ::
  "('c, 'v) redis_client \<Rightarrow> string \<Rightarrow> string \<Rightarrow> datetime option \<Rightarrow> ('c redis_queue, job) op" where
  "redis_fail R job_id err now =
     andThen (redis_get R job_id) (\<lambda>j.
     andThen (resolve_now now) (\<lambda>t.
     andThen (redis_write R (failed_job err t j)) (\<lambda>_.
     ret (failed_job err t j))))"

definition redis_reject ::
  "('c, 'v) redis_client \<Rightarrow> string \<Rightarrow> string \<Rightarrow> datetime option \<Rightarrow> int \<Rightarrow> ('c redis_queue, job) op" where
  "redis_reject R job_id err now retry_delay_seconds =
     andThen (resolve_now now) (\<lambda>t.
     andThen (redis_get R job_id) (\<lambda>j.
     redis_requeue R j (retried_job err (t + retry_delay_seconds * 1000000) t j)))"

definition redis_dead_letters_of :: "('c, 'v) redis_client \<Rightarrow> job_type \<Rightarrow> ('c redis_queue, job list) op" where
  "redis_dead_letters_of R job_type =
     andThen (gets (\<lambda>q. rc_lrange R (dead_key (rq_prefix q) job_type) (rq_client q))) (\<lambda>ids.
     for_each ids (redis_get R))"

definition redis_list_dead_letters :: "('c, 'v) redis_client \<Rightarrow> job_type option \<Rightarrow> ('c redis_queue, job list) op" where
  "redis_list_dead_letters R job_type = (case job_type of
       Some ty \<Rightarrow> redis_dead_letters_of R ty
     | None \<Rightarrow> andThen (for_each enum_class.enum (redis_dead_letters_of R)) (\<lambda>jss. ret (concat jss)))"

section \<open>The documented behaviour the code relies on\<close>

definition rpush_law :: "('c, 'v) redis_client \<Rightarrow> bool" where
  "rpush_law R \<longleftrightarrow> (\<forall>k x c. rc_type R c k \<noteq> RK_hash \<longrightarrow>
     rc_type R (rc_rpush R k x c) = (rc_type R c)(k := RK_list)
     \<and> rc_lrange R k (rc_rpush R k x c) = rc_lrange R k c @ [x]
     \<and> (\<forall>k'. k' \<noteq> k \<longrightarrow> rc_lrange R k' (rc_rpush R k x c) = rc_lrange R k' c)
     \<and> (\<forall>k' f. k' \<noteq> k \<longrightarrow> rc_hget R k' f (rc_rpush R k x c) = rc_hget R k' f c))"

definition lpop_law :: "('c, 'v) redis_client \<Rightarrow> bool" where
  "lpop_law R \<longleftrightarrow> (\<forall>k c. rc_type R c k \<noteq> RK_hash \<longrightarrow>
     (case rc_lrange R k c of
        [] \<Rightarrow> rc_lpop R k c = (None, c)
      | x # xs \<Rightarrow> \<exists>c'. rc_lpop R k c = (Some x, c') \<and> rc_lrange R k c' = xs
          \<and> rc_type R c' = (rc_type R c)(k := if xs = [] then RK_none else RK_list)
          \<and> (\<forall>k'. k' \<noteq> k \<longrightarrow> rc_lrange R k' c' = rc_lrange R k' c)
          \<and> (\<forall>k' f. k' \<noteq> k \<longrightarrow> rc_hget R k' f c' = rc_hget R k' f c)))"

definition hset_law :: "('c, 'v) redis_client \<Rightarrow> bool" where
  "hset_law R \<longleftrightarrow> (\<forall>k f v c. rc_type R c k \<noteq> RK_list \<longrightarrow>
     rc_type R (rc_hset R k f v c) = (rc_type R c)(k := RK_hash)
     \<and> (\<forall>f'. rc_hget R k f' (rc_hset R k f v c) = (if f' = f then Some v else rc_hget R k f' c))
     \<and> (\<forall>k'. k' \<noteq> k \<longrightarrow> rc_lrange R k' (rc_hset R k f v c) = rc_lrange R k' c)
     \<and> (\<forall>k' f'. k' \<noteq> k \<longrightarrow> rc_hget R k' f' (rc_hset R k f v c) = rc_hget R k' f' c))"

text \<open>HVALS answers the value of every field once, in any order.\<close>

definition hvals_law :: "('c, 'v) redis_client \<Rightarrow> bool" where
  "hvals_law R \<longleftrightarrow> (\<forall>k c. rc_type R c k \<noteq> RK_list \<longrightarrow>
     (\<exists>fs. distinct fs \<and> set fs = {f. rc_hget R k f c \<noteq> None}
        \<and> rc_hvals R k c = map (\<lambda>f. the (rc_hget R k f c)) fs))"

definition redis_ok :: "('c, 'v) redis_client \<Rightarrow> bool" where
  "redis_ok R \<longleftrightarrow> rpush_law R \<and> lpop_law R \<and> hset_law R \<and> hvals_law R
     \<and> (\<forall>j. rc_loads R (rc_dumps R j) = Some j)"

section \<open>The contract\<close>

definition redis_jobs :: "('c, 'v) redis_client \<Rightarrow> 'c redis_queue \<Rightarrow> job_map" where
  "redis_jobs R q =
     (\<lambda>i. Option.bind (rc_hget R (jobs_key (rq_prefix q)) i (rq_client q)) (rc_loads R))"

definition redis_pending :: "('c, 'v) redis_client \<Rightarrow> 'c redis_queue \<Rightarrow> job_type \<Rightarrow> string list" where
  "redis_pending R q = (\<lambda>ty. rc_lrange R (pending_key (rq_prefix q) ty) (rq_client q))"

definition redis_wf :: "('c, 'v) redis_client \<Rightarrow> 'c redis_queue \<Rightarrow> bool" where
  "redis_wf R q \<longleftrightarrow>
     (\<forall>ty. rc_type R (rq_client q) (pending_key (rq_prefix q) ty) \<noteq> RK_hash
         \<and> rc_type R (rq_client q) (dead_key (rq_prefix q) ty) \<noteq> RK_hash)
     \<and> rc_type R (rq_client q) (jobs_key (rq_prefix q)) \<noteq> RK_list
     \<and> (\<forall>i. rc_hget R (jobs_key (rq_prefix q)) i (rq_client q) \<noteq> None \<longrightarrow> redis_jobs R q i \<noteq> None)"

text \<open>No job is lost: the identifier of every waiting job is on the list of its type, and every
  identifier there belongs to a job of the type.\<close>

definition redis_inv :: "('c, 'v) redis_client \<Rightarrow> 'c redis_queue \<Rightarrow> bool" where
  "redis_inv R q \<longleftrightarrow> redis_wf R q \<and> unique_uuids q
     \<and> (\<forall>i j. redis_jobs R q i = Some j \<longrightarrow> jb_id j = i \<and> issued ''job'' q i
         \<and> (jb_status j = JS_PENDING \<longrightarrow> i \<in> set (redis_pending R q (jb_type j))))
     \<and> (\<forall>ty. \<forall>i \<in> set (redis_pending R q ty). \<exists>j. redis_jobs R q i = Some j \<and> jb_type j = ty)"

lemma redis_keys [simp]:
  "pending_key p ty = pending_key p ty' \<longleftrightarrow> ty = ty'" "pending_key p ty \<noteq> dead_key p ty'"
  "dead_key p ty' \<noteq> pending_key p ty"
  "pending_key p ty \<noteq> jobs_key p" "jobs_key p \<noteq> pending_key p ty"
  "dead_key p ty \<noteq> jobs_key p" "jobs_key p \<noteq> dead_key p ty"
  by (cases ty; cases ty'; simp add: pending_key_def dead_key_def jobs_key_def)+

text \<open>What a step leaves of the rest of the state.\<close>

definition same_world :: "'c redis_queue \<Rightarrow> 'c redis_queue \<Rightarrow> bool" where
  "same_world q q' \<longleftrightarrow> q' = q\<lparr>rq_client := rq_client q'\<rparr>"

lemma same_worldD:
  assumes "same_world q q'"
  shows "clock q' = clock q" and "uuid4_hex q' = uuid4_hex q" and "tick q' = tick q"
    and "rq_prefix q' = rq_prefix q"
proof -
  note q' = assms [unfolded same_world_def]
  show "clock q' = clock q" by (subst q') simp
  show "uuid4_hex q' = uuid4_hex q" by (subst q') simp
  show "tick q' = tick q" by (subst q') simp
  show "rq_prefix q' = rq_prefix q" by (subst q') simp
qed

lemma same_world_refl: "same_world q q"
  by (simp add: same_world_def)

lemma same_world_trans: "same_world q q1 \<Longrightarrow> same_world q1 q2 \<Longrightarrow> same_world q q2"
  unfolding same_world_def by (metis (no_types, lifting) redis_queue.update_convs(1) redis_queue.surjective)

lemma redis_write_law:
  assumes ok: "redis_ok R" and wf: "redis_wf R q"
  shows "\<exists>q'. redis_write R j q = (Inr (), q') \<and> redis_wf R q' \<and> same_world q q'
    \<and> redis_jobs R q' = (redis_jobs R q)(jb_id j \<mapsto> j) \<and> redis_pending R q' = redis_pending R q"
proof -
  let ?k = "jobs_key (rq_prefix q)"
  let ?q = "q\<lparr>rq_client := rc_hset R ?k (jb_id j) (rc_dumps R j) (rq_client q)\<rparr>"
  have "hset_law R" and load: "rc_loads R (rc_dumps R j) = Some j" using ok by (simp_all add: redis_ok_def)
  moreover have "rc_type R (rq_client q) ?k \<noteq> RK_list" using wf by (simp add: redis_wf_def)
  ultimately have
    ty: "rc_type R (rq_client ?q) = (rc_type R (rq_client q))(?k := RK_hash)"
    and get: "\<And>f'. rc_hget R ?k f' (rq_client ?q)
        = (if f' = jb_id j then Some (rc_dumps R j) else rc_hget R ?k f' (rq_client q))"
    and lst: "\<And>k'. k' \<noteq> ?k \<Longrightarrow> rc_lrange R k' (rq_client ?q) = rc_lrange R k' (rq_client q)"
    unfolding hset_law_def by (simp_all add: fun_eq_iff)
  have jobs: "redis_jobs R ?q = (redis_jobs R q)(jb_id j \<mapsto> j)"
    using get load by (simp add: redis_jobs_def fun_eq_iff)
  have pend: "redis_pending R ?q = redis_pending R q"
    using lst by (simp add: redis_pending_def fun_eq_iff)
  have "redis_wf R ?q"
    using wf get ty unfolding redis_wf_def jobs by simp
  with jobs pend show ?thesis
    by (intro exI [of _ ?q]) (simp add: redis_write_def modify_apply same_world_def)
qed

lemma redis_rpush_law:
  assumes ok: "redis_ok R" and wf: "redis_wf R q"
  shows "\<exists>q'. redis_rpush R (\<lambda>p. pending_key p ty) x q = (Inr (), q') \<and> redis_wf R q' \<and> same_world q q'
      \<and> redis_jobs R q' = redis_jobs R q
      \<and> redis_pending R q' = (redis_pending R q)(ty := redis_pending R q ty @ [x])" (is ?pending)
    and "\<exists>q'. redis_rpush R (\<lambda>p. dead_key p ty) x q = (Inr (), q') \<and> redis_wf R q' \<and> same_world q q'
      \<and> redis_jobs R q' = redis_jobs R q \<and> redis_pending R q' = redis_pending R q" (is ?dead)
proof -
  have push: "rc_type R (rc_rpush R k x (rq_client q)) = (rc_type R (rq_client q))(k := RK_list)
     \<and> rc_lrange R k (rc_rpush R k x (rq_client q)) = rc_lrange R k (rq_client q) @ [x]
     \<and> (\<forall>k'. k' \<noteq> k \<longrightarrow> rc_lrange R k' (rc_rpush R k x (rq_client q)) = rc_lrange R k' (rq_client q))
     \<and> (\<forall>k' f. k' \<noteq> k \<longrightarrow> rc_hget R k' f (rc_rpush R k x (rq_client q)) = rc_hget R k' f (rq_client q))"
    if "rc_type R (rq_client q) k \<noteq> RK_hash" for k
    using ok that unfolding redis_ok_def rpush_law_def by blast
  let ?q = "\<lambda>k. q\<lparr>rq_client := rc_rpush R k x (rq_client q)\<rparr>"
  let ?p = "pending_key (rq_prefix q) ty" and ?d = "dead_key (rq_prefix q) ty"
  have p: "rc_type R (rq_client q) ?p \<noteq> RK_hash" and d: "rc_type R (rq_client q) ?d \<noteq> RK_hash"
    using wf by (simp_all add: redis_wf_def)
  note p = push [OF p] and d = push [OF d]
  have jobs: "redis_jobs R (?q ?p) = redis_jobs R q" "redis_jobs R (?q ?d) = redis_jobs R q"
    using p d by (simp_all add: redis_jobs_def fun_eq_iff)
  have "redis_wf R (?q ?p)" "redis_wf R (?q ?d)"
    using wf p d unfolding redis_wf_def jobs by simp_all
  moreover have "redis_pending R (?q ?p) = (redis_pending R q)(ty := redis_pending R q ty @ [x])"
    "redis_pending R (?q ?d) = redis_pending R q"
    using p d by (simp_all add: redis_pending_def fun_eq_iff)
  ultimately show ?pending ?dead
    using jobs by (simp_all add: redis_rpush_def modify_apply same_world_def)
qed

lemma redis_lpop_law:
  assumes ok: "redis_ok R" and wf: "redis_wf R q"
  shows "case redis_pending R q ty of
      [] \<Rightarrow> rc_lpop R (pending_key (rq_prefix q) ty) (rq_client q) = (None, rq_client q)
    | x # xs \<Rightarrow> \<exists>c. rc_lpop R (pending_key (rq_prefix q) ty) (rq_client q) = (Some x, c)
        \<and> redis_wf R (q\<lparr>rq_client := c\<rparr>) \<and> redis_jobs R (q\<lparr>rq_client := c\<rparr>) = redis_jobs R q
        \<and> redis_pending R (q\<lparr>rq_client := c\<rparr>) = (redis_pending R q)(ty := xs)"
proof -
  let ?k = "pending_key (rq_prefix q) ty"
  have "rc_type R (rq_client q) ?k \<noteq> RK_hash" using wf by (simp add: redis_wf_def)
  then have pop: "case rc_lrange R ?k (rq_client q) of
        [] \<Rightarrow> rc_lpop R ?k (rq_client q) = (None, rq_client q)
      | x # xs \<Rightarrow> \<exists>c'. rc_lpop R ?k (rq_client q) = (Some x, c') \<and> rc_lrange R ?k c' = xs
          \<and> rc_type R c' = (rc_type R (rq_client q))(?k := if xs = [] then RK_none else RK_list)
          \<and> (\<forall>k'. k' \<noteq> ?k \<longrightarrow> rc_lrange R k' c' = rc_lrange R k' (rq_client q))
          \<and> (\<forall>k' f. k' \<noteq> ?k \<longrightarrow> rc_hget R k' f c' = rc_hget R k' f (rq_client q))"
    using ok unfolding redis_ok_def lpop_law_def by blast
  show ?thesis
  proof (cases "redis_pending R q ty")
    case Nil
    with pop show ?thesis by (simp add: redis_pending_def)
  next
    case (Cons x xs)
    with pop obtain c where c: "rc_lpop R ?k (rq_client q) = (Some x, c)" "rc_lrange R ?k c = xs"
      "rc_type R c = (rc_type R (rq_client q))(?k := if xs = [] then RK_none else RK_list)"
      "\<And>k'. k' \<noteq> ?k \<Longrightarrow> rc_lrange R k' c = rc_lrange R k' (rq_client q)"
      "\<And>k' f. k' \<noteq> ?k \<Longrightarrow> rc_hget R k' f c = rc_hget R k' f (rq_client q)"
      by (auto simp: redis_pending_def)
    have jobs: "redis_jobs R (q\<lparr>rq_client := c\<rparr>) = redis_jobs R q"
      using c by (simp add: redis_jobs_def fun_eq_iff)
    moreover have "redis_pending R (q\<lparr>rq_client := c\<rparr>) = (redis_pending R q)(ty := xs)"
      using c by (simp add: redis_pending_def fun_eq_iff)
    moreover have "redis_wf R (q\<lparr>rq_client := c\<rparr>)"
      using wf c unfolding redis_wf_def jobs by simp
    ultimately show ?thesis using Cons c(1) by simp
  qed
qed

text \<open>Reading a job.\<close>

lemma redis_read_eval:
  assumes "redis_wf R q"
  shows "redis_read_or_none R i q = (Inr (redis_jobs R q i), q)"
  using assms unfolding redis_wf_def
  by (auto simp: redis_read_or_none_def op_simps redis_jobs_def redis_parse_def
      split: option.splits)

lemma redis_get_eval:
  assumes "redis_wf R q"
  shows "redis_get R i q = ((case redis_jobs R q i of
      Some j \<Rightarrow> Inr j | None \<Rightarrow> Inl (NotFoundError (''Job not found: '' @ i))), q)"
  by (simp add: redis_get_def andThen_apply redis_read_eval [OF assms] op_simps split: option.splits)

section \<open>Preservation\<close>

lemma redis_invD:
  assumes "redis_inv R q"
  shows "redis_wf R q" and "unique_uuids q"
    and "redis_jobs R q i = Some j \<Longrightarrow> jb_id j = i"
    and "redis_jobs R q i = Some j \<Longrightarrow> issued ''job'' q i"
    and "i \<in> set (redis_pending R q ty) \<Longrightarrow> \<exists>j. redis_jobs R q i = Some j \<and> jb_type j = ty"
  using assms by (auto simp: redis_inv_def)

text \<open>The one shape of change all operations but \<open>enqueue\<close> make: a job is rewritten and its
  identifier is queued or taken off.\<close>

lemma redis_inv_update:
  assumes inv: "redis_inv R q" and wf: "redis_wf R q'" and same: "same_world q q'"
    and job: "redis_jobs R q i = Some j" and u: "jb_id u = i" "jb_type u = jb_type j"
    and jobs: "redis_jobs R q' = (redis_jobs R q)(i \<mapsto> u)"
    and sub: "\<And>ty x. x \<in> set (redis_pending R q' ty) \<Longrightarrow>
      x \<in> set (redis_pending R q ty) \<or> x = i \<and> ty = jb_type u"
    and keep: "\<And>ty x. x \<in> set (redis_pending R q ty) \<Longrightarrow> x \<noteq> i \<Longrightarrow> x \<in> set (redis_pending R q' ty)"
    and waiting: "jb_status u = JS_PENDING \<Longrightarrow> i \<in> set (redis_pending R q' (jb_type u))"
  shows "redis_inv R q'"
proof -
  note w = same_worldD [OF same]
  have issued: "issued ''job'' q' x \<longleftrightarrow> issued ''job'' q x" for x
    using w by (simp add: issued_def)
  have "unique_uuids q'" using redis_invD(2) [OF inv] w by (simp add: unique_uuids_def)
  moreover have "jb_id j' = k \<and> issued ''job'' q' k
      \<and> (jb_status j' = JS_PENDING \<longrightarrow> k \<in> set (redis_pending R q' (jb_type j')))"
    if "redis_jobs R q' k = Some j'" for k j'
  proof (cases "k = i")
    case True
    with that jobs u waiting redis_invD(4) [OF inv job] issued show ?thesis by simp
  next
    case False
    with that jobs have "redis_jobs R q k = Some j'" by simp
    with inv False keep issued show ?thesis by (auto simp: redis_inv_def)
  qed
  moreover have "\<exists>j'. redis_jobs R q' x = Some j' \<and> jb_type j' = ty"
    if "x \<in> set (redis_pending R q' ty)" for x ty
    using sub [OF that] redis_invD(5) [OF inv, of x ty] jobs u job by auto
  ultimately show ?thesis using wf unfolding redis_inv_def by blast
qed

lemma redis_inv_tick:
  assumes "redis_inv R q" and "tick q \<le> n"
  shows "redis_inv R (q\<lparr>tick := n\<rparr>)"
proof -
  have "redis_jobs R (q\<lparr>tick := n\<rparr>) = redis_jobs R q" "redis_pending R (q\<lparr>tick := n\<rparr>) = redis_pending R q"
    by (simp_all add: redis_jobs_def redis_pending_def)
  moreover have "redis_wf R (q\<lparr>tick := n\<rparr>) \<longleftrightarrow> redis_wf R q"
    by (simp add: redis_wf_def redis_jobs_def)
  moreover have "issued ''job'' q x \<Longrightarrow> issued ''job'' (q\<lparr>tick := n\<rparr>) x" for x
    by (rule issued_mono) (use assms(2) in simp_all)
  ultimately show ?thesis
    using assms(1) unfolding redis_inv_def by (simp add: unique_uuids_def)
qed

lemma redis_jobs_tick [simp]: "redis_jobs R (q\<lparr>tick := n\<rparr>) = redis_jobs R q"
  by (simp add: redis_jobs_def)

lemma redis_requeue_law:
  assumes ok: "redis_ok R" and inv: "redis_inv R q" and job: "redis_jobs R q i = Some j"
    and u: "u = retried_job e a t j"
  shows "\<exists>q'. redis_requeue R j u q = (Inr u, q') \<and> redis_inv R q' \<and> same_world q q'
    \<and> redis_jobs R q' = (redis_jobs R q)(i \<mapsto> u)"
proof -
  have id: "jb_id u = i" "jb_type u = jb_type j" using u redis_invD(3) [OF inv job] by simp_all
  obtain q1 where w: "redis_write R u q = (Inr (), q1)" "redis_wf R q1" "same_world q q1"
    "redis_jobs R q1 = (redis_jobs R q)(i \<mapsto> u)" "redis_pending R q1 = redis_pending R q"
    using redis_write_law [OF ok redis_invD(1) [OF inv], of u] id by auto
  show ?thesis
  proof (cases "jb_attempts j < jb_max_attempts j")
    case True
    obtain q2 where p: "redis_rpush R (\<lambda>p. pending_key p (jb_type u)) (jb_id u) q1 = (Inr (), q2)"
      "redis_wf R q2" "same_world q1 q2" "redis_jobs R q2 = redis_jobs R q1"
      "redis_pending R q2 = (redis_pending R q1)(jb_type u := redis_pending R q1 (jb_type u) @ [jb_id u])"
      using redis_rpush_law(1) [OF ok w(2), of "jb_type u" "jb_id u"] by auto
    have "same_world q q2" using w(3) p(3) by (rule same_world_trans)
    moreover have "redis_inv R q2"
      by (rule redis_inv_update [OF inv p(2) calculation job id])
        (use w p id in \<open>auto split: if_splits\<close>)
    ultimately show ?thesis
      using True w p by (simp add: redis_requeue_def op_simps)
  next
    case False
    obtain q2 where p: "redis_rpush R (\<lambda>p. dead_key p (jb_type u)) (jb_id u) q1 = (Inr (), q2)"
      "redis_wf R q2" "same_world q1 q2" "redis_jobs R q2 = redis_jobs R q1"
      "redis_pending R q2 = redis_pending R q1"
      using redis_rpush_law(2) [OF ok w(2), of "jb_type u" "jb_id u"] by auto
    have "same_world q q2" using w(3) p(3) by (rule same_world_trans)
    moreover have "jb_status u \<noteq> JS_PENDING" using u False by simp
    moreover have "redis_inv R q2"
      by (rule redis_inv_update [OF inv p(2) calculation(1) job id])
        (use w p id calculation(2) in auto)
    ultimately show ?thesis
      using False w p by (simp add: redis_requeue_def op_simps)
  qed
qed

lemma redis_requeue_all:
  assumes ok: "redis_ok R" and "redis_inv R q" and "distinct (map jb_id js)"
    and "\<forall>j \<in> set js. redis_jobs R q (jb_id j) = Some j"
  shows "\<exists>q'. for_each js (\<lambda>j. redis_requeue R j (retried_job e t t j)) q
      = (Inr (map (retried_job e t t) js), q') \<and> redis_inv R q' \<and> same_world q q'
    \<and> redis_jobs R q' = (\<lambda>i. if i \<in> jb_id ` set js
        then map_option (retried_job e t t) (redis_jobs R q i) else redis_jobs R q i)"
  using assms(2-)
proof (induction js arbitrary: q)
  case Nil
  then show ?case by (simp add: ret_apply same_world_refl)
next
  case (Cons j js)
  obtain q1 where q1: "redis_requeue R j (retried_job e t t j) q = (Inr (retried_job e t t j), q1)"
    "redis_inv R q1" "same_world q q1"
    "redis_jobs R q1 = (redis_jobs R q)(jb_id j \<mapsto> retried_job e t t j)"
    using redis_requeue_law [OF ok Cons.prems(1) _ refl, of "jb_id j" j e t t] Cons.prems(3) by auto
  have "\<forall>k \<in> set js. redis_jobs R q1 (jb_id k) = Some k"
    using Cons.prems q1(4) by (auto simp: image_iff)
  then obtain q2 where q2: "for_each js (\<lambda>j. redis_requeue R j (retried_job e t t j)) q1
      = (Inr (map (retried_job e t t) js), q2)" "redis_inv R q2" "same_world q1 q2"
    "redis_jobs R q2 = (\<lambda>i. if i \<in> jb_id ` set js
        then map_option (retried_job e t t) (redis_jobs R q1 i) else redis_jobs R q1 i)"
    using Cons.IH [OF q1(2)] Cons.prems(2) by auto
  have "same_world q q2" using q1(3) q2(3) by (rule same_world_trans)
  moreover have "redis_jobs R q2 = (\<lambda>i. if i \<in> jb_id ` set (j # js)
      then map_option (retried_job e t t) (redis_jobs R q i) else redis_jobs R q i)"
    using q2(4) q1(4) Cons.prems by (auto simp: fun_eq_iff)
  ultimately show ?case
    using q1(1) q2(1,2) by (simp add: op_simps)
qed

lemma for_each_pure:
  "(\<And>x. x \<in> set xs \<Longrightarrow> m x s = (Inr (h x), s)) \<Longrightarrow> for_each xs m s = (Inr (map h xs), s)"
  by (induction xs) (simp_all add: op_simps)

lemma redis_list_jobs_law:
  assumes ok: "redis_ok R" and inv: "redis_inv R q"
  shows "\<exists>js. redis_list_jobs R q = (Inr js, q) \<and> distinct (map jb_id js)
    \<and> (\<forall>j. j \<in> set js \<longleftrightarrow> redis_jobs R q (jb_id j) = Some j)"
proof -
  let ?k = "jobs_key (rq_prefix q)" and ?c = "rq_client q"
  have "rc_type R ?c ?k \<noteq> RK_list" using redis_invD(1) [OF inv] by (simp add: redis_wf_def)
  then obtain fs where fs: "distinct fs" "set fs = {f. rc_hget R ?k f ?c \<noteq> None}"
    "rc_hvals R ?k ?c = map (\<lambda>f. the (rc_hget R ?k f ?c)) fs"
    using ok unfolding redis_ok_def hvals_law_def by blast
  have some: "\<exists>j. redis_jobs R q f = Some j" if "f \<in> set fs" for f
    using that fs(2) redis_invD(1) [OF inv] unfolding redis_wf_def by blast
  let ?js = "map (\<lambda>f. the (redis_jobs R q f)) fs"
  have load: "rc_loads R (the (rc_hget R ?k f ?c)) = redis_jobs R q f" if "f \<in> set fs" for f
    using that fs(2) by (auto simp: redis_jobs_def)
  have "redis_list_jobs R q = for_each (map (\<lambda>f. the (rc_hget R ?k f ?c)) fs) (redis_parse R) q"
    by (simp add: redis_list_jobs_def op_simps fs(3))
  also have "\<dots> = (Inr (map (\<lambda>r. the (rc_loads R r)) (map (\<lambda>f. the (rc_hget R ?k f ?c)) fs)), q)"
    using some load by (intro for_each_pure) (fastforce simp: redis_parse_def ret_apply)
  also have "map (\<lambda>r. the (rc_loads R r)) (map (\<lambda>f. the (rc_hget R ?k f ?c)) fs) = ?js"
    using load by simp
  finally have run: "redis_list_jobs R q = (Inr ?js, q)" .
  have ids: "map jb_id ?js = fs"
  proof -
    have "jb_id (the (redis_jobs R q f)) = f" if "f \<in> set fs" for f
      using some [OF that] redis_invD(3) [OF inv] by auto
    then show ?thesis by (simp add: map_idI)
  qed
  have "j \<in> set ?js \<longleftrightarrow> redis_jobs R q (jb_id j) = Some j" for j
  proof
    assume "j \<in> set ?js"
    then obtain f where "f \<in> set fs" "j = the (redis_jobs R q f)" by auto
    with some [of f] redis_invD(3) [OF inv, of f] show "redis_jobs R q (jb_id j) = Some j" by auto
  next
    assume j: "redis_jobs R q (jb_id j) = Some j"
    then have "rc_hget R ?k (jb_id j) ?c \<noteq> None"
      by (auto simp: redis_jobs_def bind_eq_Some_conv)
    with fs(2) have "jb_id j \<in> set fs" by blast
    with j show "j \<in> set ?js" by (force simp: image_iff)
  qed
  with run ids fs(1) show ?thesis by auto
qed

lemma redis_reap_law:
  assumes ok: "redis_ok R" and inv: "redis_inv R q"
  shows "\<exists>t rs q'. redis_reap R jt now e q = (Inr rs, q') \<and> stamp now t \<and> redis_inv R q'
    \<and> redis_jobs R q' = reaped_map jt t e (redis_jobs R q)
    \<and> set rs = {retried_job e t t j | i j. redis_jobs R q i = Some j \<and> reapable jt t j}"
proof (cases rule: resolve_now_cases [of now q])
  case (1 t n)
  let ?q = "q\<lparr>tick := n\<rparr>"
  have inv1: "redis_inv R ?q" using inv 1(2) by (rule redis_inv_tick)
  obtain js where js: "redis_list_jobs R ?q = (Inr js, ?q)" "distinct (map jb_id js)"
    "\<And>j. j \<in> set js \<longleftrightarrow> redis_jobs R q (jb_id j) = Some j"
    using redis_list_jobs_law [OF ok inv1] by auto
  let ?rs = "filter (reapable jt t) js"
  have "distinct (map jb_id ?rs)" using js(2) by (simp add: distinct_map_filter)
  moreover have "\<forall>j \<in> set ?rs. redis_jobs R ?q (jb_id j) = Some j" using js(3) by simp
  ultimately obtain q' where q': "for_each ?rs (\<lambda>j. redis_requeue R j (retried_job e t t j)) ?q
      = (Inr (map (retried_job e t t) ?rs), q')" "redis_inv R q'"
    "redis_jobs R q' = (\<lambda>i. if i \<in> jb_id ` set ?rs
        then map_option (retried_job e t t) (redis_jobs R q i) else redis_jobs R q i)"
    using redis_requeue_all [OF ok inv1, of ?rs e t] unfolding redis_jobs_tick by blast
  have each: "redis_jobs R q' i = reaped_map jt t e (redis_jobs R q) i" for i
  proof (cases "redis_jobs R q i")
    case None
    with q'(3) show ?thesis by (simp add: reaped_map_def)
  next
    case (Some j)
    have mem: "i \<in> jb_id ` set ?rs \<longleftrightarrow> reapable jt t j"
    proof
      assume "i \<in> jb_id ` set ?rs"
      then obtain k where "k \<in> set js" "reapable jt t k" "jb_id k = i" by auto
      with js(3) [of k] Some show "reapable jt t j" by simp
    next
      assume r: "reapable jt t j"
      have id: "jb_id j = i" using redis_invD(3) [OF inv Some] .
      with Some js(3) [of j] have "j \<in> set js" by simp
      with r id show "i \<in> jb_id ` set ?rs" by auto
    qed
    show ?thesis unfolding q'(3) mem using Some by (simp add: reaped_map_def reaped_job_def)
  qed
  have "redis_jobs R q' = reaped_map jt t e (redis_jobs R q)" by (rule ext) (rule each)
  moreover have "set (map (retried_job e t t) ?rs)
      = {retried_job e t t j | i j. redis_jobs R q i = Some j \<and> reapable jt t j}" (is "?l = ?r")
  proof
    show "?l \<subseteq> ?r" using js(3) by auto
    have "retried_job e t t j \<in> ?l" if "redis_jobs R q i = Some j" "reapable jt t j" for i j
      using that js(3) [of j] redis_invD(3) [OF inv that(1)] by simp
    then show "?r \<subseteq> ?l" by blast
  qed
  moreover have "redis_reap R jt now e q = (Inr (map (retried_job e t t) ?rs), q')"
    using 1(1) js(1) q'(1) by (simp add: redis_reap_def op_simps)
  moreover have "stamp now t" using 1(3) by (simp add: stamp_def)
  ultimately show ?thesis using q'(2) by blast
qed

lemma redis_reap_at:
  assumes ok: "redis_ok R" and inv: "redis_inv R q"
  shows "\<exists>rs q'. redis_reap R jt (Some t) e q = (Inr rs, q') \<and> redis_inv R q'
    \<and> redis_jobs R q' = reaped_map jt t e (redis_jobs R q)"
  using redis_reap_law [OF ok inv, of jt "Some t" e] by (auto simp: stamp_def)

section \<open>The claim loop returns\<close>

text \<open>Each turn of the loop takes one identifier off the list; it goes on only past jobs that are
  no longer waiting, so the length of the list bounds the turns.\<close>

lemma redis_claim_loop_law:
  assumes ok: "redis_ok R" and "redis_inv R q"
  shows "\<exists>d q'. redis_claim_loop R ty w now l q = Some (Inr d, q') \<and> redis_inv R q'
    \<and> (case d of
         None \<Rightarrow> redis_jobs R q' = redis_jobs R q
           \<and> ((\<exists>i j. redis_jobs R q i = Some j \<and> jb_type j = ty \<and> jb_status j = JS_PENDING
                 \<and> now < jb_available_at j)
              \<or> (\<forall>i j. redis_jobs R q i = Some j \<longrightarrow> jb_type j = ty \<longrightarrow> jb_status j \<noteq> JS_PENDING))
       | Some j' \<Rightarrow> \<exists>j. redis_jobs R q (jb_id j) = Some j \<and> claimable_job ty now j
           \<and> j' = claimed_job w now l j \<and> redis_jobs R q' = (redis_jobs R q)(jb_id j \<mapsto> j'))"
  using assms(2)
proof (induction "redis_pending R q ty" arbitrary: q)
  case Nil
  note inv = Nil.prems
  have "rc_lpop R (pending_key (rq_prefix q) ty) (rq_client q) = (None, rq_client q)"
    using redis_lpop_law [OF ok redis_invD(1) [OF inv], of ty] Nil.hyps [symmetric] by simp
  then have "redis_claim_loop R ty w now l q = Some (Inr None, q)"
    by (subst redis_claim_loop.simps) simp
  moreover have "\<forall>i j. redis_jobs R q i = Some j \<longrightarrow> jb_type j = ty \<longrightarrow> jb_status j \<noteq> JS_PENDING"
    using inv Nil.hyps [symmetric] unfolding redis_inv_def by (metis empty_iff empty_set)
  ultimately show ?case using inv by simp
next
  case (Cons i xs)
  note inv = Cons.prems
  note pend = Cons.hyps(2) [symmetric]
  obtain c where pop: "rc_lpop R (pending_key (rq_prefix q) ty) (rq_client q) = (Some i, c)"
    and c: "redis_wf R (q\<lparr>rq_client := c\<rparr>)" "redis_jobs R (q\<lparr>rq_client := c\<rparr>) = redis_jobs R q"
      "redis_pending R (q\<lparr>rq_client := c\<rparr>) = (redis_pending R q)(ty := xs)"
    using redis_lpop_law [OF ok redis_invD(1) [OF inv], of ty] pend by auto
  obtain j where j: "redis_jobs R q i = Some j" "jb_type j = ty"
    using redis_invD(5) [OF inv, of i ty] pend by auto
  have id: "jb_id j = i" using redis_invD(3) [OF inv j(1)] .
  let ?q = "q\<lparr>rq_client := c\<rparr>"
  have same: "same_world q ?q" by (simp add: same_world_def)
  have turn: "redis_claim_loop R ty w now l q =
      (if jb_status j \<noteq> JS_PENDING then redis_claim_loop R ty w now l ?q
       else if jb_available_at j > now
       then Some (Inr None, snd (redis_rpush R (\<lambda>p. pending_key p ty) (jb_id j) ?q))
       else Some (Inr (Some (claimed_job w now l j)), snd (redis_write R (claimed_job w now l j) ?q)))"
    by (subst redis_claim_loop.simps) (simp add: pop redis_read_eval [OF c(1)] c(2) j(1))
  consider (skip) "jb_status j \<noteq> JS_PENDING"
    | (delayed) "jb_status j = JS_PENDING" "jb_available_at j > now"
    | (take) "jb_status j = JS_PENDING" "jb_available_at j \<le> now" by linarith
  then show ?case
  proof cases
    case skip
    have "redis_inv R ?q"
      by (rule redis_inv_update [OF inv c(1) same j(1) id refl])
        (use c(2,3) j skip pend in \<open>auto simp: fun_upd_idem_iff split: if_splits\<close>)
    moreover have "xs = redis_pending R ?q ty" using c(3) by simp
    ultimately show ?thesis
      using Cons.hyps(1) [of ?q] skip unfolding turn c(2) by simp
  next
    case delayed
    obtain q2 where q2: "redis_rpush R (\<lambda>p. pending_key p ty) (jb_id j) ?q = (Inr (), q2)"
      "redis_wf R q2" "same_world ?q q2" "redis_jobs R q2 = redis_jobs R ?q"
      "redis_pending R q2 = (redis_pending R ?q)(ty := redis_pending R ?q ty @ [jb_id j])"
      using redis_rpush_law(1) [OF ok c(1), of ty "jb_id j"] by auto
    have "redis_inv R q2"
      by (rule redis_inv_update [OF inv q2(2) same_world_trans [OF same q2(3)] j(1) id refl])
        (use c(2,3) j q2 pend id in \<open>auto simp: fun_upd_idem_iff split: if_splits\<close>)
    with turn delayed q2 c(2) j show ?thesis by auto
  next
    case take
    obtain q2 where q2: "redis_write R (claimed_job w now l j) ?q = (Inr (), q2)"
      "redis_wf R q2" "same_world ?q q2"
      "redis_jobs R q2 = (redis_jobs R ?q)(i \<mapsto> claimed_job w now l j)"
      "redis_pending R q2 = redis_pending R ?q"
      using redis_write_law [OF ok c(1), of "claimed_job w now l j"] id by auto
    have "redis_inv R q2"
      by (rule redis_inv_update [OF inv q2(2) same_world_trans [OF same q2(3)] j(1),
            of "claimed_job w now l j"])
        (use c(2,3) j q2 pend id in \<open>auto split: if_splits\<close>)
    with turn take q2 c(2) j id show ?thesis
      by (auto simp: claimable_job_def)
  qed
qed

section \<open>The laws of the contract\<close>

lemma redis_claim_law:
  assumes ok: "redis_ok R" and inv: "redis_inv R q"
  shows "\<exists>t d q'. redis_claim R ty w now l q = Some (Inr d, q') \<and> stamp now t \<and> redis_inv R q'
    \<and> (case d of
         None \<Rightarrow> redis_jobs R q' = reaped_map (Some ty) t lease_error (redis_jobs R q)
           \<and> ((\<exists>i j. redis_jobs R q' i = Some j \<and> jb_type j = ty \<and> jb_status j = JS_PENDING
                 \<and> t < jb_available_at j)
              \<or> (\<forall>i j. redis_jobs R q' i = Some j \<longrightarrow> jb_type j = ty \<longrightarrow> jb_status j \<noteq> JS_PENDING))
       | Some j' \<Rightarrow> \<exists>j. reaped_map (Some ty) t lease_error (redis_jobs R q) (jb_id j) = Some j
           \<and> claimable_job ty t j \<and> j' = claimed_job w t l j
           \<and> redis_jobs R q' = (reaped_map (Some ty) t lease_error (redis_jobs R q))(jb_id j \<mapsto> j'))"
proof (cases rule: resolve_now_cases [of now q])
  case (1 t n)
  have "redis_inv R (q\<lparr>tick := n\<rparr>)" using inv 1(2) by (rule redis_inv_tick)
  then obtain rs q1 where r: "redis_reap R (Some ty) (Some t) lease_error (q\<lparr>tick := n\<rparr>) = (Inr rs, q1)"
    "redis_inv R q1" "redis_jobs R q1 = reaped_map (Some ty) t lease_error (redis_jobs R q)"
    using redis_reap_at [OF ok, of "q\<lparr>tick := n\<rparr>" "Some ty" t lease_error] by auto
  have run: "redis_claim R ty w now l q = redis_claim_loop R ty w t l q1"
    using 1(1) r(1) by (simp add: redis_claim_def op_simps)
  have st: "stamp now t" using 1(3) by (simp add: stamp_def)
  obtain d q' where c: "redis_claim_loop R ty w t l q1 = Some (Inr d, q')" "redis_inv R q'"
    and d: "case d of
         None \<Rightarrow> redis_jobs R q' = redis_jobs R q1
           \<and> ((\<exists>i j. redis_jobs R q1 i = Some j \<and> jb_type j = ty \<and> jb_status j = JS_PENDING
                 \<and> t < jb_available_at j)
              \<or> (\<forall>i j. redis_jobs R q1 i = Some j \<longrightarrow> jb_type j = ty \<longrightarrow> jb_status j \<noteq> JS_PENDING))
       | Some j' \<Rightarrow> \<exists>j. redis_jobs R q1 (jb_id j) = Some j \<and> claimable_job ty t j
           \<and> j' = claimed_job w t l j \<and> redis_jobs R q' = (redis_jobs R q1)(jb_id j \<mapsto> j')"
    using redis_claim_loop_law [OF ok r(2), of ty w t l] by blast
  show ?thesis
    by (rule exI [of _ t], rule exI [of _ d], rule exI [of _ q'])
      (use run st c d r(3) in \<open>cases d; simp\<close>)
qed

lemma redis_enqueue_law:
  assumes ok: "redis_ok R" and inv: "redis_inv R q"
  shows "if mx < 1
    then \<exists>e q'. redis_enqueue R ty pl now mx q = (Inl e, q') \<and> redis_inv R q'
      \<and> redis_jobs R q' = redis_jobs R q
    else \<exists>i t q'. redis_enqueue R ty pl now mx q = (Inr (new_job i ty pl t mx), q') \<and> stamp now t
      \<and> redis_inv R q' \<and> redis_jobs R q i = None
      \<and> redis_jobs R q' = (redis_jobs R q)(i \<mapsto> new_job i ty pl t mx)"
proof (cases rule: resolve_now_cases [of now q])
  case (1 t n)
  define i where "i = ''job'' @ ''_'' @ uuid4_hex q n"
  let ?q = "q\<lparr>tick := Suc n\<rparr>" and ?j = "new_job i ty pl t mx"
  have inv1: "redis_inv R ?q" using inv 1(2) by (intro redis_inv_tick) simp_all
  show ?thesis
  proof (cases "mx < 1")
    case True
    with 1 inv1 show ?thesis by (auto simp: redis_enqueue_def op_simps new_id_def)
  next
    case False
    have "unique_uuids (q\<lparr>tick := n\<rparr>)" using redis_invD(2) [OF inv] by (simp add: unique_uuids_def)
    moreover have "issued ''job'' (q\<lparr>tick := n\<rparr>) k" if "redis_jobs R q k = Some j" for k j
      by (rule issued_mono [OF redis_invD(4) [OF inv that]]) (use 1(2) in simp_all)
    ultimately have fresh: "redis_jobs R q i = None"
      using new_id_fresh [of "q\<lparr>tick := n\<rparr>" "''job''" i] by (cases "redis_jobs R q i") (auto simp: i_def)
    have id: "jb_id ?j = i" "jb_type ?j = ty" "jb_status ?j = JS_PENDING" by (simp_all add: new_job_def)
    obtain q1 where w: "redis_write R ?j ?q = (Inr (), q1)" "redis_wf R q1" "same_world ?q q1"
      "redis_jobs R q1 = (redis_jobs R q)(i \<mapsto> ?j)" "redis_pending R q1 = redis_pending R ?q"
      using redis_write_law [OF ok redis_invD(1) [OF inv1], of ?j] id by auto
    obtain q2 where p: "redis_rpush R (\<lambda>p. pending_key p ty) (jb_id ?j) q1 = (Inr (), q2)"
      "redis_wf R q2" "same_world q1 q2" "redis_jobs R q2 = redis_jobs R q1"
      "redis_pending R q2 = (redis_pending R q1)(ty := redis_pending R q1 ty @ [i])"
      using redis_rpush_law(1) [OF ok w(2), of ty "jb_id ?j"] id by auto
    note same = same_worldD [OF same_world_trans [OF w(3) p(3)]]
    have new: "issued ''job'' q2 i"
      using same by (auto simp: issued_def i_def)
    have old: "issued ''job'' ?q k \<Longrightarrow> issued ''job'' q2 k" for k
      using same by (simp add: issued_def)
    have off: "i \<notin> set (redis_pending R ?q ty')" for ty'
      using redis_invD(5) [OF inv1, of i ty'] fresh by auto
    have "redis_inv R q2"
      using inv1 p(2) new old id off unfolding redis_inv_def unique_uuids_def
      by (auto simp: same p(4,5) w(4,5) split: if_splits)
    moreover have "redis_enqueue R ty pl now mx q = (Inr ?j, q2)"
      using 1(1) False w(1) p(1) by (simp add: redis_enqueue_def op_simps new_id_def Let_def i_def)
    moreover have "stamp now t" using 1(3) by (simp add: stamp_def)
    ultimately show ?thesis using False fresh w(4) p(4) by auto
  qed
qed

lemma redis_update_law:
  assumes ok: "redis_ok R" and inv: "redis_inv R q" and job: "redis_jobs R q i = Some j"
    and u: "\<And>t. jb_id (u t) = i" "\<And>t. jb_type (u t) = jb_type j" "\<And>t. jb_status (u t) \<noteq> JS_PENDING"
    and run: "\<And>t n. resolve_now now q = (Inr t, q\<lparr>tick := n\<rparr>) \<Longrightarrow>
      m q = andThen (redis_write R (u t)) (\<lambda>_. ret (u t)) (q\<lparr>tick := n\<rparr>)"
  shows "\<exists>t q'. m q = (Inr (u t), q') \<and> stamp now t \<and> redis_inv R q'
    \<and> redis_jobs R q' = (redis_jobs R q)(i \<mapsto> u t)"
proof (cases rule: resolve_now_cases [of now q])
  case (1 t n)
  have inv1: "redis_inv R (q\<lparr>tick := n\<rparr>)" using inv 1(2) by (rule redis_inv_tick)
  obtain q1 where w: "redis_write R (u t) (q\<lparr>tick := n\<rparr>) = (Inr (), q1)" "redis_wf R q1"
    "same_world (q\<lparr>tick := n\<rparr>) q1" "redis_jobs R q1 = (redis_jobs R q)(i \<mapsto> u t)"
    "redis_pending R q1 = redis_pending R (q\<lparr>tick := n\<rparr>)"
    using redis_write_law [OF ok redis_invD(1) [OF inv1], of "u t"] u(1) by auto
  have "redis_inv R q1"
    by (rule redis_inv_update [OF inv1 w(2,3) _ u(1,2)]) (use w job u(3) in auto)
  moreover have "stamp now t" using 1(3) by (simp add: stamp_def)
  ultimately show ?thesis using run [OF 1(1)] w(1,4) by (auto simp: op_simps)
qed

lemma redis_ack_law:
  assumes ok: "redis_ok R" and inv: "redis_inv R q"
  shows "case redis_jobs R q i of
      None \<Rightarrow> \<exists>m q'. redis_ack R i now q = (Inl (NotFoundError m), q') \<and> redis_inv R q'
        \<and> redis_jobs R q' = redis_jobs R q
    | Some j \<Rightarrow> \<exists>t q'. redis_ack R i now q = (Inr (acked_job t j), q') \<and> stamp now t
        \<and> redis_inv R q' \<and> redis_jobs R q' = (redis_jobs R q)(i \<mapsto> acked_job t j)"
proof (cases "redis_jobs R q i")
  case None
  with inv show ?thesis
    by (simp add: redis_ack_def andThen_apply redis_get_eval [OF redis_invD(1) [OF inv]])
next
  case (Some j)
  have "jb_id (acked_job t j) = i" for t using redis_invD(3) [OF inv Some] by simp
  from redis_update_law [OF ok inv Some this, where now = now and m = "redis_ack R i now"] Some show ?thesis
    by (simp add: redis_ack_def andThen_apply redis_get_eval [OF redis_invD(1) [OF inv]])
qed

lemma redis_fail_law:
  assumes ok: "redis_ok R" and inv: "redis_inv R q"
  shows "case redis_jobs R q i of
      None \<Rightarrow> \<exists>m q'. redis_fail R i e now q = (Inl (NotFoundError m), q') \<and> redis_inv R q'
        \<and> redis_jobs R q' = redis_jobs R q
    | Some j \<Rightarrow> \<exists>t q'. redis_fail R i e now q = (Inr (failed_job e t j), q') \<and> stamp now t
        \<and> redis_inv R q' \<and> redis_jobs R q' = (redis_jobs R q)(i \<mapsto> failed_job e t j)"
proof (cases "redis_jobs R q i")
  case None
  with inv show ?thesis
    by (simp add: redis_fail_def andThen_apply redis_get_eval [OF redis_invD(1) [OF inv]])
next
  case (Some j)
  have "jb_id (failed_job e t j) = i" for t using redis_invD(3) [OF inv Some] by simp
  from redis_update_law [OF ok inv Some this, where now = now and m = "redis_fail R i e now"] Some show ?thesis
    by (simp add: redis_fail_def andThen_apply redis_get_eval [OF redis_invD(1) [OF inv]])
qed

lemma redis_reject_law:
  assumes ok: "redis_ok R" and inv: "redis_inv R q"
  shows "case redis_jobs R q i of
      None \<Rightarrow> \<exists>m q'. redis_reject R i e now d q = (Inl (NotFoundError m), q') \<and> redis_inv R q'
        \<and> redis_jobs R q' = redis_jobs R q
    | Some j \<Rightarrow> \<exists>t q'. redis_reject R i e now d q = (Inr (retried_job e (t + d * 1000000) t j), q')
        \<and> stamp now t \<and> redis_inv R q'
        \<and> redis_jobs R q' = (redis_jobs R q)(i \<mapsto> retried_job e (t + d * 1000000) t j)"
proof (cases rule: resolve_now_cases [of now q])
  case (1 t n)
  let ?q = "q\<lparr>tick := n\<rparr>"
  have inv1: "redis_inv R ?q" using inv 1(2) by (rule redis_inv_tick)
  note get = redis_get_eval [OF redis_invD(1) [OF inv1], of i, unfolded redis_jobs_tick]
  show ?thesis
  proof (cases "redis_jobs R q i")
    case None
    with 1(1) inv1 get show ?thesis by (simp add: redis_reject_def op_simps)
  next
    case (Some j)
    obtain q' where q': "redis_requeue R j (retried_job e (t + d * 1000000) t j) ?q
        = (Inr (retried_job e (t + d * 1000000) t j), q')" "redis_inv R q'"
      "redis_jobs R q' = (redis_jobs R q)(i \<mapsto> retried_job e (t + d * 1000000) t j)"
      using redis_requeue_law [OF ok inv1 _ refl, of i j e "t + d * 1000000" t] Some by auto
    have "redis_reject R i e now d q = (Inr (retried_job e (t + d * 1000000) t j), q')"
      using 1(1) get Some q'(1) by (simp add: redis_reject_def op_simps)
    moreover have "stamp now t" using 1(3) by (simp add: stamp_def)
    ultimately show ?thesis using Some q'(2,3) by auto
  qed
qed

lemma redis_claim_contract:
  assumes ok: "redis_ok R" and inv: "redis_inv R q"
  shows "\<exists>t d q'. redis_claim R ty w now l q = Some (Inr d, q') \<and> stamp now t \<and> redis_inv R q'
    \<and> (case d of
         None \<Rightarrow> redis_jobs R q' = reaped_map (Some ty) t lease_error (redis_jobs R q)
       | Some j' \<Rightarrow> \<exists>j. reaped_map (Some ty) t lease_error (redis_jobs R q) (jb_id j) = Some j
           \<and> claimable_job ty t j \<and> j' = claimed_job w t l j
           \<and> redis_jobs R q' = (reaped_map (Some ty) t lease_error (redis_jobs R q))(jb_id j \<mapsto> j'))"
proof -
  obtain t d q' where run: "redis_claim R ty w now l q = Some (Inr d, q')" "stamp now t" "redis_inv R q'"
    and d: "case d of
         None \<Rightarrow> redis_jobs R q' = reaped_map (Some ty) t lease_error (redis_jobs R q)
           \<and> ((\<exists>i j. redis_jobs R q' i = Some j \<and> jb_type j = ty \<and> jb_status j = JS_PENDING
                 \<and> t < jb_available_at j)
              \<or> (\<forall>i j. redis_jobs R q' i = Some j \<longrightarrow> jb_type j = ty \<longrightarrow> jb_status j \<noteq> JS_PENDING))
       | Some j' \<Rightarrow> \<exists>j. reaped_map (Some ty) t lease_error (redis_jobs R q) (jb_id j) = Some j
           \<and> claimable_job ty t j \<and> j' = claimed_job w t l j
           \<and> redis_jobs R q' = (reaped_map (Some ty) t lease_error (redis_jobs R q))(jb_id j \<mapsto> j')"
    using redis_claim_law [OF ok inv, where ty = ty and w = w and now = now and l = l]
    by (elim exE conjE) (rule that)
  show ?thesis
    by (rule exI [of _ t], rule exI [of _ d], rule exI [of _ q'])
      (use run d in \<open>cases d; simp\<close>)
qed

lemma redis_job_queue:
  assumes "redis_ok R"
  shows "job_queue (redis_inv R) (redis_jobs R) (redis_enqueue R) (redis_claim R)
    (redis_ack R) (redis_fail R) (redis_reject R) (redis_reap R)"
  by unfold_locales
    (erule redis_invD(3) redis_enqueue_law [OF assms] redis_claim_contract [OF assms]
      redis_ack_law [OF assms] redis_fail_law [OF assms] redis_reject_law [OF assms]
      redis_reap_law [OF assms] | assumption)+

section \<open>What a worker can rely on\<close>

text \<open>A queue whose keys nobody has used yet, and any sequence of calls on it.\<close>

definition redis_empty :: "('c, 'v) redis_client \<Rightarrow> 'c redis_queue \<Rightarrow> bool" where
  "redis_empty R q \<longleftrightarrow> unique_uuids q
     \<and> (\<forall>ty. rc_type R (rq_client q) (pending_key (rq_prefix q) ty) \<noteq> RK_hash
         \<and> rc_type R (rq_client q) (dead_key (rq_prefix q) ty) \<noteq> RK_hash
         \<and> rc_lrange R (pending_key (rq_prefix q) ty) (rq_client q) = [])
     \<and> rc_type R (rq_client q) (jobs_key (rq_prefix q)) \<noteq> RK_list
     \<and> (\<forall>i. rc_hget R (jobs_key (rq_prefix q)) i (rq_client q) = None)"

definition redis_run ::
  "('c, 'v) redis_client \<Rightarrow> queue_call list \<Rightarrow> 'c redis_queue \<Rightarrow> job list \<times> 'c redis_queue" where
  "redis_run R = deliveries (exec_call (redis_enqueue R) (redis_claim R) (redis_ack R) (redis_fail R)
     (redis_reject R) (redis_reap R))"

lemma redis_empty_inv:
  assumes "redis_empty R q"
  shows "redis_inv R q" and "jobs_sound (redis_jobs R q)"
proof -
  have "redis_jobs R q = (\<lambda>_. None)" and "redis_pending R q = (\<lambda>_. [])"
    using assms by (simp_all add: redis_empty_def redis_jobs_def redis_pending_def)
  with assms show "redis_inv R q" "jobs_sound (redis_jobs R q)"
    by (simp_all add: redis_empty_def redis_inv_def redis_wf_def jobs_sound_def)
qed

lemma redis_run_inv:
  assumes "redis_ok R" and "redis_empty R q0" and "redis_run R cs q0 = (ds, q)"
  shows "redis_inv R q"
  using job_queue.deliveries_counted [OF redis_job_queue [OF assms(1)]
      redis_empty_inv [OF assms(2)] assms(3) [unfolded redis_run_def]] by blast

lemma redis_get_iff: "redis_inv R q \<Longrightarrow> redis_get R i q = (Inr j, q') \<longleftrightarrow> redis_jobs R q i = Some j \<and> q' = q"
  by (auto simp: redis_get_eval [OF redis_invD(1)] split: option.splits)

text \<open>A client that keeps its keys in an association list, with jobs for their JSON texts.\<close>

datatype redis_value = RV_list "string list" | RV_hash "(string \<times> job) list"

type_synonym redis_store = "(string \<times> redis_value) list"

definition list_at :: "string \<Rightarrow> redis_store \<Rightarrow> string list" where
  "list_at k c = (case map_of c k of Some (RV_list xs) \<Rightarrow> xs | _ \<Rightarrow> [])"

definition hash_at :: "string \<Rightarrow> redis_store \<Rightarrow> (string \<times> job) list" where
  "hash_at k c = (case map_of c k of Some (RV_hash kvs) \<Rightarrow> kvs | _ \<Rightarrow> [])"

definition map_client :: "(redis_store, job) redis_client" where
  "map_client = \<lparr>
     rc_type = (\<lambda>c k. case map_of c k of None \<Rightarrow> RK_none | Some (RV_list _) \<Rightarrow> RK_list | Some (RV_hash _) \<Rightarrow> RK_hash),
     rc_rpush = (\<lambda>k x c. AList.update k (RV_list (list_at k c @ [x])) c),
     rc_lpop = (\<lambda>k c. case list_at k c of [] \<Rightarrow> (None, c)
       | x # xs \<Rightarrow> (Some x, if xs = [] then AList.delete k c else AList.update k (RV_list xs) c)),
     rc_lrange = list_at,
     rc_hset = (\<lambda>k f v c. AList.update k (RV_hash (AList.update f v (hash_at k c))) c),
     rc_hget = (\<lambda>k f c. map_of (hash_at k c) f),
     rc_hvals = (\<lambda>k c. map (\<lambda>f. the (map_of (hash_at k c) f)) (remdups (map fst (hash_at k c)))),
     rc_dumps = (\<lambda>j. j), rc_loads = Some\<rparr>"

lemma map_client_ok: "redis_ok map_client"
proof -
  have "rpush_law map_client"
    by (auto simp: rpush_law_def map_client_def list_at_def hash_at_def update_conv'
        split: option.splits redis_value.splits)
  moreover have "lpop_law map_client"
    by (auto simp: lpop_law_def map_client_def list_at_def hash_at_def update_conv' delete_conv'
        split: option.splits redis_value.splits list.splits)
  moreover have "hset_law map_client"
    by (auto simp: hset_law_def map_client_def list_at_def hash_at_def update_conv'
        split: option.splits redis_value.splits)
  moreover have "hvals_law map_client"
    unfolding hvals_law_def
  proof (intro allI impI)
    fix k and c :: redis_store
    have "fst ` set (hash_at k c) = {f. map_of (hash_at k c) f \<noteq> None}"
      using dom_map_of_conv_image_fst [of "hash_at k c"] by (simp add: dom_def)
    then show "\<exists>fs. distinct fs \<and> set fs = {f. rc_hget map_client k f c \<noteq> None}
        \<and> rc_hvals map_client k c = map (\<lambda>f. the (rc_hget map_client k f c)) fs"
      by (intro exI [of _ "remdups (map fst (hash_at k c))"]) (simp add: map_client_def)
  qed
  ultimately show ?thesis by (simp add: redis_ok_def map_client_def)
qed

definition demo_redis :: "redis_store redis_queue" where
  "demo_redis = \<lparr>clock = (\<lambda>_. 0), uuid4_hex = (\<lambda>n. replicate n CHR ''u''), tick = 0,
     rq_client = [], rq_prefix = ''taroai:jobs''\<rparr>"

lemma demo_redis_empty: "redis_empty map_client demo_redis"
proof -
  have "inj (\<lambda>n. replicate n CHR ''u'')" by (auto simp: inj_def dest: arg_cong [of _ _ length])
  then show ?thesis
    by (simp add: redis_empty_def unique_uuids_def demo_redis_def map_client_def list_at_def hash_at_def)
qed

text \<open>C19: no job is lost. After any sequence of calls, the identifier of every waiting job is on
  the pending list of its type, where claims look.\<close>

theorem redis_waiting_jobs_are_listed:
  assumes "redis_ok R" and "redis_empty R q0" and "redis_run R cs q0 = (ds, q)"
    and "redis_get R job_id q = (Inr j, q)" and "jb_status j = JS_PENDING"
  shows "job_id \<in> set (rc_lrange R (pending_key (rq_prefix q) (jb_type j)) (rq_client q))"
  using redis_run_inv [OF assms(1-3)] assms(4,5)
  by (auto simp: redis_inv_def redis_get_iff redis_pending_def)

lemma redis_claim_at:
  assumes "redis_ok R" and "redis_inv R q"
  shows "\<exists>d q'. redis_claim R ty w (Some t) l q = Some (Inr d, q') \<and> redis_inv R q'
    \<and> (d = None \<longrightarrow>
        (\<exists>i j. redis_jobs R q' i = Some j \<and> jb_type j = ty \<and> jb_status j = JS_PENDING
           \<and> t < jb_available_at j)
        \<or> (\<forall>i j. redis_jobs R q' i = Some j \<longrightarrow> jb_type j = ty \<longrightarrow> jb_status j \<noteq> JS_PENDING))"
  using redis_claim_law [OF assms, of ty w "Some t" l]
  apply (elim exE conjE)
  subgoal for t' d q'
    by (rule exI [of _ d], rule exI [of _ q'], cases d) (simp_all add: stamp_def, elim conjE, simp)
  done

text \<open>C20: the loop of \<open>claim\<close> returns. From every state a sequence of calls leads to, a claim
  returns without an exception; it answers \<open>None\<close> only when no job of the type waits or one that
  waits is delayed beyond the time of the claim.\<close>

theorem redis_claim_returns:
  assumes "redis_ok R" and "redis_empty R q0" and "redis_run R cs q0 = (ds, q)"
  shows "\<exists>d q'. redis_claim R job_type worker_id (Some t) lease_seconds q = Some (Inr d, q')
    \<and> (d = None \<longrightarrow>
        (\<exists>i j. redis_get R i q' = (Inr j, q') \<and> jb_type j = job_type \<and> jb_status j = JS_PENDING
           \<and> t < jb_available_at j)
        \<or> (\<forall>i j. redis_get R i q' = (Inr j, q') \<longrightarrow> jb_type j = job_type \<longrightarrow> jb_status j \<noteq> JS_PENDING))"
  using redis_claim_at [OF assms(1) redis_run_inv [OF assms], of job_type worker_id t lease_seconds]
  by (elim exE conjE) (intro exI conjI, assumption, simp add: redis_get_iff)

text \<open>Bounded delivery, as for the queue in memory.\<close>

theorem redis_jobs_are_delivered_boundedly:
  assumes "redis_ok R" and "redis_empty R q0" and "redis_run R cs q0 = (ds, q)"
    and "redis_get R job_id q = (Inr j, q)"
  shows "count_of job_id ds \<le> jb_max_attempts j"
  using job_queue.deliveries_bounded [OF redis_job_queue [OF assms(1)]
      redis_empty_inv [OF assms(2)] assms(3) [unfolded redis_run_def], of job_id j]
    assms(4) redis_get_iff [OF redis_run_inv [OF assms(1-3)]] by blast

text \<open>Two jobs wait; the first of the list was rejected with a delay. A worker is turned away,
  although the second job is available; the next claim gets it.\<close>

definition delayed_calls :: "queue_call list" where
  "delayed_calls =
     [Q_enqueue JT_CLEANUP [] (Some 0) 3, Q_enqueue JT_CLEANUP [] (Some 0) 3,
      Q_claim JT_CLEANUP ''w1'' (Some 0) 60, Q_claim JT_CLEANUP ''w2'' (Some 0) 60,
      Q_reject ''job_'' ''busy'' (Some 1) 30, Q_reject ''job_u'' ''busy'' (Some 1) 0]"

definition delayed_queue :: "redis_store redis_queue" where
  "delayed_queue = snd (redis_run map_client delayed_calls demo_redis)"

lemma redis_run_delayed:
  "redis_run map_client delayed_calls demo_redis
     = (fst (redis_run map_client delayed_calls demo_redis), delayed_queue)"
  by (simp add: delayed_queue_def)

definition job_view :: "job option \<Rightarrow> (string \<times> job_type \<times> job_status \<times> datetime \<times> int) option" where
  "job_view = map_option (\<lambda>j. (jb_id j, jb_type j, jb_status j, jb_available_at j, jb_max_attempts j))"

lemma map_client_simps:
  "rc_rpush map_client k x c = AList.update k (RV_list (list_at k c @ [x])) c"
  "rc_lpop map_client k c = (case list_at k c of [] \<Rightarrow> (None, c)
       | x # xs \<Rightarrow> (Some x, if xs = [] then AList.delete k c else AList.update k (RV_list xs) c))"
  "rc_lrange map_client k c = list_at k c"
  "rc_hset map_client k f v c = AList.update k (RV_hash (AList.update f v (hash_at k c))) c"
  "rc_hget map_client k f c = map_of (hash_at k c) f"
  "rc_hvals map_client k c
     = map (\<lambda>f. the (map_of (hash_at k c) f)) (remdups (map fst (hash_at k c)))"
  "rc_dumps map_client j = j" "rc_loads map_client j = Some j"
  by (simp_all add: map_client_def)

lemmas redis_eval = map_client_simps list_at_def hash_at_def op_simps redis_run_def exec_call_def
  redis_enqueue_def redis_claim_def redis_claim_loop.simps redis_reject_def redis_requeue_def
  redis_reap_def redis_list_jobs_def redis_get_def redis_read_or_none_def redis_parse_def
  redis_write_def redis_rpush_def resolve_now_def new_id_def pending_key_def dead_key_def
  jobs_key_def new_job_def claimed_job_def retried_job_def requeued_job_def dead_job_def
  reapable_def lease_expired_def delivered_def Let_def

lemma delayed_queue_jobs:
  "job_view (redis_jobs map_client delayed_queue ''job_'')
     = Some (''job_'', JT_CLEANUP, JS_PENDING, 30000001, 3)"
  "job_view (redis_jobs map_client delayed_queue ''job_u'')
     = Some (''job_u'', JT_CLEANUP, JS_PENDING, 1, 3)"
  by (simp_all add: delayed_queue_def delayed_calls_def demo_redis_def redis_eval redis_jobs_def
      job_view_def)

lemma delayed_queue_inv: "redis_inv map_client delayed_queue"
  by (rule redis_run_inv [OF map_client_ok demo_redis_empty redis_run_delayed])

lemma delayed_queue_get:
  "\<exists>j. redis_get map_client ''job_u'' delayed_queue = (Inr j, delayed_queue)
     \<and> jb_status j = JS_PENDING \<and> jb_type j = JT_CLEANUP \<and> jb_available_at j = 1
     \<and> jb_max_attempts j = 3"
  using delayed_queue_jobs(2) by (auto simp: redis_get_iff [OF delayed_queue_inv] job_view_def)

theorem redis_waiting_jobs_are_listed_witness:
  "''job_u'' \<in> set (rc_lrange map_client
     (pending_key (rq_prefix delayed_queue) JT_CLEANUP) (rq_client delayed_queue))"
  using delayed_queue_get redis_waiting_jobs_are_listed [OF map_client_ok demo_redis_empty
      redis_run_delayed] by metis

theorem redis_jobs_are_delivered_boundedly_witness:
  "count_of ''job_u'' (fst (redis_run map_client delayed_calls demo_redis)) \<le> 3"
  using delayed_queue_get redis_jobs_are_delivered_boundedly [OF map_client_ok demo_redis_empty
      redis_run_delayed] by metis

theorem redis_claim_returns_witness:
  "\<exists>d q'. redis_claim map_client JT_CLEANUP ''w3'' (Some 2) 60 delayed_queue = Some (Inr d, q')"
  using redis_claim_returns [OF map_client_ok demo_redis_empty redis_run_delayed] by blast

text \<open>The two queues differ on delayed jobs. Here the first job of the list is delayed and the
  second is available: the claim answers \<open>None\<close> (and turns the list), the next claim gets the
  second job.\<close>

theorem redis_claim_stops_at_a_delayed_job:
  "\<exists>q1 q2 j'. redis_claim map_client JT_CLEANUP ''w3'' (Some 2) 60 delayed_queue = Some (Inr None, q1)
     \<and> (\<exists>j. redis_get map_client ''job_u'' q1 = (Inr j, q1) \<and> claimable_job JT_CLEANUP 2 j)
     \<and> redis_claim map_client JT_CLEANUP ''w3'' (Some 2) 60 q1 = Some (Inr (Some j'), q2)
     \<and> jb_id j' = ''job_u''"
  by (simp add: delayed_queue_def delayed_calls_def demo_redis_def redis_eval claimable_job_def)

end
