(* ===== verification/WorkflowCoordinator.thy ===== *)
theory WorkflowCoordinator
  imports StoreOps
begin

text \<open>
  \<open>WorkflowCoordinator\<close> of \<^verbatim>\<open>taroai/workflow.py\<close>: starting the tasks whose dependencies have
  succeeded, completing, failing, retrying, pausing, resuming and cancelling a workflow over the
  operations of the store, and \<open>_load_state\<close>, \<open>_save_state\<close> of \<^verbatim>\<open>agent/runtime.py\<close>. The model
  gateway is an argument: \<open>sy_stream\<close> answers the deltas it yields for a request and how the
  stream ends. \<open>sy_show_float\<close> prints floats.
\<close>

datatype stream_end = SE_done | SE_gateway_error string | SE_crash error

record synthesis_request =
  sq_run :: run
  sq_system :: string
  sq_user :: string
  sq_metadata :: json_obj

record synthesis_env =
  sy_stream :: "store \<Rightarrow> synthesis_request \<Rightarrow> string list \<times> stream_end"
  sy_show_float :: "rat \<Rightarrow> string"

text \<open>Lifting a pure computation that may raise.\<close>

definition from_result :: "error + 'a \<Rightarrow> ('s, 'a) op" where
  "from_result r = (case r of Inl e \<Rightarrow> raise e | Inr x \<Rightarrow> ret x)"

definition json_text :: "synthesis_env \<Rightarrow> json \<Rightarrow> string" where
  "json_text env = json_dumps (sy_show_float env) False '', '' '': ''"

section \<open>Runtime state\<close>

definition load_state :: "string \<Rightarrow> string \<Rightarrow> (store, runtime_state) op" where
  "load_state tenant_id run_id =
     andThen (get_runtime_state tenant_id run_id) (\<lambda>snapshot. ret (sn_state snapshot))"

definition terminal_event_emitted :: "runtime_state \<Rightarrow> bool" where
  "terminal_event_emitted st = (payload_get (st_other st) ''terminal_event_emitted'' = JBool True)"

text \<open>A state saved for a cancelled run is turned into a cancelled state; a missing earlier
  state is no error.\<close>

definition save_state :: "runtime_state \<Rightarrow> (store, unit) op" where
  "save_state st =
     andThen (get_run (st_tenant_id st) (st_run_id st)) (\<lambda>r.
     if r_status r \<noteq> RS_CANCELLED then void (save_runtime_state st)
     else (\<lambda>s.
       let persisted = load_state (st_tenant_id st) (st_run_id st) s;
           emitted = (case fst persisted of Inr p \<Rightarrow> terminal_event_emitted p | Inl _ \<Rightarrow> False);
           st' = st\<lparr>st_status := RS_CANCELLED, st_current_step_id := None, st_approval_id := None,
             st_pending_guardrail_approval_key := None, st_pending_guardrail_approval_stage := None,
             st_failure_reason := Some ''Run cancelled'',
             st_other := (if emitted
               then dict_set ''terminal_event_emitted'' (JBool True) (st_other st)
               else st_other st)\<rparr> in
       case fst persisted of
         Inl (NotFoundError _) \<Rightarrow> void (save_runtime_state st') s
       | Inl e \<Rightarrow> raise e s
       | Inr _ \<Rightarrow> void (save_runtime_state st') s))"

section \<open>Events of a task\<close>

definition workflow_goal :: "run \<Rightarrow> (store, string) op" where
  "workflow_goal r =
     (case r_trigger_message_id r of
        Some m \<Rightarrow>
          if r_agent_id r = None
          then andThen (get_chat_message (r_tenant_id r) m) (\<lambda>msg. ret (m_content msg))
          else ret (r_message r)
      | None \<Rightarrow> ret (r_message r))"

definition phase_status :: "task_status set \<Rightarrow> string" where
  "phase_status statuses =
     (if statuses = {WT_SUCCEEDED} then ''succeeded''
      else if statuses \<inter> {WT_FAILED, WT_CANCELLED, WT_BLOCKED} \<noteq> {} then ''failed''
      else if statuses \<inter> {WT_QUEUED, WT_RUNNING, WT_SUCCEEDED} \<noteq> {} then ''running''
      else ''pending'')"

definition task_event :: "workflow_task \<Rightarrow> (store, unit) op" where
  "task_event task =
     andThen (get_workflow (wt_tenant_id task) (wt_workflow_id task)) (\<lambda>w.
     andThen (get_run (wt_tenant_id task) (wf_parent_run_id w)) (\<lambda>parent.
     andThen (append_run_event parent ''workflow.task.updated''
       [(''workflowId'', JStr (wf_id w)), (''taskId'', JStr (wt_task_id task)),
        (''phaseId'', JStr (wt_phase_id task)),
        (''status'', JStr (task_status_value (wt_status task))),
        (''attempts'', JInt (wt_attempts task)), (''childRunId'', opt_str (wt_child_run_id task)),
        (''summary'', JStr (wt_summary task)), (''error'', opt_str (wt_error task))]) (\<lambda>_.
     andThen (list_workflow_tasks (wt_tenant_id task) (wf_id w)) (\<lambda>tasks.
     void (append_run_event parent ''workflow.phase.updated''
       [(''workflowId'', JStr (wf_id w)), (''phaseId'', JStr (wt_phase_id task)),
        (''status'', JStr (phase_status
          (set (map wt_status (filter (\<lambda>t. wt_phase_id t = wt_phase_id task) tasks)))))])))))"

section \<open>Starting tasks\<close>

definition task_prompt ::
  "synthesis_env \<Rightarrow> workflow_run \<Rightarrow> string \<Rightarrow> workflow_task_spec \<Rightarrow> (string, string) dict \<Rightarrow> string" where
  "task_prompt env w goal spec summaries =
     ''You are a worker in the approved workflow \"'' @ ws_name (wf_spec w) @ ''\".'' @ [CHR 0x0A]
     @ ''Execute only the task below. Do not solve the whole workflow.'' @ [CHR 0x0A, CHR 0x0A]
     @ ''Parent goal:'' @ [CHR 0x0A] @ goal @ [CHR 0x0A, CHR 0x0A]
     @ ''Task: '' @ ts_title spec @ [CHR 0x0A] @ ts_description spec @ [CHR 0x0A, CHR 0x0A]
     @ ''Completed dependency task summaries:'' @ [CHR 0x0A]
     @ json_text env (JObj (map (\<lambda>(k, v). (k, JStr v)) summaries)) @ [CHR 0x0A, CHR 0x0A]
     @ ''Use only these summaries as upstream task results. Do not infer results from ''
     @ ''unlisted sibling tasks.'' @ [CHR 0x0A, CHR 0x0A]
     @ ''Tool policy: '' @ ts_tool_mode spec @ ''. Preferred tool: ''
     @ or_default (ts_preferred_tool spec) ''none'' @ ''. ''
     @ ''Suggested input: '' @ json_text env (JObj (ts_tool_input spec)) @ ''. ''
     @ ''Use available tools only when useful and verify the result. Return a concise ''
     @ ''handoff with the result, evidence, artifacts, blockers, and next-step notes; ''
     @ ''omit empty sections.''"

text \<open>The thread that carries a task is created and at once marked deleted, so that it does not
  show among the user's threads.\<close>

definition create_task_run ::
  "synthesis_env \<Rightarrow> workflow_run \<Rightarrow> workflow_task \<Rightarrow> workflow_task list \<Rightarrow> (store, run) op" where
  "create_task_run env w task all_tasks =
     andThen (from_result (spec_task (wf_spec w) (wt_task_id task))) (\<lambda>spec.
     andThen (get_run (wf_tenant_id w) (wf_parent_run_id w)) (\<lambda>parent.
     andThen (workflow_goal parent) (\<lambda>goal.
     let summaries = foldl (\<lambda>d t. dict_set (wt_task_id t) (wt_summary t) d) []
           (filter (\<lambda>t. wt_task_id t \<in> set (ts_depends_on spec) \<and> wt_summary t \<noteq> []) all_tasks);
         prompt = task_prompt env w goal spec summaries in
     andThen (create_chat_thread (wf_tenant_id w) (wf_user_id w)
       \<lparr>tc_workspace_id = wf_workspace_id w,
        tc_title = take 200 (ws_name (wf_spec w) @ [CHR '' '', CHR 0xB7, CHR '' ''] @ ts_title spec),
        tc_provider_id = r_provider_id parent, tc_model_id = r_model_id parent,
        tc_reasoning_effort = r_reasoning_effort parent, tc_sandbox_session_id = None\<rparr>) (\<lambda>thread.
     andThen (update_chat_thread (wf_tenant_id w) (th_id thread) [CT_status TS_DELETED]) (\<lambda>_.
     andThen (append_chat_message (wf_tenant_id w) (th_id thread) (Some (wf_user_id w))
       \<lparr>mc_role = ROLE_USER, mc_content = ts_title spec, mc_execution_content = Some prompt,
        mc_kind = ''workflow_task'', mc_dispatch_status = DS_INFLIGHT,
        mc_delivery_status = DL_PENDING, mc_attachments = [],
        mc_resource_refs = r_resource_refs parent\<rparr>) (\<lambda>message.
     andThen (create_queued_thread_run_if_absent (wf_tenant_id w) (wf_user_id w)
       \<lparr>rc_workspace_id = wf_workspace_id w, rc_agent_id = r_agent_id parent, rc_message = prompt,
        rc_attachments = r_attachments parent, rc_mode = MODE_AUTONOMOUS,
        rc_thread_id = Some (th_id thread), rc_trigger_message_id = Some (m_id message),
        rc_provider_id = r_provider_id parent, rc_model_id = r_model_id parent,
        rc_reasoning_effort = r_reasoning_effort parent,
        rc_resource_refs = r_resource_refs parent\<rparr>) (\<lambda>(r, _).
     andThen (update_workflow_task (wf_tenant_id w) (wt_id task)
       [TC_status WT_QUEUED, TC_child_thread_id (Some (th_id thread)),
        TC_child_run_id (Some (r_id r)), TC_attempts (wt_attempts task + 1)]) (\<lambda>updated.
     andThen (task_event updated) (\<lambda>_.
     ret r)))))))))"

text \<open>The comprehension over the tasks: pending ones whose dependencies have all succeeded.\<close>

fun ready_tasks ::
  "workflow_spec \<Rightarrow> string set \<Rightarrow> workflow_task list \<Rightarrow> error + workflow_task list" where
  "ready_tasks spec succeeded [] = Inr []"
| "ready_tasks spec succeeded (t # ts) =
     (if wt_status t \<noteq> WT_PENDING then ready_tasks spec succeeded ts
      else case spec_task spec (wt_task_id t) of
        Inl e \<Rightarrow> Inl e
      | Inr sp \<Rightarrow>
          (case ready_tasks spec succeeded ts of
             Inl e \<Rightarrow> Inl e
           | Inr rs \<Rightarrow> Inr (if set (ts_depends_on sp) \<subseteq> succeeded then t # rs else rs)))"

definition active_count :: "workflow_task list \<Rightarrow> int" where
  "active_count tasks = int (length (filter (\<lambda>t. wt_status t \<in> {WT_QUEUED, WT_RUNNING}) tasks))"

definition ready_runs :: "synthesis_env \<Rightarrow> string \<Rightarrow> string \<Rightarrow> (store, run list) op" where
  "ready_runs env tenant_id workflow_id =
     andThen (get_workflow tenant_id workflow_id) (\<lambda>w.
     if wf_status w \<noteq> WF_RUNNING then ret []
     else
       andThen (list_workflow_tasks tenant_id workflow_id) (\<lambda>tasks.
       let slots = max 0 (ws_max_concurrency (wf_spec w) - active_count tasks) in
       if slots = 0 then ret []
       else
         andThen (from_result (ready_tasks (wf_spec w)
           (set (map wt_task_id (filter (\<lambda>t. wt_status t = WT_SUCCEEDED) tasks))) tasks)) (\<lambda>ready.
         for_each (take (nat slots) ready) (\<lambda>t. create_task_run env w t tasks))))"

definition mark_running :: "run \<Rightarrow> (store, unit) op" where
  "mark_running r =
     andThen (get_workflow_task_for_child_run (r_tenant_id r) (r_id r)) (\<lambda>found.
     case found of
       None \<Rightarrow> ret ()
     | Some task \<Rightarrow>
         if wt_status task \<noteq> WT_QUEUED then ret ()
         else andThen (update_workflow_task (r_tenant_id r) (wt_id task) [TC_status WT_RUNNING])
           task_event)"

section \<open>Ending a workflow\<close>

definition task_summary :: "run \<Rightarrow> string option \<Rightarrow> (store, string) op" where
  "task_summary r final_response_text =
     (let summary = py_strip (or_default final_response_text []) in
      if summary \<noteq> [] then ret (take 20000 summary)
      else
        andThen (case r_thread_id r of
            Some thread_id \<Rightarrow> list_chat_messages (r_tenant_id r) thread_id
          | None \<Rightarrow> raise (NotFoundError ''Chat thread not found: None'')) (\<lambda>messages.
        ret (case find (\<lambda>m. m_role m = ROLE_ASSISTANT \<and> py_strip (m_content m) \<noteq> []) (rev messages) of
            Some m \<Rightarrow> take 20000 (py_strip (m_content m))
          | None \<Rightarrow> ''Task completed successfully.'')))"

text \<open>\<open>if workflow.approval_id: self.store.update_approval_execution(...)\<close>.\<close>

definition report_approval ::
  "workflow_run \<Rightarrow> string \<Rightarrow> string \<Rightarrow> string \<Rightarrow> string option \<Rightarrow> (store, unit) op" where
  "report_approval w tenant_id run_id execution_status err =
     (case wf_approval_id w of
        None \<Rightarrow> ret ()
      | Some a \<Rightarrow> whenever (a \<noteq> [])
          (void (update_approval_execution tenant_id run_id a execution_status err)))"

text \<open>\<open>if parent.trigger_message_id: self.store.update_chat_message(...)\<close>.\<close>

definition report_trigger :: "run \<Rightarrow> dispatch_status \<Rightarrow> delivery_status \<Rightarrow> (store, unit) op" where
  "report_trigger parent ds dl =
     (case r_trigger_message_id parent of
        None \<Rightarrow> ret ()
      | Some m \<Rightarrow> whenever (m \<noteq> [])
          (void (update_chat_message (r_tenant_id parent) m
             [CM_dispatch_status ds, CM_delivery_status dl])))"

definition synthesis_payload ::
  "workflow_spec \<Rightarrow> workflow_task list \<Rightarrow> error + (string \<times> string \<times> string) list" where
  "synthesis_payload spec tasks =
     foldr (\<lambda>t r. case spec_task spec (wt_task_id t) of
         Inl e \<Rightarrow> Inl e
       | Inr sp \<Rightarrow> (case r of Inl e \<Rightarrow> Inl e
           | Inr ps \<Rightarrow> Inr ((wt_task_id t, ts_title sp, wt_summary t) # ps))) tasks (Inr [])"

text \<open>The last resort is a text of seven characters beyond the alphabet, in UTF-8 bytes.\<close>

definition done_text :: string where
  "done_text = map char_of ([229, 183, 165, 228, 189, 156, 230, 181, 129, 229, 183, 178, 229,
     174, 140, 230, 136, 144, 227, 128, 130] :: nat list)"

definition synthesize :: "synthesis_env \<Rightarrow> workflow_run \<Rightarrow> workflow_task list \<Rightarrow> (store, unit) op" where
  "synthesize env w tasks =
     andThen (get_run (wf_tenant_id w) (wf_parent_run_id w)) (\<lambda>parent.
     andThen (workflow_goal parent) (\<lambda>goal.
     andThen (from_result (synthesis_payload (wf_spec w) tasks)) (\<lambda>payload.
     andThen (require (r_reasoning_effort parent \<in> {None} \<union> Some ` set [''none'', ''minimal'', ''low'', ''medium'', ''high''])
       (ValidationError ''ModelGatewayRequest'')) (\<lambda>_.
     let fallback = join [CHR 0x0A, CHR 0x0A]
           (map (\<lambda>(i, title, summary). ''### '' @ title @ [CHR 0x0A] @ summary) payload);
         request = \<lparr>sq_run = parent, sq_system = ws_final_synthesis_prompt (wf_spec w),
           sq_user = json_text env (JObj [(''goal'', JStr goal),
             (''task_results'', JArr (map (\<lambda>(i, title, summary).
                JObj [(''taskId'', JStr i), (''title'', JStr title), (''summary'', JStr summary)])
              payload))]),
           sq_metadata = [(''operation'', JStr ''workflow_synthesize''),
             (''workflow_id'', JStr (wf_id w))]\<rparr> in
     andThen (gets (\<lambda>s. sy_stream env s request)) (\<lambda>(chunks, stop).
     andThen (for_each chunks (\<lambda>delta.
       append_run_event parent ''assistant.delta'' [(''delta'', JStr delta)])) (\<lambda>_.
     andThen (case stop of
         SE_done \<Rightarrow> ret ()
       | SE_gateway_error name \<Rightarrow>
           void (append_run_event parent ''workflow.synthesis_fallback'' [(''reason'', JStr name)])
       | SE_crash e \<Rightarrow> raise e) (\<lambda>_.
     let stripped = py_strip (concat chunks);
         response = (if stripped \<noteq> [] then stripped else if fallback \<noteq> [] then fallback
           else done_text) in
     andThen (case r_thread_id parent of
         None \<Rightarrow> ret None
       | Some thread_id \<Rightarrow>
           if thread_id = [] then ret None
           else andThen (append_chat_message (r_tenant_id parent) thread_id None
             \<lparr>mc_role = ROLE_ASSISTANT, mc_content = response, mc_execution_content = None,
              mc_kind = ''text'', mc_dispatch_status = DS_COMPLETED,
              mc_delivery_status = DL_DELIVERED, mc_attachments = [], mc_resource_refs = []\<rparr>)
             (\<lambda>m. ret (Some (m_id m)))) (\<lambda>message_id.
     andThen (append_run_event parent ''assistant.message.completed''
       [(''message_id'', opt_str message_id), (''content'', JStr response)]) (\<lambda>_.
     andThen (report_trigger parent DS_COMPLETED DL_DELIVERED) (\<lambda>_.
     andThen utc_now (\<lambda>now.
     andThen (update_workflow (r_tenant_id parent) (wf_id w)
       [WC_status WF_SUCCEEDED, WC_completed_at (Some now)]) (\<lambda>_.
     andThen (report_approval w (r_tenant_id parent) (r_id parent) ''applied'' None) (\<lambda>_.
     andThen (update_run_status (r_tenant_id parent) (r_id parent) RS_SUCCEEDED False) (\<lambda>completed.
     andThen (append_run_event completed ''workflow.completed''
       [(''workflowId'', JStr (wf_id w)), (''taskCount'', JInt (int (length tasks)))]) (\<lambda>_.
     andThen (append_run_event completed ''run.succeeded'' [(''mode'', JStr ''workflow'')]) (\<lambda>_.
     andThen (load_state (r_tenant_id parent) (r_id parent)) (\<lambda>st.
     save_state (st\<lparr>st_status := RS_SUCCEEDED, st_final_response_text := Some response\<rparr>)
     )))))))))))))))))"

text \<open>Cancelling the child run of a task that is still active.\<close>

definition cancel_child :: "workflow_run \<Rightarrow> workflow_task \<Rightarrow> string \<Rightarrow> string \<Rightarrow> (store, unit) op" where
  "cancel_child w t user reason =
     (case wt_child_run_id t of
        None \<Rightarrow> ret ()
      | Some c \<Rightarrow>
          if c = [] \<or> wt_status t \<notin> {WT_QUEUED, WT_RUNNING} then ret ()
          else andThen (get_run (wf_tenant_id w) c) (\<lambda>child.
            whenever (r_status child \<notin> terminal_run_statuses)
              (void (cancel_run (wf_tenant_id w) (r_id child) user reason))))"

definition fail_sibling :: "workflow_run \<Rightarrow> workflow_task \<Rightarrow> (store, unit) op" where
  "fail_sibling w t =
     whenever (wt_child_run_id t \<noteq> None \<and> wt_child_run_id t \<noteq> Some []
         \<and> wt_status t \<in> {WT_QUEUED, WT_RUNNING})
       (andThen (cancel_child w t (wf_user_id w) ''workflow_sibling_failed'') (\<lambda>_.
        andThen utc_now (\<lambda>now.
        andThen (update_workflow_task (wf_tenant_id w) (wt_id t)
          [TC_status WT_CANCELLED, TC_completed_at (Some now)]) task_event)))"

definition fail_workflow :: "workflow_run \<Rightarrow> string \<Rightarrow> (store, unit) op" where
  "fail_workflow w err =
     andThen (list_workflow_tasks (wf_tenant_id w) (wf_id w)) (\<lambda>tasks.
     andThen (for_each tasks (fail_sibling w)) (\<lambda>_.
     andThen utc_now (\<lambda>now.
     andThen (update_workflow (wf_tenant_id w) (wf_id w)
       [WC_status WF_FAILED, WC_completed_at (Some now)]) (\<lambda>_.
     andThen (report_approval w (wf_tenant_id w) (wf_parent_run_id w) ''apply_failed'' (Some err)) (\<lambda>_.
     andThen (update_run_status (wf_tenant_id w) (wf_parent_run_id w) RS_FAILED False) (\<lambda>parent.
     andThen (append_run_event parent ''workflow.failed''
       [(''workflowId'', JStr (wf_id w)), (''error'', JStr err)]) (\<lambda>_.
     andThen (append_run_event parent ''run.failed'' [(''reason'', JStr ''workflow_task_failed'')]) (\<lambda>_.
     report_trigger parent DS_FAILED DL_FAILED))))))))"

text \<open>The two branches of \<open>complete_child\<close>: the child run succeeded, or it ended otherwise.\<close>

definition child_succeeded ::
  "synthesis_env \<Rightarrow> run \<Rightarrow> workflow_task \<Rightarrow> workflow_run \<Rightarrow> string option \<Rightarrow> (store, run list) op" where
  "child_succeeded env r task w final_response_text =
     andThen (task_summary r final_response_text) (\<lambda>summary.
     andThen utc_now (\<lambda>now.
     andThen (update_workflow_task (r_tenant_id r) (wt_id task)
       [TC_status WT_SUCCEEDED, TC_summary summary, TC_error None,
        TC_completed_at (Some now)]) (\<lambda>updated.
     andThen (task_event updated) (\<lambda>_.
     andThen (list_workflow_tasks (r_tenant_id r) (wf_id w)) (\<lambda>tasks.
     if list_all (\<lambda>t. wt_status t = WT_SUCCEEDED) tasks
     then
       andThen (whenever (wf_status w \<noteq> WF_PAUSED) (synthesize env w tasks)) (\<lambda>_.
       ret [])
     else ready_runs env (r_tenant_id r) (wf_id w))))))"

definition child_ended ::
  "run \<Rightarrow> workflow_task \<Rightarrow> workflow_run \<Rightarrow> string option \<Rightarrow> (store, run list) op" where
  "child_ended r task w failure_reason =
     andThen utc_now (\<lambda>now.
     andThen (update_workflow_task (r_tenant_id r) (wt_id task)
       [TC_status (if r_status r = RS_CANCELLED then WT_CANCELLED else WT_FAILED),
        TC_error (Some (or_default failure_reason (run_status_value (r_status r)))),
        TC_completed_at (Some now)]) (\<lambda>updated.
     andThen (task_event updated) (\<lambda>_.
     andThen (whenever (wf_status w \<notin> {WF_CANCELLED, WF_PAUSED})
       (fail_workflow w (or_default (wt_error updated) ''workflow task failed''))) (\<lambda>_.
     ret []))))"

definition complete_child ::
  "synthesis_env \<Rightarrow> run \<Rightarrow> string option \<Rightarrow> string option \<Rightarrow> (store, run list) op" where
  "complete_child env r final_response_text failure_reason =
     andThen (get_workflow_task_for_child_run (r_tenant_id r) (r_id r)) (\<lambda>found.
     case found of
       None \<Rightarrow> ret []
     | Some task \<Rightarrow>
         if wt_status task \<in> {WT_SUCCEEDED, WT_FAILED, WT_CANCELLED} then ret []
         else
           andThen (get_workflow (r_tenant_id r) (wt_workflow_id task)) (\<lambda>w.
           if r_status r = RS_SUCCEEDED then child_succeeded env r task w final_response_text
           else child_ended r task w failure_reason))"

section \<open>Requests of a user\<close>

definition retry_task :: "synthesis_env \<Rightarrow> string \<Rightarrow> string \<Rightarrow> string \<Rightarrow> (store, run list) op" where
  "retry_task env tenant_id workflow_id task_id =
     andThen (get_workflow tenant_id workflow_id) (\<lambda>w.
     andThen (list_workflow_tasks tenant_id workflow_id) (\<lambda>tasks.
     case find (\<lambda>t. wt_task_id t = task_id) tasks of
       None \<Rightarrow> raise (ValueError (''workflow task not found: '' @ task_id))
     | Some task \<Rightarrow>
         andThen (require (wt_status task \<in> {WT_FAILED, WT_CANCELLED, WT_BLOCKED})
           (ValueError ''only failed, cancelled, or blocked workflow tasks can be retried'')) (\<lambda>_.
         andThen (update_workflow_task tenant_id (wt_id task)
           [TC_status WT_PENDING, TC_child_thread_id None, TC_child_run_id None, TC_summary [],
            TC_error None, TC_completed_at None]) (\<lambda>_.
         andThen (update_workflow tenant_id workflow_id [WC_status WF_RUNNING]) (\<lambda>_.
         andThen (update_run_status tenant_id (wf_parent_run_id w) RS_RUNNING True) (\<lambda>parent.
         andThen (report_approval w tenant_id (wf_parent_run_id w) ''applying'' None) (\<lambda>_.
         andThen (append_run_event parent ''workflow.resumed''
           [(''workflowId'', JStr (wf_id w)), (''taskId'', JStr task_id),
            (''reason'', JStr ''task_retry'')]) (\<lambda>_.
         ready_runs env tenant_id workflow_id))))))))"

definition pause :: "string \<Rightarrow> string \<Rightarrow> (store, workflow_run) op" where
  "pause tenant_id workflow_id =
     andThen (get_workflow tenant_id workflow_id) (\<lambda>current.
     andThen (require (wf_status current = WF_RUNNING)
       (ValueError ''only running workflows can be paused'')) (\<lambda>_.
     andThen (update_workflow tenant_id workflow_id [WC_status WF_PAUSED]) (\<lambda>w.
     andThen (update_run_status tenant_id (wf_parent_run_id w) RS_WAITING_FOR_USER True) (\<lambda>parent.
     andThen (append_run_event parent ''workflow.paused'' [(''workflowId'', JStr (wf_id w))]) (\<lambda>_.
     ret w)))))"

definition resume :: "synthesis_env \<Rightarrow> string \<Rightarrow> string \<Rightarrow> (store, workflow_run \<times> run list) op" where
  "resume env tenant_id workflow_id =
     andThen (get_workflow tenant_id workflow_id) (\<lambda>current.
     andThen (require (wf_status current = WF_PAUSED)
       (ValueError ''only paused workflows can be resumed'')) (\<lambda>_.
     andThen (update_workflow tenant_id workflow_id [WC_status WF_RUNNING]) (\<lambda>w.
     andThen (update_run_status tenant_id (wf_parent_run_id w) RS_RUNNING True) (\<lambda>parent.
     andThen (append_run_event parent ''workflow.resumed'' [(''workflowId'', JStr (wf_id w))]) (\<lambda>_.
     andThen (list_workflow_tasks tenant_id (wf_id w)) (\<lambda>tasks.
     if tasks \<noteq> [] \<and> list_all (\<lambda>t. wt_status t = WT_SUCCEEDED) tasks
     then
       andThen (synthesize env w tasks) (\<lambda>_.
       andThen (get_workflow tenant_id (wf_id w)) (\<lambda>w'.
       ret (w', [])))
     else
       andThen (ready_runs env tenant_id workflow_id) (\<lambda>started.
       ret (w, started))))))))"

definition cancel_task :: "workflow_run \<Rightarrow> string \<Rightarrow> workflow_task \<Rightarrow> (store, unit) op" where
  "cancel_task w user t =
     andThen (cancel_child w t user ''workflow_cancelled'') (\<lambda>_.
     whenever (wt_status t \<in> {WT_PENDING, WT_QUEUED, WT_RUNNING, WT_BLOCKED})
       (andThen utc_now (\<lambda>now.
        void (update_workflow_task (wf_tenant_id w) (wt_id t)
          [TC_status WT_CANCELLED, TC_completed_at (Some now)]))))"

definition cancel_workflow :: "string \<Rightarrow> string \<Rightarrow> string \<Rightarrow> (store, workflow_run) op" where
  "cancel_workflow tenant_id workflow_id user_id =
     andThen (get_workflow tenant_id workflow_id) (\<lambda>current.
     if wf_status current = WF_CANCELLED then ret current
     else
       andThen (require (wf_status current \<notin> {WF_SUCCEEDED, WF_FAILED})
         (ValueError ''completed workflows cannot be cancelled'')) (\<lambda>_.
       andThen (list_workflow_tasks tenant_id workflow_id) (\<lambda>tasks.
       andThen (for_each tasks (cancel_task current user_id)) (\<lambda>_.
       andThen utc_now (\<lambda>now.
       andThen (update_workflow tenant_id workflow_id
         [WC_status WF_CANCELLED, WC_completed_at (Some now)]) (\<lambda>w.
       andThen (get_run tenant_id (wf_parent_run_id w)) (\<lambda>found.
       andThen (if r_status found \<notin> terminal_run_statuses
           then cancel_run tenant_id (r_id found) user_id ''workflow_cancelled''
           else ret found) (\<lambda>parent.
       andThen (cancel_pending_approval_requests tenant_id (r_id parent) user_id) (\<lambda>_.
       andThen (report_approval w tenant_id (r_id parent) ''superseded'' None) (\<lambda>_.
       andThen (append_run_event parent ''workflow.cancelled'' [(''workflowId'', JStr (wf_id w))]) (\<lambda>_.
       ret w)))))))))))"

text \<open>The handler of \<open>PATCH /api/workflows/{id}/preview\<close>, up to the write of the new
  specification; the payload was validated as a \<open>WorkflowSpec\<close> when it was parsed.\<close>

definition task_phases :: "workflow_spec \<Rightarrow> (string, string) dict" where
  "task_phases spec = foldl (\<lambda>d (k, v). dict_set k v d) []
     (concat (map (\<lambda>p. map (\<lambda>t. (ts_id t, ps_id p)) (ps_tasks p)) (ws_phases spec)))"

definition same_dict :: "('k, 'v) dict \<Rightarrow> ('k, 'v) dict \<Rightarrow> bool" where
  "same_dict d e \<longleftrightarrow> length d = length e \<and> list_all (\<lambda>(k, v). map_of e k = Some v) d"

definition edit_preview :: "string \<Rightarrow> string \<Rightarrow> workflow_spec \<Rightarrow> (store, workflow_run) op" where
  "edit_preview tenant_id workflow_id spec =
     andThen (get_workflow tenant_id workflow_id) (\<lambda>w.
     andThen (require (wf_status w = WF_AWAITING_APPROVAL)
       (HTTPException 409 ''Only a pending workflow preview can be edited'')) (\<lambda>_.
     andThen (list_workflow_tasks tenant_id (wf_id w)) (\<lambda>tasks.
     andThen (require (\<not> list_ex (\<lambda>t. wt_status t \<noteq> WT_PENDING) tasks)
       (HTTPException 409 ''Workflow tasks have already started'')) (\<lambda>_.
     andThen (require (same_dict (task_phases spec) (task_phases (wf_spec w)))
       (HTTPException 409 ''Preview edits cannot add, remove, or move workflow tasks'')) (\<lambda>_.
     update_workflow tenant_id (wf_id w) [WC_spec spec])))))"

section \<open>Steps\<close>

text \<open>What the workers and the users do with workflows, in any order.\<close>

inductive coordinator_op :: "synthesis_env \<Rightarrow> (store, unit) op \<Rightarrow> bool" for env where
  co_ready: "coordinator_op env (void (ready_runs env t w))"
| co_mark: "coordinator_op env (mark_running r)"
| co_complete: "coordinator_op env (void (complete_child env r txt why))"
| co_retry: "coordinator_op env (void (retry_task env t w i))"
| co_pause: "coordinator_op env (void (pause t w))"
| co_resume: "coordinator_op env (void (resume env t w))"
| co_cancel: "coordinator_op env (void (cancel_workflow t w u))"

text \<open>The states a deployment reaches: an approved workflow is started and stopped through
  \<open>update_workflow\<close> with a new status or approval only.\<close>

definition keeps_spec :: "workflow_change list \<Rightarrow> bool" where
  "keeps_spec changes \<longleftrightarrow> list_all (\<lambda>c. case c of WC_spec _ \<Rightarrow> False | _ \<Rightarrow> True) changes"

definition other_op :: "(store, unit) op \<Rightarrow> bool" where
  "other_op m \<longleftrightarrow> tenancy_op m \<or> log_op m \<or> chat_op m \<or> run_op m \<or> record_op m \<or> action_op m"

inductive workflow_state :: "synthesis_env \<Rightarrow> store \<Rightarrow> bool" for env where
  ws_init: "workflow_state env (empty_store clk uuids notifier)"
| ws_store: "workflow_state env s \<Longrightarrow> other_op m \<Longrightarrow> workflow_state env (snd (m s))"
| ws_create: "workflow_state env s \<Longrightarrow> make_workflow_spec spec = Inr spec \<Longrightarrow>
    workflow_state env (snd (create_workflow r spec s))"
| ws_update: "workflow_state env s \<Longrightarrow> keeps_spec changes \<Longrightarrow>
    workflow_state env (snd (update_workflow t w changes s))"
| ws_edit: "workflow_state env s \<Longrightarrow> make_workflow_spec spec = Inr spec \<Longrightarrow>
    workflow_state env (snd (edit_preview t w spec s))"
| ws_coordinate: "workflow_state env s \<Longrightarrow> coordinator_op env m \<Longrightarrow> workflow_state env (snd (m s))"

section \<open>Every operation is a sequence of store operations\<close>

text \<open>Whatever all store operations preserve, the coordinator preserves.\<close>

lemma preserves_void_iff: "preserves I (void m) \<longleftrightarrow> preserves I m"
  by (simp add: preserves_def void_step)

lemma utc_now_store_op:
  "store_op (void (claim_agent_action [] [] [] 0 None))"
  "snd (void (claim_agent_action [] [] [] 0 None) s) = snd (utc_now s)"
  by (rule store_ops) (simp add: claim_agent_action_def lease_time_def lease_expiration_def op_simps
      utc_now_def)

lemma preserves_from_result [frame_rules]: "preserves I (from_result r)"
  unfolding from_result_def by (cases r) (auto intro: frame_rules)

locale store_invariant =
  fixes I :: "store \<Rightarrow> bool"
  assumes any: "store_op m \<Longrightarrow> preserves I m"
begin

lemma clock_inv: "preserves I utc_now"
  using any [OF utc_now_store_op(1)] by (simp add: preserves_def utc_now_store_op(2))

lemma call_inv: "store_op (void m) \<Longrightarrow> preserves I m"
  using any [of "void m"] by (simp add: preserves_void_iff)

lemma reads_inv: "preserves I (list_workflow_tasks t w)" "preserves I (get_runtime_state t r)"
    "preserves I (get_workflow_task_for_child_run t r)" "preserves I (load_state t r)"
  unfolding list_workflow_tasks_def get_runtime_state_def get_workflow_task_for_child_run_def load_state_def
  by (intro frame_rules)+

lemma calls_inv:
  "preserves I (append_run_event rn ty pl)" "preserves I (create_chat_thread t u tc)"
  "preserves I (update_chat_thread t i tch)" "preserves I (append_chat_message t i us mc)"
  "preserves I (update_chat_message t i mch)"
  "preserves I (create_queued_thread_run_if_absent t u rc)"
  "preserves I (update_run_status t i st b)" "preserves I (cancel_run t i u rs)"
  "preserves I (cancel_pending_approval_requests t i u)"
  "preserves I (update_approval_execution t i a es er)" "preserves I (save_runtime_state rst)"
  "preserves I (update_workflow t i wch)" "preserves I (update_workflow_task t i tkch)"
  by (rule call_inv, rule store_ops)+

lemmas store_calls = clock_inv reads_inv calls_inv

lemma save_state_inv: "preserves I (save_state st)"
proof -
  have "preserves I (\<lambda>s. let persisted = load_state (st_tenant_id st) (st_run_id st) s;
           emitted = (case fst persisted of Inr p \<Rightarrow> terminal_event_emitted p | Inl _ \<Rightarrow> False);
           st' = st\<lparr>st_status := RS_CANCELLED, st_current_step_id := None, st_approval_id := None,
             st_pending_guardrail_approval_key := None, st_pending_guardrail_approval_stage := None,
             st_failure_reason := Some ''Run cancelled'',
             st_other := (if emitted
               then dict_set ''terminal_event_emitted'' (JBool True) (st_other st)
               else st_other st)\<rparr> in
       case fst persisted of
         Inl (NotFoundError _) \<Rightarrow> void (save_runtime_state st') s
       | Inl e \<Rightarrow> raise e s
       | Inr _ \<Rightarrow> void (save_runtime_state st') s)"
    unfolding preserves_def Let_def
    by (auto simp: raise_apply void_step split: sum.splits error.splits
        intro!: preserves_snd [OF calls_inv(11)])
  then show ?thesis unfolding save_state_def by (intro frame_rules store_calls)
qed

lemma task_event_inv: "preserves I (task_event t)"
  unfolding task_event_def by (intro frame_rules store_calls)

lemma goal_inv: "preserves I (workflow_goal r)"
  unfolding workflow_goal_def by (intro frame_rules)

lemma create_task_run_inv: "preserves I (create_task_run env w t ts)"
  unfolding create_task_run_def by (intro frame_rules store_calls task_event_inv goal_inv)

lemma ready_runs_inv: "preserves I (ready_runs env t w)"
  unfolding ready_runs_def by (intro frame_rules store_calls create_task_run_inv)

lemma report_inv: "preserves I (report_approval w t r es er)" "preserves I (report_trigger p ds dl)"
  unfolding report_approval_def report_trigger_def by (intro frame_rules store_calls)+

lemma synthesize_inv: "preserves I (synthesize env w ts)"
  unfolding synthesize_def
  by (auto intro!: frame_rules store_calls save_state_inv goal_inv report_inv split: stream_end.split)

lemma cancel_child_inv: "preserves I (cancel_child w t u r)"
  unfolding cancel_child_def by (intro frame_rules store_calls)

lemma fail_workflow_inv: "preserves I (fail_workflow w e)"
  unfolding fail_workflow_def fail_sibling_def
  by (intro frame_rules store_calls cancel_child_inv report_inv task_event_inv)

lemma summary_inv: "preserves I (task_summary r txt)"
  unfolding task_summary_def by (intro frame_rules)

lemma complete_child_inv: "preserves I (complete_child env r txt why)"
  unfolding complete_child_def child_succeeded_def child_ended_def
  by (intro frame_rules store_calls task_event_inv summary_inv synthesize_inv ready_runs_inv
      fail_workflow_inv)

lemma coordinator_op_inv: "coordinator_op env m \<Longrightarrow> preserves I m"
  by (erule coordinator_op.cases; hypsubst; (unfold mark_running_def retry_task_def pause_def
      resume_def cancel_workflow_def cancel_task_def)?;
      intro frame_rules store_calls task_event_inv ready_runs_inv complete_child_inv
        report_inv synthesize_inv cancel_child_inv)

end

text \<open>Steps of the store from a fixed state are such an invariant.\<close>

interpretation steps: store_invariant "store_steps s" for s
  by unfold_locales (auto simp: preserves_def intro: store_steps.steps_step)

lemma coordinator_store_steps: "coordinator_op env m \<Longrightarrow> store_steps s (snd (m s))"
  using steps.coordinator_op_inv [of env m s] by (simp add: preserves_def steps_refl)

end
