(* ===== verification/WorkflowScheduling.thy ===== *)
theory WorkflowScheduling
  imports WorkflowCoordinator
begin

text \<open>
  What the workflow coordinator guarantees. An abstract scheduler works on the rows of the
  workflows and their tasks alone (\<open>flow_step\<close>); every operation of the coordinator, on any
  branch and after any exception, moves these rows by steps of that scheduler. Its invariant
  \<open>flow_inv\<close> then holds in every state a deployment reaches: tasks run after their
  dependencies, and never more than the allowed number at a time.
\<close>

section \<open>The abstract scheduler\<close>

type_synonym task_rows = "(string, workflow_task) dict"
type_synonym flow_rows = "(string, workflow_run) dict \<times> task_rows"

definition flows :: "store \<Rightarrow> flow_rows" where
  "flows s = (workflows s, workflow_tasks s)"

text \<open>The rows of the tasks of one workflow.\<close>

definition row :: "task_rows \<Rightarrow> workflow_run \<Rightarrow> string \<Rightarrow> workflow_task \<Rightarrow> bool" where
  "row ts w i t \<longleftrightarrow> dict_get ts i = Some t \<and> wt_tenant_id t = wf_tenant_id w
     \<and> wt_workflow_id t = wf_id w"

definition active_ids :: "task_rows \<Rightarrow> workflow_run \<Rightarrow> string set" where
  "active_ids ts w = {i. \<exists>t. row ts w i t \<and> wt_status t \<in> {WT_QUEUED, WT_RUNNING}}"

definition done_ids :: "task_rows \<Rightarrow> workflow_run \<Rightarrow> string set" where
  "done_ids ts w = {wt_task_id t | i t. row ts w i t \<and> wt_status t = WT_SUCCEEDED}"

definition started :: "task_status \<Rightarrow> bool" where
  "started st \<longleftrightarrow> st \<in> {WT_QUEUED, WT_RUNNING, WT_SUCCEEDED}"

definition same_task :: "workflow_task \<Rightarrow> workflow_task \<Rightarrow> bool" where
  "same_task t t' \<longleftrightarrow> wt_id t' = wt_id t \<and> wt_tenant_id t' = wt_tenant_id t
     \<and> wt_workflow_id t' = wt_workflow_id t \<and> wt_task_id t' = wt_task_id t"

definition same_flow :: "workflow_run \<Rightarrow> workflow_run \<Rightarrow> bool" where
  "same_flow w w' \<longleftrightarrow> wf_id w' = wf_id w \<and> wf_tenant_id w' = wf_tenant_id w \<and> wf_spec w' = wf_spec w"

inductive flow_step :: "flow_rows \<Rightarrow> flow_rows \<Rightarrow> bool" where
  fs_flow: "dict_get ws k = Some w \<Longrightarrow> same_flow w w' \<Longrightarrow> flow_step (ws, ts) (dict_set k w' ws, ts)"
| fs_start: "dict_get ws k = Some w \<Longrightarrow> row ts w i t \<Longrightarrow> wt_status t = WT_PENDING \<Longrightarrow>
    spec_task (wf_spec w) (wt_task_id t) = Inr sp \<Longrightarrow> set (ts_depends_on sp) \<subseteq> done_ids ts w \<Longrightarrow>
    int (card (active_ids ts w)) < ws_max_concurrency (wf_spec w) \<Longrightarrow>
    same_task t t' \<Longrightarrow> wt_status t' = WT_QUEUED \<Longrightarrow> flow_step (ws, ts) (ws, dict_set i t' ts)"
| fs_begin: "dict_get ts i = Some t \<Longrightarrow> wt_status t = WT_QUEUED \<Longrightarrow> same_task t t' \<Longrightarrow>
    wt_status t' = WT_RUNNING \<Longrightarrow> flow_step (ws, ts) (ws, dict_set i t' ts)"
| fs_finish: "dict_get ts i = Some t \<Longrightarrow> wt_child_run_id t \<noteq> None \<Longrightarrow>
    wt_status t \<notin> {WT_SUCCEEDED, WT_FAILED, WT_CANCELLED} \<Longrightarrow> same_task t t' \<Longrightarrow>
    wt_status t' = WT_SUCCEEDED \<Longrightarrow> flow_step (ws, ts) (ws, dict_set i t' ts)"
| fs_stop: "dict_get ts i = Some t \<Longrightarrow> wt_status t \<noteq> WT_SUCCEEDED \<Longrightarrow> same_task t t' \<Longrightarrow>
    wt_status t' \<in> {WT_FAILED, WT_CANCELLED} \<Longrightarrow> flow_step (ws, ts) (ws, dict_set i t' ts)"
| fs_retry: "dict_get ts i = Some t \<Longrightarrow> wt_status t \<in> {WT_FAILED, WT_CANCELLED, WT_BLOCKED} \<Longrightarrow>
    same_task t t' \<Longrightarrow> wt_status t' = WT_PENDING \<Longrightarrow> wt_child_run_id t' = None \<Longrightarrow>
    flow_step (ws, ts) (ws, dict_set i t' ts)"

definition flow_steps :: "flow_rows \<Rightarrow> flow_rows \<Rightarrow> bool" where
  "flow_steps = flow_step\<^sup>*\<^sup>*"

section \<open>Its invariant\<close>

text \<open>For one workflow: the specification is valid and the rows are its tasks; at most
  \<open>max_concurrency\<close> tasks are active; a task that was started has all its dependencies done;
  a task that has a child run is neither pending nor blocked.\<close>

definition flow_ok :: "workflow_run \<Rightarrow> task_rows \<Rightarrow> bool" where
  "flow_ok w ts \<longleftrightarrow> well_formed_workflow (wf_spec w)
     \<and> 1 \<le> ws_max_concurrency (wf_spec w) \<and> ws_max_concurrency (wf_spec w) \<le> 8
     \<and> {wt_task_id t | i t. row ts w i t} = ts_id ` set (spec_tasks (wf_spec w))
     \<and> int (card (active_ids ts w)) \<le> ws_max_concurrency (wf_spec w)
     \<and> (\<forall>i t sp. row ts w i t \<longrightarrow> started (wt_status t) \<longrightarrow>
          spec_task (wf_spec w) (wt_task_id t) = Inr sp \<longrightarrow> set (ts_depends_on sp) \<subseteq> done_ids ts w)
     \<and> (\<forall>i t. row ts w i t \<longrightarrow> wt_child_run_id t \<noteq> None \<longrightarrow> wt_status t \<notin> {WT_PENDING, WT_BLOCKED})"

definition flow_inv :: "flow_rows \<Rightarrow> bool" where
  "flow_inv f \<longleftrightarrow> (case f of (ws, ts) \<Rightarrow>
     dict_ok ws \<and> dict_ok ts
     \<and> (\<forall>i t. dict_get ts i = Some t \<longrightarrow> wt_id t = i)
     \<and> (\<forall>k w. dict_get ws k = Some w \<longrightarrow> wf_id w = k \<and> flow_ok w ts))"

lemma row_set:
  "dict_get ts i = Some t \<Longrightarrow> same_task t t' \<Longrightarrow>
   row (dict_set i t' ts) w j x \<longleftrightarrow> (if j = i then x = t' \<and> row ts w i t else row ts w j x)"
  by (auto simp: row_def same_task_def)

lemma finite_active: "finite (active_ids ts w)"
  by (rule finite_subset [of _ "dom (dict_get ts)"]) (auto simp: active_ids_def row_def finite_dom_map_of)

lemma active_set:
  assumes "dict_get ts i = Some t" and "same_task t t'"
  shows "active_ids (dict_set i t' ts) w =
    (if row ts w i t \<and> wt_status t' \<in> {WT_QUEUED, WT_RUNNING} then insert i (active_ids ts w)
     else active_ids ts w - {i})"
  by (auto simp: active_ids_def row_set [OF assms])

lemma done_set:
  assumes "dict_get ts i = Some t" and "same_task t t'"
    and "wt_status t = WT_SUCCEEDED \<Longrightarrow> wt_status t' = WT_SUCCEEDED"
  shows "done_ids ts w \<subseteq> done_ids (dict_set i t' ts) w"
proof
  fix d assume "d \<in> done_ids ts w"
  then obtain j x where x: "row ts w j x" "wt_status x = WT_SUCCEEDED" "d = wt_task_id x"
    by (auto simp: done_ids_def)
  show "d \<in> done_ids (dict_set i t' ts) w"
  proof (cases "j = i")
    case True
    with x assms have "row (dict_set i t' ts) w i t'" "wt_status t' = WT_SUCCEEDED" "wt_task_id t' = d"
      by (auto simp: row_set [OF assms(1,2)] same_task_def row_def)
    then show ?thesis by (auto simp: done_ids_def)
  next
    case False
    with x have "row (dict_set i t' ts) w j x" by (simp add: row_set [OF assms(1,2)])
    with x show ?thesis by (auto simp: done_ids_def)
  qed
qed

lemma names_set:
  assumes "dict_get ts i = Some t" and "same_task t t'"
  shows "{wt_task_id x | j x. row (dict_set i t' ts) w j x} = {wt_task_id x | j x. row ts w j x}"
    (is "?l = ?r")
proof
  show "?l \<subseteq> ?r" using assms(2) by (auto simp: row_set [OF assms] same_task_def split: if_splits)
  have "wt_task_id x \<in> ?l" if "row ts w j x" for j x
  proof (cases "j = i")
    case True
    with that assms have "row (dict_set i t' ts) w i t'" "wt_task_id t' = wt_task_id x"
      by (auto simp: row_set [OF assms] same_task_def row_def)
    then show ?thesis by (intro CollectI exI [of _ i] exI [of _ t']) simp
  next
    case False
    with that have "row (dict_set i t' ts) w j x" by (simp add: row_set [OF assms])
    then show ?thesis by auto
  qed
  then show "?r \<subseteq> ?l" by auto
qed

text \<open>One rewritten task: what has to hold for the invariant to survive.\<close>

lemma flow_ok_set:
  assumes ok: "flow_ok w ts" and t: "dict_get ts i = Some t" "same_task t t'"
    and keep: "wt_status t = WT_SUCCEEDED \<Longrightarrow> wt_status t' = WT_SUCCEEDED"
    and active: "row ts w i t \<Longrightarrow> wt_status t' \<in> {WT_QUEUED, WT_RUNNING} \<Longrightarrow> i \<notin> active_ids ts w \<Longrightarrow>
      int (card (active_ids ts w)) < ws_max_concurrency (wf_spec w)"
    and deps: "\<And>sp. row ts w i t \<Longrightarrow> started (wt_status t') \<Longrightarrow> \<not> started (wt_status t) \<Longrightarrow>
      spec_task (wf_spec w) (wt_task_id t) = Inr sp \<Longrightarrow> set (ts_depends_on sp) \<subseteq> done_ids ts w"
    and child: "row ts w i t \<Longrightarrow> wt_child_run_id t' \<noteq> None \<Longrightarrow> wt_status t' \<notin> {WT_PENDING, WT_BLOCKED}"
  shows "flow_ok w (dict_set i t' ts)"
proof -
  let ?ts = "dict_set i t' ts"
  have less: "done_ids ts w \<subseteq> done_ids ?ts w" by (rule done_set [OF t keep])
  have "int (card (active_ids ?ts w)) \<le> ws_max_concurrency (wf_spec w)"
  proof (cases "row ts w i t \<and> wt_status t' \<in> {WT_QUEUED, WT_RUNNING}")
    case True
    then have "active_ids ?ts w = insert i (active_ids ts w)" by (simp add: active_set [OF t])
    with ok active True show ?thesis
      by (cases "i \<in> active_ids ts w") (auto simp: flow_ok_def finite_active insert_absorb)
  next
    case False
    then have "active_ids ?ts w \<subseteq> active_ids ts w" by (auto simp: active_set [OF t])
    then have "card (active_ids ?ts w) \<le> card (active_ids ts w)" by (intro card_mono finite_active)
    with ok show ?thesis by (simp add: flow_ok_def)
  qed
  moreover have "set (ts_depends_on sp) \<subseteq> done_ids ?ts w"
    if "row ?ts w j x" "started (wt_status x)" "spec_task (wf_spec w) (wt_task_id x) = Inr sp" for j x sp
  proof (cases "j = i")
    case True
    with that t have x: "x = t'" "row ts w i t" "wt_task_id t' = wt_task_id t"
      by (simp_all add: row_set [OF t] same_task_def)
    show ?thesis
    proof (cases "started (wt_status t)")
      case True
      with ok x that have "set (ts_depends_on sp) \<subseteq> done_ids ts w" by (simp add: flow_ok_def)
      with less show ?thesis by blast
    next
      case False
      have "set (ts_depends_on sp) \<subseteq> done_ids ts w"
        by (rule deps) (use x that False in simp_all)
      with less show ?thesis by blast
    qed
  next
    case False
    with that have "row ts w j x" by (simp add: row_set [OF t])
    with ok that less show ?thesis unfolding flow_ok_def by blast
  qed
  moreover have "wt_status x \<notin> {WT_PENDING, WT_BLOCKED}"
    if "row ?ts w j x" "wt_child_run_id x \<noteq> None" for j x
    using that child ok by (cases "j = i") (auto simp: row_set [OF t] flow_ok_def)
  ultimately show ?thesis
    using ok unfolding flow_ok_def names_set [OF t] by blast
qed

lemma row_cong: "same_flow w w' \<Longrightarrow> row ts w' = row ts w"
  by (simp add: row_def fun_eq_iff same_flow_def)

lemma flow_ok_cong:
  assumes "same_flow w w'"
  shows "flow_ok w' ts = flow_ok w ts"
proof -
  have "wf_spec w' = wf_spec w" using assms by (simp add: same_flow_def)
  moreover have "active_ids ts w' = active_ids ts w" "done_ids ts w' = done_ids ts w"
    by (simp_all add: active_ids_def done_ids_def row_cong [OF assms])
  ultimately show ?thesis by (simp add: flow_ok_def row_cong [OF assms])
qed

text \<open>A rewrite of one task only has to be checked in its own workflow.\<close>

lemma flow_inv_set:
  assumes inv: "flow_inv (ws, ts)" and t: "dict_get ts i = Some t" "same_task t t'"
    and ok: "\<And>k w. dict_get ws k = Some w \<Longrightarrow> flow_ok w ts \<Longrightarrow> flow_ok w (dict_set i t' ts)"
  shows "flow_inv (ws, dict_set i t' ts)"
proof -
  have "wt_id t' = i" using inv t by (simp add: flow_inv_def same_task_def)
  with inv ok show ?thesis by (simp add: flow_inv_def)
qed

lemma one_workflow:
  assumes "flow_inv (ws, ts)" and "dict_get ws k = Some w" and "dict_get ws k' = Some w'"
    and "row ts w i t" and "row ts w' i t"
  shows "w' = w"
proof -
  have "wf_id w = k" "wf_id w' = k'" using assms(1-3) by (simp_all add: flow_inv_def)
  moreover have "wf_id w = wf_id w'" using assms(4,5) by (simp add: row_def)
  ultimately show ?thesis using assms(2,3) by simp
qed

lemma flow_inv_step: "flow_step f f' \<Longrightarrow> flow_inv f \<Longrightarrow> flow_inv f'"
proof (induction rule: flow_step.induct)
  case (fs_flow ws k w w' ts)
  then show ?case
    using flow_ok_cong [OF fs_flow(2)] by (auto simp: flow_inv_def same_flow_def)
next
  case (fs_start ws k w ts i t sp t')
  note inv = fs_start.prems
  have t: "dict_get ts i = Some t" using fs_start by (simp add: row_def)
  show ?case
  proof (rule flow_inv_set [OF inv t fs_start(7)])
    fix k1 w1 assume w1: "dict_get ws k1 = Some w1" and ok: "flow_ok w1 ts"
    have same: "w1 = w" if "row ts w1 i t"
      using one_workflow [OF inv fs_start(1) w1 fs_start(2) that] .
    show "flow_ok w1 (dict_set i t' ts)"
      by (rule flow_ok_set [OF ok t fs_start(7)])
        (use fs_start same in \<open>auto simp: started_def\<close>)
  qed
next
  case (fs_begin ts i t t' ws)
  show ?case
    by (rule flow_inv_set [OF fs_begin.prems fs_begin(1,3)], rule flow_ok_set [OF _ fs_begin(1,3)])
      (use fs_begin in \<open>auto simp: started_def active_ids_def\<close>)
next
  case (fs_finish ts i t t' ws)
  show ?case
  proof (rule flow_inv_set [OF fs_finish.prems fs_finish(1,4)])
    fix k w assume ok: "flow_ok w ts"
    have "started (wt_status t)" if "row ts w i t"
    proof -
      have "wt_status t \<notin> {WT_PENDING, WT_BLOCKED}"
        using ok that fs_finish(2) unfolding flow_ok_def by blast
      with fs_finish(3) show ?thesis by (cases "wt_status t") (simp_all add: started_def)
    qed
    then show "flow_ok w (dict_set i t' ts)"
      by (intro flow_ok_set [OF ok fs_finish(1,4)]) (use fs_finish(5) in simp_all)
  qed
next
  case (fs_stop ts i t t' ws)
  show ?case
    by (rule flow_inv_set [OF fs_stop.prems fs_stop(1,3)], rule flow_ok_set [OF _ fs_stop(1,3)])
      (use fs_stop in \<open>auto simp: started_def\<close>)
next
  case (fs_retry ts i t t' ws)
  show ?case
    by (rule flow_inv_set [OF fs_retry.prems fs_retry(1,3)], rule flow_ok_set [OF _ fs_retry(1,3)])
      (use fs_retry in \<open>auto simp: started_def\<close>)
qed

lemma flow_inv_steps: "flow_steps f f' \<Longrightarrow> flow_inv f \<Longrightarrow> flow_inv f'"
  unfolding flow_steps_def by (induction rule: rtranclp.induct) (auto intro: flow_inv_step)

lemma flow_steps_refl: "flow_steps f f"
  by (simp add: flow_steps_def)

lemma flow_steps_one: "flow_step f f' \<Longrightarrow> flow_steps f f'"
  by (auto simp: flow_steps_def)

lemma flow_steps_trans: "flow_steps f g \<Longrightarrow> flow_steps g h \<Longrightarrow> flow_steps f h"
  by (auto simp: flow_steps_def)

section \<open>Operations that leave the rows alone\<close>

interpretation flow: frame "\<lambda>s. flows s = v" for v
  by unfold_locales (auto intro!: preserves_append_run_event_free simp: flows_def)

interpretation flow: tenancy_frame "\<lambda>s. flows s = v" for v
  by unfold_locales (auto intro!: preserves_ensure_context_free simp: flows_def)

interpretation flow: chat_frame "\<lambda>s. flows s = v" for v
  by unfold_locales
    (auto intro!: preserves_ensure_context_free preserves_chat_creation_free simp: flows_def)

interpretation flow: run_frame "\<lambda>s. flows s = v" for v
  by unfold_locales (rule flow.preserves_create_run, simp_all add: flows_def)

interpretation flow: record_frame "\<lambda>s. flows s = v" for v
  by unfold_locales (auto simp: flows_def)

interpretation flow: action_frame "\<lambda>s. flows s = v" for v
  by unfold_locales (auto simp: flows_def)

lemma other_op_keeps: "other_op m \<Longrightarrow> keeps flows m"
  unfolding other_op_def
  by (rule keepsI, elim disjE) (rule flow.tenancy_op_frame flow.log_op_frame flow.chat_op_frame
      flow.run_op_frame flow.record_op_frame flow.action_op_frame, assumption)+

lemma other_ops:
  "tenancy_op m \<Longrightarrow> other_op m" "log_op m \<Longrightarrow> other_op m" "chat_op m \<Longrightarrow> other_op m"
  "run_op m \<Longrightarrow> other_op m" "record_op m \<Longrightarrow> other_op m" "action_op m \<Longrightarrow> other_op m"
  by (simp_all add: other_op_def)

lemma void_keeps: "keeps p (void m) \<Longrightarrow> keeps p m"
  by (simp add: keeps_def void_step)

text \<open>The calls the coordinator makes, apart from \<open>update_workflow\<close> and \<open>update_workflow_task\<close>.\<close>

lemma keeps_calls:
  "keeps flows (append_run_event rn ty pl)" "keeps flows (create_chat_thread t u tc)"
  "keeps flows (update_chat_thread t i tch)" "keeps flows (append_chat_message t i us mc)"
  "keeps flows (update_chat_message t i mch)"
  "keeps flows (create_queued_thread_run_if_absent t u rc)"
  "keeps flows (update_run_status t i st b)" "keeps flows (cancel_run t i u rs)"
  "keeps flows (cancel_pending_approval_requests t i u)"
  "keeps flows (update_approval_execution t i a es er)" "keeps flows (save_runtime_state rst)"
  by (rule void_keeps, rule other_op_keeps, rule other_ops,
      rule log_op.intros chat_op.intros run_op.intros record_op.intros)+

lemmas flow_calls = keeps_calls [THEN keeps_preserves_eq]

lemma keeps_reads:
  "keeps flows utc_now" "keeps flows (get_run t i)" "keeps flows (get_workflow t i)"
  "keeps flows (list_workflow_tasks t i)" "keeps flows (get_workflow_task_for_child_run t i)"
  "keeps flows (get_runtime_state t i)" "keeps flows (load_state t i)"
  "keeps flows (workflow_goal r)" "keeps flows (task_summary r txt)" "keeps flows (from_result x)"
  "keeps flows (require b e)"
  unfolding list_workflow_tasks_def get_workflow_task_for_child_run_def get_runtime_state_def
    load_state_def workflow_goal_def task_summary_def
  by (intro keepsI frame_rules)+

lemmas flow_reads = keeps_reads [THEN keeps_preserves_eq]

lemma keeps_task_event: "keeps flows (task_event t)"
  unfolding task_event_def by (intro keepsI frame_rules flow_calls flow_reads)

lemma keeps_reports:
  "keeps flows (report_approval w t r es er)" "keeps flows (report_trigger p ds dl)"
  "keeps flows (cancel_child w tk u rs)"
  unfolding report_approval_def report_trigger_def cancel_child_def
  by (intro keepsI frame_rules flow_calls)+

lemma keeps_save_state: "keeps flows (save_state st)"
proof (rule keepsI)
  fix v
  have "preserves (\<lambda>s. flows s = v) (\<lambda>s. let persisted = load_state (st_tenant_id st) (st_run_id st) s;
           emitted = (case fst persisted of Inr p \<Rightarrow> terminal_event_emitted p | Inl _ \<Rightarrow> False);
           st' = st\<lparr>st_status := RS_CANCELLED, st_current_step_id := None, st_approval_id := None,
             st_pending_guardrail_approval_key := None, st_pending_guardrail_approval_stage := None,
             st_failure_reason := Some ''Run cancelled'',
             st_other := (if emitted
               then dict_set ''terminal_event_emitted'' (JBool True) (st_other st)
               else st_other st)\<rparr> in
       case fst persisted of
         Inl (NotFoundError _) \<Rightarrow> void (save_runtime_state st') s
       | Inl e \<Rightarrow> raise e s
       | Inr _ \<Rightarrow> void (save_runtime_state st') s)"
    unfolding preserves_def Let_def
    by (auto simp: raise_apply void_step split: sum.splits error.splits
        intro!: preserves_snd [OF flow_calls(11)])
  then show "preserves (\<lambda>s. flows s = v) (save_state st)"
    unfolding save_state_def by (intro frame_rules flow_calls)
qed

section \<open>Moving by steps of the scheduler\<close>

definition goes :: "store \<Rightarrow> (store, 'a) op \<Rightarrow> bool" where
  "goes s m \<longleftrightarrow> flow_steps (flows s) (flows (snd (m s)))"

lemma goes_keeps: "keeps flows m \<Longrightarrow> goes s m"
  by (simp add: goes_def keeps_def flow_steps_refl)

lemma goes_bind:
  assumes "goes s m" and "\<And>x s'. m s = (Inr x, s') \<Longrightarrow> goes s' (f x)"
  shows "goes s (andThen m f)"
proof (cases "m s")
  case (Pair r s')
  with assms show ?thesis
    by (cases r) (auto simp: goes_def andThen_apply intro: flow_steps_trans)
qed

lemma goes_bind_keeps:
  assumes "keeps flows m" and "\<And>x s'. m s = (Inr x, s') \<Longrightarrow> flows s' = flows s \<Longrightarrow> goes s' (f x)"
  shows "goes s (andThen m f)"
  using assms keepsD [OF assms(1)] by (blast intro: goes_bind goes_keeps [OF assms(1)])

lemma goes_void: "goes s m \<Longrightarrow> goes s (void m)"
  by (simp add: goes_def void_step)

lemma goes_whenever: "(b \<Longrightarrow> goes s m) \<Longrightarrow> goes s (whenever b m)"
  by (simp add: goes_def whenever_apply flow_steps_refl)

lemma goes_if: "(b \<Longrightarrow> goes s m) \<Longrightarrow> (\<not> b \<Longrightarrow> goes s n) \<Longrightarrow> goes s (if b then m else n)"
  by simp

lemma goes_ret: "goes s (ret x)" "goes s (raise e)"
  by (simp_all add: goes_def op_simps flow_steps_refl)

text \<open>The two writes.\<close>

lemma update_task_cases:
  obtains (fails) e s' where "update_workflow_task t i chs s = (Inl e, s')" "flows s' = flows s"
  | (writes) t0 n s' where "dict_get (workflow_tasks s) i = Some t0" "wt_tenant_id t0 = t"
      "update_workflow_task t i chs s = (Inr ((foldl apply_task_change t0 chs)\<lparr>wt_updated_at := n\<rparr>), s')"
      "flows s' = (workflows s,
        dict_set i ((foldl apply_task_change t0 chs)\<lparr>wt_updated_at := n\<rparr>) (workflow_tasks s))"
proof (cases "dict_get (workflow_tasks s) i")
  case None
  show thesis by (rule fails) (auto simp: update_workflow_task_def op_simps None)
next
  case (Some t0)
  show thesis
  proof (cases "wt_tenant_id t0 = t")
    case True
    show thesis
      by (rule writes [OF Some True])
        (auto simp: update_workflow_task_def op_simps Some True utc_now_eval flows_def Let_def)
  next
    case False
    show thesis by (rule fails) (auto simp: update_workflow_task_def op_simps Some False)
  qed
qed

lemma get_workflow_Inr: "get_workflow t i s = (Inr w, s') \<Longrightarrow>
    s' = s \<and> dict_get (workflows s) i = Some w \<and> wf_tenant_id w = t"
  by (auto simp: get_workflow_def op_simps split: option.splits if_splits)

lemma same_flow_changes: "keeps_spec chs \<Longrightarrow> same_flow w (foldl apply_workflow_change w chs)"
proof (induction chs arbitrary: w)
  case (Cons c chs)
  then have "same_flow (apply_workflow_change w c) (foldl apply_workflow_change (apply_workflow_change w c) chs)"
    by (simp add: keeps_spec_def)
  moreover have "same_flow w (apply_workflow_change w c)"
    using Cons.prems by (cases c) (simp_all add: keeps_spec_def same_flow_def)
  ultimately show ?case by (simp add: same_flow_def)
qed (simp add: same_flow_def)

lemma update_workflow_cases:
  obtains (fails) e s' where "update_workflow t i chs s = (Inl e, s')" "flows s' = flows s"
  | (writes) w n s' where "dict_get (workflows s) i = Some w" "wf_tenant_id w = t"
      "update_workflow t i chs s = (Inr ((foldl apply_workflow_change w chs)\<lparr>wf_updated_at := n\<rparr>), s')"
      "flows s' = (dict_set i ((foldl apply_workflow_change w chs)\<lparr>wf_updated_at := n\<rparr>) (workflows s),
        workflow_tasks s)"
proof (cases "\<exists>w. dict_get (workflows s) i = Some w \<and> wf_tenant_id w = t")
  case True
  then obtain w where w: "dict_get (workflows s) i = Some w" "wf_tenant_id w = t" by auto
  show thesis
    by (rule writes [OF w, where n = "clock s (tick s)" and s' = "s\<lparr>tick := Suc (tick s), workflows :=
            dict_set i ((foldl apply_workflow_change w chs)\<lparr>wf_updated_at := clock s (tick s)\<rparr>) (workflows s)\<rparr>"])
      (use w in \<open>simp_all add: update_workflow_def get_workflow_def op_simps utc_now_eval flows_def Let_def\<close>)
next
  case False
  then show thesis
    by (intro fails) (auto simp: update_workflow_def get_workflow_def op_simps split: option.splits)
qed

lemma goes_update_workflow:
  assumes "keeps_spec chs"
  shows "goes s (update_workflow t i chs)"
proof (cases rule: update_workflow_cases [of t i chs s])
  case (fails e s')
  then show ?thesis by (simp add: goes_def flow_steps_refl)
next
  case (writes w n s')
  have "same_flow w (foldl apply_workflow_change w chs\<lparr>wf_updated_at := n\<rparr>)"
    using same_flow_changes [OF assms, of w] by (simp add: same_flow_def)
  from flow_step.fs_flow [OF writes(1) this] writes show ?thesis
    by (simp add: goes_def flows_def flow_steps_one)
qed

section \<open>Starting tasks\<close>

text \<open>What an operation does to the rows when it may start task \<open>t\<close>: nothing if it raises
  before the write, else exactly that task becomes queued.\<close>

definition starts :: "workflow_task \<Rightarrow> store \<Rightarrow> store \<Rightarrow> bool" where
  "starts t s s' \<longleftrightarrow> (\<exists>t'. same_task t t' \<and> wt_status t' = WT_QUEUED
     \<and> flows s' = (workflows s, dict_set (wt_id t) t' (workflow_tasks s)))"

definition may_start :: "workflow_task \<Rightarrow> (store, 'a) op \<Rightarrow> bool" where
  "may_start t m \<longleftrightarrow> (\<forall>s r s'. dict_get (workflow_tasks s) (wt_id t) = Some t \<longrightarrow> m s = (r, s') \<longrightarrow>
     starts t s s' \<or> flows s' = flows s \<and> (\<exists>e. r = Inl e))"

lemma may_start_bind:
  assumes "keeps flows m" and "\<And>x. may_start t (f x)"
  shows "may_start t (andThen m f)"
  unfolding may_start_def
proof (intro allI impI)
  fix s r s' assume t: "dict_get (workflow_tasks s) (wt_id t) = Some t" and run: "andThen m f s = (r, s')"
  obtain r1 s1 where m: "m s = (r1, s1)" by fastforce
  with assms(1) have same: "flows s1 = flows s" by (auto dest: keepsD)
  then have w: "workflows s1 = workflows s" "workflow_tasks s1 = workflow_tasks s"
    by (simp_all add: flows_def)
  show "starts t s s' \<or> flows s' = flows s \<and> (\<exists>e. r = Inl e)"
  proof (cases r1)
    case (Inl e)
    with run m same show ?thesis by (auto simp: andThen_apply)
  next
    case (Inr x)
    with run m have "f x s1 = (r, s')" by (simp add: andThen_apply)
    with assms(2) [of x] t w have "starts t s1 s' \<or> flows s' = flows s1 \<and> (\<exists>e. r = Inl e)"
      by (simp add: may_start_def)
    with same w show ?thesis by (simp add: starts_def)
  qed
qed

lemma may_start_write:
  assumes "\<And>u. keeps flows (g u)"
    and "same_task t (foldl apply_task_change t chs)" and "wt_status (foldl apply_task_change t chs) = WT_QUEUED"
  shows "may_start t (andThen (update_workflow_task tn (wt_id t) chs) g)"
  unfolding may_start_def
proof (intro allI impI)
  fix s r s' assume t: "dict_get (workflow_tasks s) (wt_id t) = Some t"
    and run: "andThen (update_workflow_task tn (wt_id t) chs) g s = (r, s')"
  show "starts t s s' \<or> flows s' = flows s \<and> (\<exists>e. r = Inl e)"
  proof (cases rule: update_task_cases [of tn "wt_id t" chs s])
    case (fails e s1)
    with run show ?thesis by (auto simp: andThen_apply)
  next
    case (writes t0 n s1)
    then have [simp]: "t0 = t" using t by simp
    let ?u = "(foldl apply_task_change t chs)\<lparr>wt_updated_at := n\<rparr>"
    from run writes have "g ?u s1 = (r, s')" by (simp add: andThen_apply)
    then have "flows s' = flows s1" using assms(1) by (auto dest: keepsD)
    moreover have "same_task t ?u" "wt_status ?u = WT_QUEUED"
      using assms(2,3) by (simp_all add: same_task_def)
    ultimately show ?thesis using writes(4) by (auto simp: starts_def)
  qed
qed

lemma create_task_run_may_start: "may_start t (create_task_run env w t all)"
proof -
  have "keeps flows (andThen (task_event u) (\<lambda>_. ret r))" for u r
    by (intro keepsI frame_rules keeps_preserves_eq [OF keeps_task_event])
  then have wr: "may_start t (andThen (update_workflow_task tn (wt_id t)
       [TC_status WT_QUEUED, TC_child_thread_id c, TC_child_run_id d, TC_attempts a])
       (\<lambda>updated. andThen (task_event updated) (\<lambda>_. ret r)))" for tn c d a r
    by (intro may_start_write) (simp_all add: same_task_def)
  show ?thesis
    unfolding create_task_run_def Let_def case_prod_unfold
    by (intro may_start_bind keeps_reads keeps_calls wr)
qed

lemma starting_step:
  assumes inv: "flow_inv (flows s)" and w: "dict_get (workflows s) k = Some w"
    and t: "row (workflow_tasks s) w (wt_id t) t" "wt_status t = WT_PENDING"
    and sp: "spec_task (wf_spec w) (wt_task_id t) = Inr sp"
      "set (ts_depends_on sp) \<subseteq> done_ids (workflow_tasks s) w"
    and slot: "int (card (active_ids (workflow_tasks s) w)) < ws_max_concurrency (wf_spec w)"
    and "starts t s s'"
  shows "flow_steps (flows s) (flows s')"
proof -
  obtain t' where "same_task t t'" "wt_status t' = WT_QUEUED"
    "flows s' = (workflows s, dict_set (wt_id t) t' (workflow_tasks s))"
    using assms(8) by (auto simp: starts_def)
  with flow_step.fs_start [OF w t sp slot] show ?thesis
    by (simp add: flows_def flow_steps_one)
qed

lemma start_all:
  assumes "flow_inv (flows s)" and "dict_get (workflows s) k = Some w" and "distinct (map wt_id ts)"
    and "\<forall>t \<in> set ts. row (workflow_tasks s) w (wt_id t) t \<and> wt_status t = WT_PENDING
      \<and> (\<exists>sp. spec_task (wf_spec w) (wt_task_id t) = Inr sp
           \<and> set (ts_depends_on sp) \<subseteq> done_ids (workflow_tasks s) w)"
    and "int (card (active_ids (workflow_tasks s) w)) + int (length ts) \<le> ws_max_concurrency (wf_spec w)"
  shows "goes s (for_each ts (\<lambda>t. create_task_run env w t all))"
  using assms
proof (induction ts arbitrary: s)
  case Nil
  show ?case by (simp add: goes_ret)
next
  case (Cons t ts)
  obtain sp where t: "row (workflow_tasks s) w (wt_id t) t" "wt_status t = WT_PENDING"
    and sp: "spec_task (wf_spec w) (wt_task_id t) = Inr sp"
      "set (ts_depends_on sp) \<subseteq> done_ids (workflow_tasks s) w"
    using Cons.prems(4) by auto
  have slot: "int (card (active_ids (workflow_tasks s) w)) < ws_max_concurrency (wf_spec w)"
    using Cons.prems(5) by simp
  have get: "dict_get (workflow_tasks s) (wt_id t) = Some t" using t(1) by (simp add: row_def)
  obtain r s1 where run: "create_task_run env w t all s = (r, s1)" by fastforce
  have one: "starts t s s1 \<or> flows s1 = flows s \<and> (\<exists>e. r = Inl e)"
    using create_task_run_may_start [of t env w all] get run unfolding may_start_def by blast
  have go: "goes s (create_task_run env w t all)"
    using one starting_step [OF Cons.prems(1,2) t sp slot] run by (auto simp: goes_def flow_steps_refl)
  show ?case
  proof (cases r)
    case (Inl e)
    with run go show ?thesis by (simp add: goes_def andThen_apply)
  next
    case (Inr x)
    with one have st: "starts t s s1" by simp
    then obtain t' where t': "same_task t t'" "wt_status t' = WT_QUEUED"
      "workflows s1 = workflows s" "workflow_tasks s1 = dict_set (wt_id t) t' (workflow_tasks s)"
      by (auto simp: starts_def flows_def)
    have inv1: "flow_inv (flows s1)"
      using flow_inv_steps [OF starting_step [OF Cons.prems(1,2) t sp slot st] Cons.prems(1)] .
    have dn: "done_ids (workflow_tasks s) w \<subseteq> done_ids (workflow_tasks s1) w"
      unfolding t'(4) by (rule done_set [OF get t'(1)]) (use t in simp)
    have "active_ids (workflow_tasks s1) w = insert (wt_id t) (active_ids (workflow_tasks s) w)"
      using t t'(2) unfolding t'(4) by (simp add: active_set [OF get t'(1)])
    then have "int (card (active_ids (workflow_tasks s1) w)) + int (length ts) \<le> ws_max_concurrency (wf_spec w)"
      using Cons.prems(5) card_insert_if [OF finite_active [of "workflow_tasks s" w], of "wt_id t"]
      by (auto split: if_splits)
    moreover have "\<forall>u \<in> set ts. row (workflow_tasks s1) w (wt_id u) u \<and> wt_status u = WT_PENDING
      \<and> (\<exists>sp. spec_task (wf_spec w) (wt_task_id u) = Inr sp
           \<and> set (ts_depends_on sp) \<subseteq> done_ids (workflow_tasks s1) w)"
    proof
      fix u assume u: "u \<in> set ts"
      then have "wt_id u \<noteq> wt_id t" using Cons.prems(3) by (auto simp: image_iff)
      with u Cons.prems(4) dn show "row (workflow_tasks s1) w (wt_id u) u \<and> wt_status u = WT_PENDING
      \<and> (\<exists>sp. spec_task (wf_spec w) (wt_task_id u) = Inr sp
           \<and> set (ts_depends_on sp) \<subseteq> done_ids (workflow_tasks s1) w)"
        unfolding t'(4) row_set [OF get t'(1)] by (simp, blast)
    qed
    moreover have "distinct (map wt_id ts)" "dict_get (workflows s1) k = Some w"
      using Cons.prems(2,3) t'(3) by simp_all
    ultimately have "goes s1 (for_each ts (\<lambda>t. create_task_run env w t all))"
      by (intro Cons.IH inv1)
    then have "goes s1 (andThen (for_each ts (\<lambda>t. create_task_run env w t all)) (\<lambda>ys. ret (x # ys)))"
      by (intro goes_bind goes_ret)
    with go run Inr show ?thesis by (auto simp: goes_def andThen_apply intro: flow_steps_trans)
  qed
qed

section \<open>The operations of the coordinator\<close>

definition startable :: "workflow_spec \<Rightarrow> string set \<Rightarrow> workflow_task \<Rightarrow> bool" where
  "startable spec succeeded t \<longleftrightarrow> wt_status t = WT_PENDING
     \<and> (\<exists>sp. spec_task spec (wt_task_id t) = Inr sp \<and> set (ts_depends_on sp) \<subseteq> succeeded)"

lemma ready_tasks_filter:
  "ready_tasks spec succeeded ts = Inr rs \<Longrightarrow> rs = filter (startable spec succeeded) ts"
  by (induction ts arbitrary: rs) (auto simp: startable_def split: if_splits sum.splits)

lemma list_workflow_tasks_Inr:
  assumes "flow_inv (flows s)" and "list_workflow_tasks t i s = (Inr ts, s')"
  shows "s' = s" and "distinct (map wt_id ts)"
    and "dict_get (workflows s) i = Some w \<Longrightarrow> x \<in> set ts \<longleftrightarrow> row (workflow_tasks s) w (wt_id x) x"
proof -
  obtain w0 where w0: "dict_get (workflows s) i = Some w0" "wf_tenant_id w0 = t" "s' = s"
    and ts: "ts = sort_key (\<lambda>t. (wt_created_at t, wt_id t))
       (filter (\<lambda>x. wt_tenant_id x = t \<and> wt_workflow_id x = i) (dict_values (workflow_tasks s)))"
    using assms(2) by (auto simp: list_workflow_tasks_def get_workflow_def op_simps
        split: option.splits if_splits)
  show "s' = s" by (rule w0)
  have keyed: "\<And>k x. dict_get (workflow_tasks s) k = Some x \<Longrightarrow> wt_id x = k"
    and ok: "dict_ok (workflow_tasks s)"
    using assms(1) by (simp_all add: flow_inv_def flows_def)
  have "map wt_id (dict_values (workflow_tasks s)) = map fst (workflow_tasks s)"
    using keyed ok by (auto simp: dict_values_def dict_ok_def)
  with ok have "distinct (map wt_id (dict_values (workflow_tasks s)))" by (simp add: dict_ok_def)
  then show "distinct (map wt_id ts)"
    unfolding ts by (simp add: distinct_map_filter distinct_map inj_on_def)
  show "x \<in> set ts \<longleftrightarrow> row (workflow_tasks s) w (wt_id x) x" if "dict_get (workflows s) i = Some w"
  proof -
    have "w = w0" and "wf_id w = i" using that w0 assms(1) by (simp_all add: flow_inv_def flows_def)
    then show ?thesis
      using w0 keyed unfolding ts by (auto simp: dict_values_get [OF ok] row_def)
  qed
qed

lemma active_count_eq:
  assumes "distinct (map wt_id ts)" and "\<And>x. x \<in> set ts \<longleftrightarrow> row rows w (wt_id x) x"
    and "\<And>i x. row rows w i x \<Longrightarrow> wt_id x = i"
  shows "active_count ts = int (card (active_ids rows w))"
proof -
  let ?as = "filter (\<lambda>t. wt_status t \<in> {WT_QUEUED, WT_RUNNING}) ts"
  have "distinct (map wt_id ?as)" using assms(1) by (simp add: distinct_map_filter)
  then have "card (wt_id ` set ?as) = length ?as" by (metis distinct_card length_map set_map)
  moreover have "wt_id ` set ?as = active_ids rows w"
    using assms(2,3) unfolding active_ids_def by (auto simp: image_iff)
  ultimately show ?thesis by (simp add: active_count_def)
qed

lemma done_ids_eq:
  assumes "\<And>x. x \<in> set ts \<longleftrightarrow> row rows w (wt_id x) x" and "\<And>i x. row rows w i x \<Longrightarrow> wt_id x = i"
  shows "set (map wt_task_id (filter (\<lambda>t. wt_status t = WT_SUCCEEDED) ts)) = done_ids rows w"
  using assms unfolding done_ids_def by (auto simp: image_iff)

lemma ready_runs_goes:
  assumes inv: "flow_inv (flows s)"
  shows "goes s (ready_runs env t i)"
  unfolding ready_runs_def
proof (rule goes_bind_keeps [OF keeps_reads(3)], rule goes_if [OF goes_ret(1)])
  fix w s1 assume g: "get_workflow t i s = (Inr w, s1)"
  then have w: "s1 = s" "dict_get (workflows s) i = Some w" "wf_tenant_id w = t"
    by (auto dest: get_workflow_Inr)
  show "goes s1 (andThen (list_workflow_tasks t i) (\<lambda>tasks.
       let slots = max 0 (ws_max_concurrency (wf_spec w) - active_count tasks) in
       if slots = 0 then ret []
       else andThen (from_result (ready_tasks (wf_spec w)
           (set (map wt_task_id (filter (\<lambda>t. wt_status t = WT_SUCCEEDED) tasks))) tasks)) (\<lambda>ready.
         for_each (take (nat slots) ready) (\<lambda>t. create_task_run env w t tasks))))"
    unfolding Let_def
  proof (rule goes_bind_keeps [OF keeps_reads(4)], rule goes_if [OF goes_ret(1)])
    fix ts s2 assume l: "list_workflow_tasks t i s1 = (Inr ts, s2)"
      and slots: "max 0 (ws_max_concurrency (wf_spec w) - active_count ts) \<noteq> 0"
    note ts = list_workflow_tasks_Inr [OF inv l [unfolded w(1)]]
    let ?rows = "workflow_tasks s"
    have keyed: "row ?rows w j x \<Longrightarrow> wt_id x = j" for j x
      using inv by (simp add: flow_inv_def flows_def row_def)
    have mem: "x \<in> set ts \<longleftrightarrow> row ?rows w (wt_id x) x" for x by (rule ts(3) [OF w(2)])
    have act: "active_count ts = int (card (active_ids ?rows w))"
      by (rule active_count_eq [OF ts(2) mem]) (rule keyed)
    have dn: "set (map wt_task_id (filter (\<lambda>t. wt_status t = WT_SUCCEEDED) ts)) = done_ids ?rows w"
      by (rule done_ids_eq [OF mem]) (rule keyed)
    show "goes s2 (andThen (from_result (ready_tasks (wf_spec w)
           (set (map wt_task_id (filter (\<lambda>t. wt_status t = WT_SUCCEEDED) ts))) ts)) (\<lambda>ready.
         for_each (take (nat (max 0 (ws_max_concurrency (wf_spec w) - active_count ts))) ready)
           (\<lambda>t. create_task_run env w t ts)))"
    proof (rule goes_bind_keeps [OF keeps_reads(10)])
      fix rs s3 assume "from_result (ready_tasks (wf_spec w)
           (set (map wt_task_id (filter (\<lambda>t. wt_status t = WT_SUCCEEDED) ts))) ts) s2 = (Inr rs, s3)"
      then have h: "s3 = s2" "ready_tasks (wf_spec w)
           (set (map wt_task_id (filter (\<lambda>t. wt_status t = WT_SUCCEEDED) ts))) ts = Inr rs"
        by (auto simp: from_result_def op_simps split: sum.splits)
      have "ready_tasks (wf_spec w) (done_ids ?rows w) ts = Inr rs"
        using h(2) by (simp only: dn)
      moreover have "s3 = s" using h(1) ts(1) w(1) by simp
      ultimately have s3: "s3 = s" and rs: "rs = filter (startable (wf_spec w) (done_ids ?rows w)) ts"
        by (auto dest: ready_tasks_filter)
      let ?n = "nat (max 0 (ws_max_concurrency (wf_spec w) - active_count ts))"
      have "set (take ?n rs) \<subseteq> set rs" by (rule set_take_subset)
      moreover have "distinct (map wt_id (take ?n rs))"
        unfolding take_map [symmetric] using ts(2) by (simp add: rs distinct_map_filter)
      moreover have "int (card (active_ids ?rows w)) + int (length (take ?n rs)) \<le> ws_max_concurrency (wf_spec w)"
        using slots unfolding act by (auto simp: min_def max_def split: if_splits)
      ultimately have "goes s (for_each (take ?n rs) (\<lambda>t. create_task_run env w t ts))"
        using mem by (intro start_all [OF inv w(2)]) (auto simp: rs startable_def)
      then show "goes s3 (for_each (take ?n rs) (\<lambda>t. create_task_run env w t ts))" by (simp add: s3)
    qed
  qed
qed

text \<open>A task is rewritten; what follows leaves the rows alone.\<close>

lemma goes_update_task:
  assumes inv: "flow_inv (flows s)"
    and "\<And>t0. dict_get (workflow_tasks s) i = Some t0 \<Longrightarrow> same_task t0 (foldl apply_task_change t0 chs)"
    and "\<And>t0 u ws. dict_get (workflow_tasks s) i = Some t0 \<Longrightarrow> same_task t0 u \<Longrightarrow>
      wt_status u = wt_status (foldl apply_task_change t0 chs) \<Longrightarrow>
      wt_child_run_id u = wt_child_run_id (foldl apply_task_change t0 chs) \<Longrightarrow>
      flow_step (ws, workflow_tasks s) (ws, dict_set i u (workflow_tasks s))"
  shows "goes s (update_workflow_task t i chs)"
proof (cases rule: update_task_cases [of t i chs s])
  case (fails e s')
  then show ?thesis by (simp add: goes_def flow_steps_refl)
next
  case (writes t0 n s')
  have "same_task t0 (foldl apply_task_change t0 chs\<lparr>wt_updated_at := n\<rparr>)"
    using assms(2) [OF writes(1)] by (simp add: same_task_def)
  from assms(3) [OF writes(1) this] writes show ?thesis
    by (simp add: goes_def flows_def flow_steps_one)
qed

lemma child_task_Inr:
  assumes "flow_inv (flows s)" and "get_workflow_task_for_child_run t i s = (Inr (Some task), s')"
  shows "s' = s" and "dict_get (workflow_tasks s) (wt_id task) = Some task"
    and "wt_child_run_id task = Some i" and "wt_tenant_id task = t"
proof -
  have f: "find (\<lambda>x. wt_tenant_id x = t \<and> wt_child_run_id x = Some i) (dict_values (workflow_tasks s)) = Some task"
    and "s' = s"
    using assms(2) by (auto simp: get_workflow_task_for_child_run_def op_simps)
  then show "s' = s" "wt_child_run_id task = Some i" "wt_tenant_id task = t"
    by (auto simp: find_Some_iff)
  have "task \<in> set (dict_values (workflow_tasks s))" using f by (auto simp: find_Some_iff)
  with assms(1) show "dict_get (workflow_tasks s) (wt_id task) = Some task"
    unfolding flow_inv_def flows_def by (auto simp: dict_values_get)
qed

lemma goes_keeps_then: "flow_inv (flows s) \<Longrightarrow> goes s m \<Longrightarrow>
    (\<And>x s'. m s = (Inr x, s') \<Longrightarrow> flow_inv (flows s') \<Longrightarrow> goes s' (f x)) \<Longrightarrow> goes s (andThen m f)"
  by (rule goes_bind) (auto simp: goes_def dest: flow_inv_steps)

lemma goes_inv: "flow_inv (flows s) \<Longrightarrow> goes s m \<Longrightarrow> m s = (r, s') \<Longrightarrow> flow_inv (flows s')"
  by (auto simp: goes_def dest: flow_inv_steps)

lemma mark_running_goes:
  assumes inv: "flow_inv (flows s)"
  shows "goes s (mark_running r)"
  unfolding mark_running_def
proof (rule goes_bind_keeps [OF keeps_reads(5)])
  fix found s1 assume g: "get_workflow_task_for_child_run (r_tenant_id r) (r_id r) s = (Inr found, s1)"
  show "goes s1 (case found of None \<Rightarrow> ret ()
     | Some task \<Rightarrow> if wt_status task \<noteq> WT_QUEUED then ret ()
         else andThen (update_workflow_task (r_tenant_id r) (wt_id task) [TC_status WT_RUNNING]) task_event)"
  proof (cases found)
    case None
    then show ?thesis by (simp add: goes_ret)
  next
    case (Some task)
    note t = child_task_Inr [OF inv g [unfolded Some]]
    have "goes s (update_workflow_task (r_tenant_id r) (wt_id task) [TC_status WT_RUNNING])"
      if "wt_status task = WT_QUEUED"
      by (rule goes_update_task [OF inv])
        (use t(2) that in \<open>auto simp: same_task_def intro: flow_step.fs_begin\<close>)
    then show ?thesis
      using t(1) Some by (auto intro!: goes_bind [OF _ goes_keeps [OF keeps_task_event]] simp: goes_ret)
  qed
qed

lemma goes_skip:
  "keeps flows m \<Longrightarrow> (\<And>x. \<forall>s. goes s (f x)) \<Longrightarrow> \<forall>s. goes s (andThen m f)"
  by (auto intro: goes_bind_keeps)

lemma goes_synthesize: "goes s (synthesize env w ts)"
proof -
  have stop: "keeps flows (case stop of
         SE_done \<Rightarrow> ret ()
       | SE_gateway_error name \<Rightarrow>
           void (append_run_event parent ''workflow.synthesis_fallback'' [(''reason'', JStr name)])
       | SE_crash e \<Rightarrow> raise e)" for stop parent
    by (cases stop) (auto intro!: keepsI frame_rules flow_calls)
  have post: "keeps flows (case r_thread_id parent of
         None \<Rightarrow> ret None
       | Some thread_id \<Rightarrow>
           if thread_id = [] then ret None
           else andThen (append_chat_message (r_tenant_id parent) thread_id None mc)
             (\<lambda>m. ret (Some (m_id m))))" for parent mc
    by (intro keepsI frame_rules flow_calls)
  have chunks: "keeps flows (for_each chunks (\<lambda>d. append_run_event parent ty (pl d)))" for chunks parent ty pl
    by (intro keepsI frame_rules flow_calls)
  have rest: "keeps flows (andThen (report_approval w t i es er) (\<lambda>_.
     andThen (update_run_status t' i' st b) (\<lambda>completed.
     andThen (append_run_event completed ty (pl completed)) (\<lambda>_.
     andThen (append_run_event completed ty' (pl' completed)) (\<lambda>_.
     andThen (load_state t1 i1) (\<lambda>st'. save_state (f st')))))))"
    for t i es er t' i' st b ty pl ty' pl' t1 i1 f
    by (intro keepsI frame_rules flow_calls flow_reads keeps_reports [THEN keeps_preserves_eq]
        keeps_save_state [THEN keeps_preserves_eq])
  have status: "keeps_spec [WC_status st, WC_completed_at c]" for st c by (simp add: keeps_spec_def)
  have gets: "keeps flows (gets g)" for g :: "store \<Rightarrow> string list \<times> stream_end"
    by (intro keepsI frame_rules)
  show ?thesis
    unfolding synthesize_def Let_def case_prod_unfold
    by (rule HOL.spec [where x = s], (rule goes_skip, rule keeps_reads gets chunks stop post keeps_calls keeps_reports)+,
        rule allI, rule goes_bind, rule goes_update_workflow [OF status], rule goes_keeps [OF rest])
qed

lemma goes_fail_sibling:
  assumes inv: "flow_inv (flows s)" and t: "dict_get (workflow_tasks s) (wt_id t) = Some t"
  shows "goes s (fail_sibling w t)"
  unfolding fail_sibling_def
proof (rule goes_whenever, rule goes_bind_keeps [OF keeps_reports(3)], rule goes_bind_keeps [OF keeps_reads(1)],
    rule goes_bind [OF _ goes_keeps [OF keeps_task_event]])
  fix s1 s2 :: store and now
  assume active: "wt_child_run_id t \<noteq> None \<and> wt_child_run_id t \<noteq> Some [] \<and> wt_status t \<in> {WT_QUEUED, WT_RUNNING}"
    and "flows s1 = flows s" "flows s2 = flows s1"
  then have s2: "flows s2 = flows s" and t2: "dict_get (workflow_tasks s2) (wt_id t) = Some t"
    using t by (simp_all add: flows_def)
  show "goes s2 (update_workflow_task (wf_tenant_id w) (wt_id t) [TC_status WT_CANCELLED, TC_completed_at (Some now)])"
    by (rule goes_update_task)
      (use inv s2 t2 active in \<open>auto simp: same_task_def intro!: flow_step.fs_stop\<close>)
qed

text \<open>A loop over different tasks whose body touches only the row of its task.\<close>

definition touches :: "string \<Rightarrow> (store, 'a) op \<Rightarrow> bool" where
  "touches i m \<longleftrightarrow> (\<forall>s j. j \<noteq> i \<longrightarrow>
     dict_get (workflow_tasks (snd (m s))) j = dict_get (workflow_tasks s) j)"

lemma touches_keeps: "keeps flows m \<Longrightarrow> touches i m"
  by (simp add: touches_def keeps_def flows_def)

lemma touches_bind: "touches i m \<Longrightarrow> (\<And>x. touches i (f x)) \<Longrightarrow> touches i (andThen m f)"
  unfolding touches_def andThen_def by (simp split: prod.splits sum.splits) (metis snd_conv)

lemma touches_whenever: "touches i m \<Longrightarrow> touches i (whenever b m)"
  by (simp add: touches_def whenever_apply)

lemma touches_void: "touches i m \<Longrightarrow> touches i (void m)"
  by (simp add: touches_def void_step)

lemma touches_update: "touches i (update_workflow_task t i chs)"
  unfolding touches_def
proof (intro allI impI)
  fix s j assume "j \<noteq> i"
  then show "dict_get (workflow_tasks (snd (update_workflow_task t i chs s))) j = dict_get (workflow_tasks s) j"
    by (cases rule: update_task_cases [of t i chs s]) (simp_all add: flows_def)
qed

lemmas touches_rules = touches_bind touches_whenever touches_void touches_update
  touches_keeps [OF keeps_task_event] touches_keeps [OF keeps_reports(3)]
  touches_keeps [OF keeps_reads(1)]

lemma goes_each:
  assumes "flow_inv (flows s)" and "distinct (map wt_id ts)"
    and "\<forall>t \<in> set ts. dict_get (workflow_tasks s) (wt_id t) = Some t"
    and step: "\<And>s t. flow_inv (flows s) \<Longrightarrow> dict_get (workflow_tasks s) (wt_id t) = Some t \<Longrightarrow> goes s (f t)"
    and only: "\<And>t. touches (wt_id t) (f t)"
  shows "goes s (for_each ts f)"
  using assms(1-3)
proof (induction ts arbitrary: s)
  case Nil
  show ?case by (simp add: goes_ret)
next
  case (Cons t ts)
  have go: "goes s (f t)" using Cons.prems by (intro step) simp_all
  show ?case
    unfolding for_each.simps
  proof (rule goes_keeps_then [OF Cons.prems(1) go])
    fix x s1 assume run: "f t s = (Inr x, s1)" and inv: "flow_inv (flows s1)"
    have "dict_get (workflow_tasks s1) (wt_id u) = Some u" if "u \<in> set ts" for u
    proof -
      have "wt_id u \<noteq> wt_id t" using that Cons.prems(2) by (auto simp: image_iff)
      with only [of t] run that Cons.prems(3) show ?thesis
        by (auto simp: touches_def) (metis snd_conv)
    qed
    with inv Cons.prems(2) have "goes s1 (for_each ts f)" by (intro Cons.IH) simp_all
    then show "goes s1 (andThen (for_each ts f) (\<lambda>ys. ret (x # ys)))"
      by (intro goes_bind goes_ret)
  qed
qed

lemma listed_tasks:
  assumes "flow_inv (flows s)" and "list_workflow_tasks t i s = (Inr ts, s')"
  shows "s' = s" and "distinct (map wt_id ts)"
    and "\<forall>x \<in> set ts. dict_get (workflow_tasks s) (wt_id x) = Some x"
proof -
  show "s' = s" "distinct (map wt_id ts)" by (rule list_workflow_tasks_Inr [OF assms])+
  obtain w where "dict_get (workflows s) i = Some w"
    using assms(2) by (auto simp: list_workflow_tasks_def get_workflow_def op_simps
        split: option.splits if_splits)
  with list_workflow_tasks_Inr(3) [OF assms] show "\<forall>x \<in> set ts. dict_get (workflow_tasks s) (wt_id x) = Some x"
    by (auto simp: row_def)
qed

lemma keeps_spec_status: "keeps_spec [WC_status st]" "keeps_spec [WC_status st, WC_completed_at c]"
  by (simp_all add: keeps_spec_def)

lemma goes_fail_workflow:
  assumes inv: "flow_inv (flows s)"
  shows "goes s (fail_workflow w e)"
  unfolding fail_workflow_def
proof (rule goes_bind_keeps [OF keeps_reads(4)])
  fix ts s1 assume l: "list_workflow_tasks (wf_tenant_id w) (wf_id w) s = (Inr ts, s1)"
  note ts = listed_tasks [OF inv l]
  have each: "goes s (for_each ts (fail_sibling w))"
    by (rule goes_each [OF inv ts(2,3)]) (simp add: goes_fail_sibling, unfold fail_sibling_def, intro touches_rules)
  have rest: "keeps flows (andThen (report_approval w t i es er) (\<lambda>_.
     andThen (update_run_status t' i' st b) (\<lambda>parent.
     andThen (append_run_event parent ty pl) (\<lambda>_.
     andThen (append_run_event parent ty' pl') (\<lambda>_.
     report_trigger parent ds dl)))))" for t i es er t' i' st b ty pl ty' pl' ds dl
    by (intro keepsI frame_rules flow_calls keeps_reports [THEN keeps_preserves_eq])
  show "goes s1 (andThen (for_each ts (fail_sibling w)) (\<lambda>_. andThen utc_now (\<lambda>now.
     andThen (update_workflow (wf_tenant_id w) (wf_id w) [WC_status WF_FAILED, WC_completed_at (Some now)]) (\<lambda>_.
     andThen (report_approval w (wf_tenant_id w) (wf_parent_run_id w) ''apply_failed'' (Some e)) (\<lambda>_.
     andThen (update_run_status (wf_tenant_id w) (wf_parent_run_id w) RS_FAILED False) (\<lambda>parent.
     andThen (append_run_event parent ''workflow.failed'' [(''workflowId'', JStr (wf_id w)), (''error'', JStr e)]) (\<lambda>_.
     andThen (append_run_event parent ''run.failed'' [(''reason'', JStr ''workflow_task_failed'')]) (\<lambda>_.
     report_trigger parent DS_FAILED DL_FAILED))))))))"
    unfolding ts(1)
    by (rule goes_bind [OF each], rule goes_bind_keeps [OF keeps_reads(1)], rule goes_bind,
        rule goes_update_workflow [OF keeps_spec_status(2)], rule goes_keeps [OF rest])
qed

text \<open>Goals of the form: the rows have not changed since the invariant held.\<close>

lemma inv_same: "flow_inv (flows s) \<Longrightarrow> flows s' = flows s \<Longrightarrow> flow_inv (flows s')"
  by simp

lemma goes_finish_task:
  assumes "flow_inv (flows s)" and "dict_get (workflow_tasks s) i = Some task"
    and "wt_child_run_id task \<noteq> None" and "wt_status task \<notin> {WT_SUCCEEDED, WT_FAILED, WT_CANCELLED}"
  shows "goes s (update_workflow_task t i
      [TC_status WT_SUCCEEDED, TC_summary summary, TC_error err, TC_completed_at now])"
    and "st \<in> {WT_FAILED, WT_CANCELLED} \<Longrightarrow>
      goes s (update_workflow_task t i [TC_status st, TC_error err, TC_completed_at now])"
proof -
  show "goes s (update_workflow_task t i
      [TC_status WT_SUCCEEDED, TC_summary summary, TC_error err, TC_completed_at now])"
  proof (rule goes_update_task [OF assms(1)])
    fix t0 u ws assume "dict_get (workflow_tasks s) i = Some t0" "same_task t0 u"
      "wt_status u = wt_status (foldl apply_task_change t0
         [TC_status WT_SUCCEEDED, TC_summary summary, TC_error err, TC_completed_at now])"
    with assms show "flow_step (ws, workflow_tasks s) (ws, dict_set i u (workflow_tasks s))"
      by (intro flow_step.fs_finish [where t = task]) auto
  qed (simp add: same_task_def)
  show "goes s (update_workflow_task t i [TC_status st, TC_error err, TC_completed_at now])"
    if st: "st \<in> {WT_FAILED, WT_CANCELLED}"
  proof (rule goes_update_task [OF assms(1)])
    fix t0 u ws assume "dict_get (workflow_tasks s) i = Some t0" "same_task t0 u"
      "wt_status u = wt_status (foldl apply_task_change t0
         [TC_status st, TC_error err, TC_completed_at now])"
    with assms st show "flow_step (ws, workflow_tasks s) (ws, dict_set i u (workflow_tasks s))"
      by (intro flow_step.fs_stop [where t = task]) auto
  qed (simp add: same_task_def)
qed

lemma child_succeeded_goes:
  assumes inv: "flow_inv (flows s)" and t: "dict_get (workflow_tasks s) (wt_id task) = Some task"
    and "wt_child_run_id task \<noteq> None" and "wt_status task \<notin> {WT_SUCCEEDED, WT_FAILED, WT_CANCELLED}"
  shows "goes s (child_succeeded env r task w txt)"
  unfolding child_succeeded_def
proof (rule goes_bind_keeps [OF keeps_reads(9)], rule goes_bind_keeps [OF keeps_reads(1)])
  fix s1 s2 :: store and summary now assume "flows s1 = flows s" "flows s2 = flows s1"
  then have same: "flows s2 = flows s" by simp
  have inv2: "flow_inv (flows s2)" using inv same by (rule inv_same)
  have t2: "dict_get (workflow_tasks s2) (wt_id task) = Some task" using t same by (simp add: flows_def)
  show "goes s2 (andThen (update_workflow_task (r_tenant_id r) (wt_id task)
       [TC_status WT_SUCCEEDED, TC_summary summary, TC_error None,
        TC_completed_at (Some now)]) (\<lambda>updated.
     andThen (task_event updated) (\<lambda>_.
     andThen (list_workflow_tasks (r_tenant_id r) (wf_id w)) (\<lambda>tasks.
     if list_all (\<lambda>t. wt_status t = WT_SUCCEEDED) tasks
     then
       andThen (whenever (wf_status w \<noteq> WF_PAUSED) (synthesize env w tasks)) (\<lambda>_.
       ret [])
     else ready_runs env (r_tenant_id r) (wf_id w)))))"
    by (rule goes_keeps_then [OF inv2 goes_finish_task(1) [OF inv2 t2 assms(3,4)]],
        rule goes_bind_keeps [OF keeps_task_event], rule goes_bind_keeps [OF keeps_reads(4)],
        rule goes_if, rule goes_bind, rule goes_whenever, rule goes_synthesize, rule goes_ret,
        rule ready_runs_goes) simp
qed

lemma child_ended_goes:
  assumes inv: "flow_inv (flows s)" and t: "dict_get (workflow_tasks s) (wt_id task) = Some task"
    and "wt_child_run_id task \<noteq> None" and "wt_status task \<notin> {WT_SUCCEEDED, WT_FAILED, WT_CANCELLED}"
  shows "goes s (child_ended r task w why)"
  unfolding child_ended_def
proof (rule goes_bind_keeps [OF keeps_reads(1)])
  fix s2 :: store and now assume same: "flows s2 = flows s"
  have inv2: "flow_inv (flows s2)" using inv same by (rule inv_same)
  have t2: "dict_get (workflow_tasks s2) (wt_id task) = Some task" using t same by (simp add: flows_def)
  show "goes s2 (andThen (update_workflow_task (r_tenant_id r) (wt_id task)
       [TC_status (if r_status r = RS_CANCELLED then WT_CANCELLED else WT_FAILED),
        TC_error (Some (or_default why (run_status_value (r_status r)))),
        TC_completed_at (Some now)]) (\<lambda>updated.
     andThen (task_event updated) (\<lambda>_.
     andThen (whenever (wf_status w \<notin> {WF_CANCELLED, WF_PAUSED})
       (fail_workflow w (or_default (wt_error updated) ''workflow task failed''))) (\<lambda>_.
     ret []))))"
    by (rule goes_keeps_then [OF inv2 goes_finish_task(2) [OF inv2 t2 assms(3,4)]], simp,
        rule goes_bind_keeps [OF keeps_task_event], rule goes_bind [OF _ goes_ret(1)],
        rule goes_whenever, rule goes_fail_workflow) simp
qed

lemma complete_child_goes:
  assumes inv: "flow_inv (flows s)"
  shows "goes s (complete_child env r txt why)"
  unfolding complete_child_def
proof (rule goes_bind_keeps [OF keeps_reads(5)])
  fix found s1 assume g: "get_workflow_task_for_child_run (r_tenant_id r) (r_id r) s = (Inr found, s1)"
  show "goes s1 (case found of
       None \<Rightarrow> ret []
     | Some task \<Rightarrow>
         if wt_status task \<in> {WT_SUCCEEDED, WT_FAILED, WT_CANCELLED} then ret []
         else
           andThen (get_workflow (r_tenant_id r) (wt_workflow_id task)) (\<lambda>w.
           if r_status r = RS_SUCCEEDED then child_succeeded env r task w txt
           else child_ended r task w why))"
  proof (cases found)
    case None
    then show ?thesis by (simp add: goes_ret)
  next
    case (Some task)
    note t = child_task_Inr [OF inv g [unfolded Some]]
    have "goes s2 (child_succeeded env r task w txt)" "goes s2 (child_ended r task w why)"
      if "flows s2 = flows s" "wt_status task \<notin> {WT_SUCCEEDED, WT_FAILED, WT_CANCELLED}" for s2 w
      using that t inv
      by (auto intro!: child_succeeded_goes child_ended_goes simp: flows_def)
    then show ?thesis
      unfolding Some option.case t(1)
      by (intro goes_if goes_ret(1) goes_bind_keeps [OF keeps_reads(3)]) simp_all
  qed
qed

lemma goes_cancel_task:
  assumes inv: "flow_inv (flows s)" and t: "dict_get (workflow_tasks s) (wt_id t) = Some t"
  shows "goes s (cancel_task w user t)"
  unfolding cancel_task_def
proof (rule goes_bind_keeps [OF keeps_reports(3)], rule goes_whenever,
    rule goes_bind_keeps [OF keeps_reads(1)], rule goes_void)
  fix s1 s2 :: store and now
  assume opn: "wt_status t \<in> {WT_PENDING, WT_QUEUED, WT_RUNNING, WT_BLOCKED}"
    and "flows s1 = flows s" "flows s2 = flows s1"
  then have s2: "flows s2 = flows s" and t2: "dict_get (workflow_tasks s2) (wt_id t) = Some t"
    using t by (simp_all add: flows_def)
  show "goes s2 (update_workflow_task (wf_tenant_id w) (wt_id t) [TC_status WT_CANCELLED, TC_completed_at (Some now)])"
    by (rule goes_update_task)
      (use inv s2 t2 opn in \<open>auto simp: same_task_def intro!: flow_step.fs_stop\<close>)
qed

lemma goes_retry_update:
  assumes "flow_inv (flows s)" and "dict_get (workflow_tasks s) i = Some task"
    and "wt_status task \<in> {WT_FAILED, WT_CANCELLED, WT_BLOCKED}"
  shows "goes s (update_workflow_task t i [TC_status WT_PENDING, TC_child_thread_id None,
      TC_child_run_id None, TC_summary [], TC_error None, TC_completed_at None])"
proof (rule goes_update_task [OF assms(1)])
  fix t0 u ws assume "dict_get (workflow_tasks s) i = Some t0" "same_task t0 u"
    "wt_status u = wt_status (foldl apply_task_change t0 [TC_status WT_PENDING, TC_child_thread_id None,
      TC_child_run_id None, TC_summary [], TC_error None, TC_completed_at None])"
    "wt_child_run_id u = wt_child_run_id (foldl apply_task_change t0 [TC_status WT_PENDING,
      TC_child_thread_id None, TC_child_run_id None, TC_summary [], TC_error None, TC_completed_at None])"
  with assms show "flow_step (ws, workflow_tasks s) (ws, dict_set i u (workflow_tasks s))"
    by (intro flow_step.fs_retry [where t = task]) auto
qed (simp add: same_task_def)

lemma goes_to_ready:
  assumes "flow_inv (flows s)" and "keeps_spec chs"
    and "\<And>x. keeps flows (g x)"
  shows "goes s (andThen (update_workflow t i chs) (\<lambda>x. andThen (g x) (\<lambda>_. ready_runs env t' i')))"
  by (rule goes_keeps_then [OF assms(1) goes_update_workflow [OF assms(2)]],
      rule goes_bind_keeps [OF assms(3)], rule ready_runs_goes) simp

lemma retry_task_goes:
  assumes inv: "flow_inv (flows s)"
  shows "goes s (retry_task env t i k)"
  unfolding retry_task_def
proof (rule goes_bind_keeps [OF keeps_reads(3)], rule goes_bind_keeps [OF keeps_reads(4)])
  fix w s1 ts s2 assume "get_workflow t i s = (Inr w, s1)"
    and l: "list_workflow_tasks t i s1 = (Inr ts, s2)"
  then have s1: "s1 = s" by (auto dest: get_workflow_Inr)
  note ts = listed_tasks [OF inv l [unfolded s1]]
  have rest: "keeps flows (andThen (update_run_status t i' st b) (\<lambda>parent.
      andThen (report_approval w t i' es er) (\<lambda>_. append_run_event parent ty pl)))" for i' st b es er ty pl
    by (intro keepsI frame_rules flow_calls keeps_reports [THEN keeps_preserves_eq])
  have tail: "goes s3 (andThen (update_workflow t i [WC_status WF_RUNNING]) (\<lambda>_.
         andThen (update_run_status t (wf_parent_run_id w) RS_RUNNING True) (\<lambda>parent.
         andThen (report_approval w t (wf_parent_run_id w) ''applying'' None) (\<lambda>_.
         andThen (append_run_event parent ''workflow.resumed''
           [(''workflowId'', JStr (wf_id w)), (''taskId'', JStr k),
            (''reason'', JStr ''task_retry'')]) (\<lambda>_.
         ready_runs env t i)))))" if "flow_inv (flows s3)" for s3
    using goes_to_ready [OF that keeps_spec_status(1) rest] by (simp add: andThen_assoc)
  show "goes s2 (case find (\<lambda>t. wt_task_id t = k) ts of
       None \<Rightarrow> raise (ValueError (''workflow task not found: '' @ k))
     | Some task \<Rightarrow>
         andThen (require (wt_status task \<in> {WT_FAILED, WT_CANCELLED, WT_BLOCKED})
           (ValueError ''only failed, cancelled, or blocked workflow tasks can be retried'')) (\<lambda>_.
         andThen (update_workflow_task t (wt_id task)
           [TC_status WT_PENDING, TC_child_thread_id None, TC_child_run_id None, TC_summary [],
            TC_error None, TC_completed_at None]) (\<lambda>_.
         andThen (update_workflow t i [WC_status WF_RUNNING]) (\<lambda>_.
         andThen (update_run_status t (wf_parent_run_id w) RS_RUNNING True) (\<lambda>parent.
         andThen (report_approval w t (wf_parent_run_id w) ''applying'' None) (\<lambda>_.
         andThen (append_run_event parent ''workflow.resumed''
           [(''workflowId'', JStr (wf_id w)), (''taskId'', JStr k),
            (''reason'', JStr ''task_retry'')]) (\<lambda>_.
         ready_runs env t i)))))))"
  proof (cases "find (\<lambda>t. wt_task_id t = k) ts")
    case None
    then show ?thesis by (simp add: goes_ret)
  next
    case (Some task)
    then have "dict_get (workflow_tasks s) (wt_id task) = Some task"
      using ts(3) by (auto simp: find_Some_iff)
    then show ?thesis
      unfolding Some option.case ts(1)
      by (auto intro!: goes_bind_keeps [OF keeps_reads(11)] goes_keeps_then [OF inv goes_retry_update [OF inv]] tail
          simp: require_Inr_iff)
  qed
qed

lemma pause_goes: "goes s (pause t i)"
  unfolding pause_def
proof (rule goes_bind_keeps [OF keeps_reads(3)], rule goes_bind_keeps [OF keeps_reads(11)],
    rule goes_bind [OF goes_update_workflow [OF keeps_spec_status(1)]], rule goes_keeps)
  show "keeps flows (andThen (update_run_status t (wf_parent_run_id w) RS_WAITING_FOR_USER True) (\<lambda>parent.
     andThen (append_run_event parent ''workflow.paused'' [(''workflowId'', JStr (wf_id w))]) (\<lambda>_. ret w)))" for w
    by (intro keepsI frame_rules flow_calls)
qed

lemma resume_goes:
  assumes inv: "flow_inv (flows s)"
  shows "goes s (resume env t i)"
  unfolding resume_def
  by (rule goes_bind_keeps [OF keeps_reads(3)], rule goes_bind_keeps [OF keeps_reads(11)],
      rule goes_keeps_then [OF _ goes_update_workflow [OF keeps_spec_status(1)]], simp add: inv,
      rule goes_bind_keeps [OF keeps_calls(7)], rule goes_bind_keeps [OF keeps_calls(1)],
      rule goes_bind_keeps [OF keeps_reads(4)], rule goes_if,
      rule goes_bind [OF goes_synthesize], rule goes_bind_keeps [OF keeps_reads(3)], rule goes_ret(1),
      rule goes_bind [OF _ goes_ret(1)], rule ready_runs_goes, simp)

lemma cancel_workflow_goes:
  assumes inv: "flow_inv (flows s)"
  shows "goes s (cancel_workflow t i user)"
  unfolding cancel_workflow_def
proof (rule goes_bind_keeps [OF keeps_reads(3)], rule goes_if [OF goes_ret(1)],
    rule goes_bind_keeps [OF keeps_reads(11)], rule goes_bind_keeps [OF keeps_reads(4)])
  fix w s1 s2 s3 ts x assume "get_workflow t i s = (Inr w, s1)"
    and same: "flows s1 = flows s" "flows s2 = flows s1"
    and l: "list_workflow_tasks t i s2 = (Inr ts, s3)"
  have inv2: "flow_inv (flows s2)" using inv same by simp
  note ts = listed_tasks [OF inv2 l]
  have each: "goes s2 (for_each ts (cancel_task w user))"
    by (rule goes_each [OF inv2 ts(2,3)]) (simp add: goes_cancel_task, unfold cancel_task_def, intro touches_rules)
  have rest: "keeps flows (andThen (get_run t (wf_parent_run_id w')) (\<lambda>found.
       andThen (if r_status found \<notin> terminal_run_statuses
           then cancel_run t (r_id found) user ''workflow_cancelled''
           else ret found) (\<lambda>parent.
       andThen (cancel_pending_approval_requests t (r_id parent) user) (\<lambda>_.
       andThen (report_approval w' t (r_id parent) ''superseded'' None) (\<lambda>_.
       andThen (append_run_event parent ''workflow.cancelled'' [(''workflowId'', JStr (wf_id w'))]) (\<lambda>_.
       ret w'))))))" for w'
    by (intro keepsI frame_rules flow_calls keeps_reports [THEN keeps_preserves_eq])
  show "goes s3 (andThen (for_each ts (cancel_task w user)) (\<lambda>_.
       andThen utc_now (\<lambda>now.
       andThen (update_workflow t i [WC_status WF_CANCELLED, WC_completed_at (Some now)]) (\<lambda>w.
       andThen (get_run t (wf_parent_run_id w)) (\<lambda>found.
       andThen (if r_status found \<notin> terminal_run_statuses
           then cancel_run t (r_id found) user ''workflow_cancelled''
           else ret found) (\<lambda>parent.
       andThen (cancel_pending_approval_requests t (r_id parent) user) (\<lambda>_.
       andThen (report_approval w t (r_id parent) ''superseded'' None) (\<lambda>_.
       andThen (append_run_event parent ''workflow.cancelled'' [(''workflowId'', JStr (wf_id w))]) (\<lambda>_.
       ret w)))))))))"
    unfolding ts(1)
    by (rule goes_bind [OF each], rule goes_bind_keeps [OF keeps_reads(1)], rule goes_bind,
        rule goes_update_workflow [OF keeps_spec_status(2)], rule goes_keeps [OF rest])
qed

text \<open>Together: the coordinator refines the scheduler.\<close>

lemma coordinator_goes:
  assumes "flow_inv (flows s)" and "coordinator_op env m"
  shows "flow_steps (flows s) (flows (snd (m s)))"
proof -
  have "goes s m"
    using assms(2) by (cases rule: coordinator_op.cases)
      (simp_all add: goes_void ready_runs_goes mark_running_goes complete_child_goes retry_task_goes
        pause_goes resume_goes cancel_workflow_goes assms(1))
  then show ?thesis by (simp add: goes_def)
qed

end
