(* ===== verification/WorkflowScenario.thy ===== *)
theory WorkflowScenario
  imports WorkflowCoordinator Scenario
begin

text \<open>
  One workflow of two tasks, the second after the first, on top of the session of
  \<open>Scenario\<close>: it is created for the session's run and approved. Used to apply the conditional
  theorems at concrete states.
\<close>

definition flow_env :: synthesis_env where
  "flow_env = \<lparr>sy_stream = (\<lambda>_ _. ([''done''], SE_done)), sy_show_float = (\<lambda>_. ''0.0'')\<rparr>"

definition flow_task :: "string \<Rightarrow> string list \<Rightarrow> workflow_task_spec" where
  "flow_task i deps =
     \<lparr>ts_id = i, ts_title = ''T'', ts_description = [], ts_depends_on = deps,
      ts_preferred_tool = None, ts_tool_input = [], ts_tool_mode = ''standard'',
      ts_model_hint = ''fast''\<rparr>"

definition flow_spec :: workflow_spec where
  "flow_spec =
     \<lparr>ws_name = ''W'', ws_description = [],
      ws_phases = [\<lparr>ps_id = ''p'', ps_title = ''P'',
        ps_tasks = [flow_task ''a'' [], flow_task ''b'' [''a'']]\<rparr>],
      ws_max_concurrency = 1, ws_final_synthesis_prompt = ''S''\<rparr>"

lemma flow_spec_valid: "make_workflow_spec flow_spec = Inr flow_spec"
  by code_simp

definition flow_id :: string where
  "flow_id = ''workflow_'' @ replicate 21 CHR ''x''"

text \<open>A step for a run read from the state.\<close>

definition with_run :: "string \<Rightarrow> (run \<Rightarrow> (store, unit) op) \<Rightarrow> store \<Rightarrow> store" where
  "with_run i m s = (case dict_get (runs s) i of None \<Rightarrow> s | Some r \<Rightarrow> snd (m r s))"

definition flow_moves :: "(store \<Rightarrow> store) list" where
  "flow_moves =
     [with_run demo_run (\<lambda>r. void (create_workflow r flow_spec)),
      \<lambda>s. snd (update_workflow ''t1'' flow_id [WC_status WF_RUNNING] s)]"

text \<open>\<open>flow_store k\<close> is the state after the first \<open>k\<close> of these steps.\<close>

definition flow_store :: "nat \<Rightarrow> store" where
  "flow_store k = foldl (\<lambda>s m. m s) (demo_store 3) (take k flow_moves)"

definition flow_view ::
  "store \<Rightarrow> (workflow_status \<times> bool) option \<times> (string \<times> task_status) list option \<times> (string \<times> task_status) list" where
  "flow_view s =
     (case fst (get_workflow ''t1'' flow_id s) of
        Inr w \<Rightarrow> Some (wf_status w, wf_spec w = flow_spec) | Inl _ \<Rightarrow> None,
      case fst (list_workflow_tasks ''t1'' flow_id s) of
        Inr ts \<Rightarrow> Some (map (\<lambda>t. (wt_task_id t, wt_status t)) ts) | Inl _ \<Rightarrow> None,
      map (\<lambda>(i, t). (wt_task_id t, wt_status t)) (workflow_tasks s))"

fun move_trace :: "(store \<Rightarrow> 'v) \<Rightarrow> (store \<Rightarrow> store) list \<Rightarrow> store \<Rightarrow> 'v list" where
  "move_trace v [] s = [v s]"
| "move_trace v (m # ms) s = v s # move_trace v ms (m s)"

lemma move_trace_nth:
  "k \<le> length ms \<Longrightarrow> move_trace v ms s ! k = v (foldl (\<lambda>s m. m s) s (take k ms))"
  by (induction ms arbitrary: s k) (auto simp: nth_Cons split: nat.split)

lemma flow_trace: "move_trace flow_view flow_moves (demo_store 3) =
   [(None, None, []),
    (Some (WF_AWAITING_APPROVAL, True), Some [(''a'', WT_PENDING), (''b'', WT_PENDING)],
      [(''a'', WT_PENDING), (''b'', WT_PENDING)]),
    (Some (WF_RUNNING, True), Some [(''a'', WT_PENDING), (''b'', WT_PENDING)],
      [(''a'', WT_PENDING), (''b'', WT_PENDING)])]"
  by code_simp

lemma flow_facts:
  "flow_view (flow_store 2) = (Some (WF_RUNNING, True), Some [(''a'', WT_PENDING), (''b'', WT_PENDING)],
      [(''a'', WT_PENDING), (''b'', WT_PENDING)])"
  using flow_trace move_trace_nth [of 2 flow_moves flow_view "demo_store 3"]
  by (simp add: flow_store_def flow_moves_def)

lemma flow_store_2: "workflow_state env (flow_store 2)"
proof -
  have demo: "workflow_state env (demo_store k)" if "k \<le> 3" for k
    using that
  proof (induction k)
    case 0
    show ?case by (simp add: demo_store_def run_ops_def demo_start_def ws_init)
  next
    case (Suc k)
    have "other_op (demo_ops ! k)"
      using Suc.prems unfolding demo_ops_def less_Suc_eq_le [symmetric] numeral_3_eq_3
      by (auto simp: less_Suc_eq other_op_def intro: chat_op.intros run_op.intros)
    moreover have "demo_store (Suc k) = snd ((demo_ops ! k) (demo_store k))"
      using Suc.prems by (simp add: demo_store_def run_ops_def take_Suc_conv_app_nth)
    ultimately show ?case using Suc by (auto intro: ws_store)
  qed
  have "workflow_state env (with_run demo_run (\<lambda>r. void (create_workflow r flow_spec)) (demo_store 3))"
    using demo [of 3] by (auto simp: with_run_def void_step split: option.split
        intro: ws_create flow_spec_valid)
  then have "workflow_state env (snd (update_workflow ''t1'' flow_id [WC_status WF_RUNNING]
      (with_run demo_run (\<lambda>r. void (create_workflow r flow_spec)) (demo_store 3))))"
    by (rule ws_update) (simp add: keeps_spec_def)
  then show ?thesis by (simp add: flow_store_def flow_moves_def)
qed

lemma flow_store_uuids: "unique_uuids (flow_store 2)"
proof -
  have create: "unique_uuids s \<Longrightarrow> unique_uuids (snd (void (create_workflow r flow_spec) s))" for r s
    by (rule preserves_snd [OF uuids.store_op_frame]) (rule store_ops)
  have upd: "unique_uuids s \<Longrightarrow> unique_uuids (snd (void (update_workflow t i chs) s))" for t i chs s
    by (rule preserves_snd [OF uuids.store_op_frame]) (rule store_ops)
  show ?thesis
    using unique_uuids_demo [of 3] create upd [unfolded void_step]
    by (simp add: flow_store_def flow_moves_def with_run_def split: option.split)
qed

end
