(* ===== verification/WorkflowGuarantees.thy ===== *)
theory WorkflowGuarantees
  imports WorkflowScheduling WorkflowScenario Ownership
begin

text \<open>
  The scheduler's invariant in every state a deployment reaches, and what it means for users:
  dependency order, bounded concurrency, no stalled workflow, completions applied once.
\<close>

section \<open>Identifiers of rows\<close>

definition fresh_rows :: "(string \<Rightarrow> bool) \<Rightarrow> (string \<Rightarrow> bool) \<Rightarrow> flow_rows \<Rightarrow> bool" where
  "fresh_rows P Q f \<longleftrightarrow> (case f of (ws, ts) \<Rightarrow>
     (\<forall>k w. dict_get ws k = Some w \<longrightarrow> P k)
     \<and> (\<forall>i t. dict_get ts i = Some t \<longrightarrow> Q i \<and> P (wt_workflow_id t)))"

lemma fresh_rows_mono:
  "fresh_rows P Q f \<Longrightarrow> (\<And>x. P x \<Longrightarrow> P' x) \<Longrightarrow> (\<And>x. Q x \<Longrightarrow> Q' x) \<Longrightarrow> fresh_rows P' Q' f"
  by (force simp: fresh_rows_def split: prod.splits)

lemma fresh_rows_step: "flow_step f f' \<Longrightarrow> fresh_rows P Q f \<Longrightarrow> fresh_rows P Q f'"
  by (induction rule: flow_step.induct) (simp_all add: fresh_rows_def same_task_def row_def, metis+)

lemma fresh_rows_steps: "flow_steps f f' \<Longrightarrow> fresh_rows P Q f \<Longrightarrow> fresh_rows P Q f'"
  unfolding flow_steps_def by (induction rule: rtranclp.induct) (auto intro: fresh_rows_step)

definition later_world :: "store \<Rightarrow> store \<Rightarrow> bool" where
  "later_world s s' \<longleftrightarrow> uuid4_hex s' = uuid4_hex s \<and> tick s \<le> tick s'"

interpretation clockwork: frame "later_world s" for s
  by unfold_locales (auto intro!: preserves_append_run_event_free simp: later_world_def)

interpretation clockwork: store_frame "later_world s" for s
  by unfold_locales
    (auto intro!: preserves_ensure_context_free preserves_chat_creation_free
      clockwork.preserves_create_run simp: later_world_def)

interpretation clockwork: store_invariant "later_world s" for s
  by unfold_locales (rule clockwork.store_op_frame)

lemma later_world_refl: "later_world s s"
  by (simp add: later_world_def)

lemma later_world_op: "store_op m \<Longrightarrow> later_world s (snd (m s))"
  using clockwork.store_op_frame [of m s] later_world_refl by (simp add: preserves_def)

lemma later_world_coordinator: "coordinator_op env m \<Longrightarrow> later_world s (snd (m s))"
  using clockwork.coordinator_op_inv [of env m s] later_world_refl by (simp add: preserves_def)

text \<open>The invariant of the whole system.\<close>

definition sched_ok :: "store \<Rightarrow> bool" where
  "sched_ok s \<longleftrightarrow> flow_inv (flows s)
     \<and> fresh_rows (issued ''workflow'' s) (issued ''workflow_task'' s) (flows s)"

lemma sched_ok_later:
  assumes "sched_ok s" and "flow_steps (flows s) (flows s')" and "later_world s s'"
  shows "sched_ok s'"
proof -
  have "fresh_rows (issued ''workflow'' s) (issued ''workflow_task'' s) (flows s')"
    using assms(1,2) fresh_rows_steps by (auto simp: sched_ok_def)
  then have "fresh_rows (issued ''workflow'' s') (issued ''workflow_task'' s') (flows s')"
    by (rule fresh_rows_mono) (use assms(3) in \<open>auto simp: later_world_def intro: issued_mono\<close>)
  then show ?thesis using assms(1,2) flow_inv_steps by (auto simp: sched_ok_def)
qed

section \<open>New workflows\<close>

text \<open>While the rows of a new workflow are written: the old rows stay, the new ones are pending
  tasks of the names written so far.\<close>

definition writing :: "store \<Rightarrow> string \<Rightarrow> string \<Rightarrow> string set \<Rightarrow> store \<Rightarrow> bool" where
  "writing s0 tn wid names s \<longleftrightarrow>
     workflows s = workflows s0 \<and> later_world s0 s \<and> dict_ok (workflow_tasks s)
     \<and> (\<forall>i t. dict_get (workflow_tasks s0) i = Some t \<longrightarrow> dict_get (workflow_tasks s) i = Some t)
     \<and> (\<forall>i t. dict_get (workflow_tasks s) i = Some t \<longrightarrow> issued ''workflow_task'' s i
          \<and> (dict_get (workflow_tasks s0) i = Some t
             \<or> wt_id t = i \<and> wt_tenant_id t = tn \<and> wt_workflow_id t = wid \<and> wt_status t = WT_PENDING
               \<and> wt_child_run_id t = None \<and> wt_task_id t \<in> names))
     \<and> (\<forall>d \<in> names. \<exists>i t. dict_get (workflow_tasks s) i = Some t \<and> wt_tenant_id t = tn
          \<and> wt_workflow_id t = wid \<and> wt_task_id t = d)"

lemma writing_task:
  assumes "unique_uuids s" and w: "writing s0 (r_tenant_id r) wid names s"
  shows "\<exists>s'. add_workflow_task r wid pid now spec s = (Inr (), s') \<and> unique_uuids s'
    \<and> writing s0 (r_tenant_id r) wid (insert (ts_id spec) names) s'"
proof -
  define i where "i = ''workflow_task'' @ ''_'' @ uuid4_hex s (tick s)"
  define t where "t = \<lparr>wt_id = i, wt_tenant_id = r_tenant_id r, wt_workspace_id = r_workspace_id r,
        wt_workflow_id = wid, wt_task_id = ts_id spec, wt_phase_id = pid,
        wt_status = WT_PENDING, wt_child_thread_id = None, wt_child_run_id = None,
        wt_summary = [], wt_error = None, wt_attempts = 0, wt_created_at = now,
        wt_updated_at = now, wt_completed_at = None\<rparr>"
  let ?s = "s\<lparr>tick := Suc (tick s), workflow_tasks := dict_set i t (workflow_tasks s)\<rparr>"
  have t: "wt_id t = i" "wt_tenant_id t = r_tenant_id r" "wt_workflow_id t = wid"
      "wt_status t = WT_PENDING" "wt_child_run_id t = None" "wt_task_id t = ts_id spec"
    by (simp_all add: t_def)
  have run: "add_workflow_task r wid pid now spec s = (Inr (), ?s)"
    unfolding add_workflow_task_def andThen_apply new_id_eval i_def [symmetric] Let_def
    by (simp add: modify_apply t_def)
  have new: "dict_get (workflow_tasks s) i = None"
  proof (rule ccontr)
    assume "dict_get (workflow_tasks s) i \<noteq> None"
    then have "issued ''workflow_task'' s i" using w by (auto simp: writing_def)
    from new_id_fresh [OF assms(1) this] show False by (simp add: i_def)
  qed
  have "issued ''workflow_task'' s j \<Longrightarrow> issued ''workflow_task'' ?s j" for j
    by (erule issued_mono) (simp_all add: le_SucI)
  moreover have "issued ''workflow_task'' ?s i" by (auto simp: issued_def i_def)
  moreover have "later_world s0 ?s" using w by (auto simp: writing_def later_world_def)
  ultimately have "writing s0 (r_tenant_id r) wid (insert (ts_id spec) names) ?s"
    using w t new unfolding writing_def by (auto split: if_splits) (metis option.distinct(1))+
  with run assms(1) show ?thesis by (simp add: unique_uuids_def)
qed

lemma writing_tasks:
  assumes "unique_uuids s" and "writing s0 (r_tenant_id r) wid names s"
  shows "\<exists>us s'. for_each specs (add_workflow_task r wid pid now) s = (Inr us, s') \<and> unique_uuids s'
    \<and> writing s0 (r_tenant_id r) wid (names \<union> ts_id ` set specs) s'"
  using assms
proof (induction specs arbitrary: s names)
  case Nil
  then show ?case by (simp add: ret_apply)
next
  case (Cons spec specs)
  obtain s1 where s1: "add_workflow_task r wid pid now spec s = (Inr (), s1)" "unique_uuids s1"
    "writing s0 (r_tenant_id r) wid (insert (ts_id spec) names) s1"
    using writing_task [OF Cons.prems] by blast
  from Cons.IH [OF s1(2,3)] s1(1) show ?case by (auto simp: op_simps)
qed

lemma writing_phases:
  assumes "unique_uuids s" and "writing s0 (r_tenant_id r) wid names s"
  shows "\<exists>us s'. for_each phases (\<lambda>p. for_each (ps_tasks p) (add_workflow_task r wid (ps_id p) now)) s
      = (Inr us, s') \<and> unique_uuids s'
    \<and> writing s0 (r_tenant_id r) wid (names \<union> ts_id ` set (concat (map ps_tasks phases))) s'"
  using assms
proof (induction phases arbitrary: s names)
  case Nil
  then show ?case by (simp add: ret_apply)
next
  case (Cons p phases)
  obtain us s1 where s1: "for_each (ps_tasks p) (add_workflow_task r wid (ps_id p) now) s = (Inr us, s1)"
    "unique_uuids s1" "writing s0 (r_tenant_id r) wid (names \<union> ts_id ` set (ps_tasks p)) s1"
    using writing_tasks [OF Cons.prems] by blast
  from Cons.IH [OF s1(2,3)] s1(1) show ?case by (auto simp: op_simps image_Un Un_assoc)
qed

text \<open>A workflow of a valid specification starts within the invariant.\<close>

lemma flow_ok_new:
  assumes spec: "make_workflow_spec (wf_spec w) = Inr (wf_spec w)"
    and rows: "\<And>i t. row ts w i t \<Longrightarrow> wt_status t = WT_PENDING \<and> wt_child_run_id t = None"
    and names: "{wt_task_id t | i t. row ts w i t} = ts_id ` set (spec_tasks (wf_spec w))"
  shows "flow_ok w ts"
proof -
  have "active_ids ts w = {}" using rows by (auto simp: active_ids_def)
  moreover have "\<not> started (wt_status t)" if "row ts w i t" for i t
    using rows [OF that] by (simp add: started_def)
  moreover have "well_formed_workflow (wf_spec w)" "1 \<le> ws_max_concurrency (wf_spec w)"
      "ws_max_concurrency (wf_spec w) \<le> 8"
    using spec by (simp_all add: make_workflow_spec_Inr_iff workflow_spec_fields_ok_def)
  ultimately show ?thesis using names rows unfolding flow_ok_def by auto
qed

lemma written_rows:
  assumes fresh: "fresh_rows P Q (flows s0)" and "\<not> P wid"
    and w: "writing s0 (wf_tenant_id w) wid names s" and "wf_id w = wid"
  shows "row (workflow_tasks s) w i t \<Longrightarrow> wt_status t = WT_PENDING \<and> wt_child_run_id t = None"
    and "{wt_task_id t | i t. row (workflow_tasks s) w i t} = names"
proof -
  have old: "wt_workflow_id t \<noteq> wid" if "dict_get (workflow_tasks s0) i = Some t" for i t
    using fresh that assms(2) by (auto simp: fresh_rows_def flows_def)
  show "row (workflow_tasks s) w i t \<Longrightarrow> wt_status t = WT_PENDING \<and> wt_child_run_id t = None"
    using w old [of i t] assms(4) unfolding writing_def row_def by blast
  show "{wt_task_id t | i t. row (workflow_tasks s) w i t} = names" (is "?l = _")
  proof
    show "?l \<subseteq> names"
      using w old assms(4) unfolding writing_def row_def by blast
    show "names \<subseteq> ?l"
    proof
      fix d assume "d \<in> names"
      then obtain i t where "dict_get (workflow_tasks s) i = Some t" "wt_tenant_id t = wf_tenant_id w"
        "wt_workflow_id t = wid" "wt_task_id t = d"
        using w by (auto simp: writing_def)
      then show "d \<in> ?l" using assms(4) by (auto simp: row_def)
    qed
  qed
qed

text \<open>The rows of the workflows that were there before are untouched.\<close>

lemma written_old_rows:
  assumes "writing s0 tn wid names s" and "wf_id w \<noteq> wid"
  shows "row (workflow_tasks s) w = row (workflow_tasks s0) w"
  using assms unfolding writing_def row_def fun_eq_iff by (metis)

lemma flow_ok_rows:
  assumes "row ts' w = row ts w"
  shows "flow_ok w ts' = flow_ok w ts"
proof -
  have "active_ids ts' w = active_ids ts w" "done_ids ts' w = done_ids ts w"
    by (simp_all add: active_ids_def done_ids_def assms)
  then show ?thesis by (simp add: flow_ok_def assms)
qed

lemma flow_invD:
  assumes "flow_inv (flows s)"
  shows "dict_get (workflows s) k = Some w \<Longrightarrow> wf_id w = k"
    and "dict_get (workflows s) k = Some w \<Longrightarrow> flow_ok w (workflow_tasks s)"
    and "dict_get (workflow_tasks s) i = Some t \<Longrightarrow> wt_id t = i"
    and "dict_ok (workflows s)" and "dict_ok (workflow_tasks s)"
  using assms unfolding flow_inv_def flows_def prod.case by blast+

lemma issued_workflows: "issued p (s\<lparr>workflows := ws\<rparr>) = issued p s"
  by (simp add: issued_def fun_eq_iff)

lemma sched_ok_written:
  assumes ok: "sched_ok s0" and new: "\<not> issued ''workflow'' s0 (wf_id w)"
    and iss: "issued ''workflow'' s (wf_id w)"
    and spec: "make_workflow_spec (wf_spec w) = Inr (wf_spec w)"
    and w: "writing (s0\<lparr>workflows := dict_set (wf_id w) w (workflows s0), tick := n\<rparr>) (wf_tenant_id w) (wf_id w)
      (ts_id ` set (spec_tasks (wf_spec w))) s"
    and n: "tick s0 \<le> n"
  shows "sched_ok s"
proof -
  let ?s = "s0\<lparr>workflows := dict_set (wf_id w) w (workflows s0), tick := n\<rparr>"
  have fresh0: "fresh_rows (issued ''workflow'' s0) (issued ''workflow_task'' s0) (flows s0)"
    and inv0: "flow_inv (flows s0)" using ok by (simp_all add: sched_ok_def)
  have later: "later_world s0 s" using w n by (auto simp: writing_def later_world_def)
  have more: "issued p s0 i \<Longrightarrow> issued p s i" for p i
    using later by (auto simp: later_world_def intro: issued_mono)
  have w0: "writing s0 (wf_tenant_id w) (wf_id w) (ts_id ` set (spec_tasks (wf_spec w)))
      (s\<lparr>workflows := workflows s0\<rparr>)"
    using w later issued_workflows [where p = "''workflow_task''" and s = s] by (simp add: writing_def later_world_def)
  note rows = written_rows [OF fresh0 new w0 refl]
  have ws: "workflows s = dict_set (wf_id w) w (workflows s0)" using w by (simp add: writing_def)
  have neww: "flow_ok w (workflow_tasks s)"
    using rows by (intro flow_ok_new [OF spec]) simp_all
  have old: "flow_ok w' (workflow_tasks s)" if "dict_get (workflows s0) k = Some w'" for k w'
  proof -
    have "wf_id w' = k" "flow_ok w' (workflow_tasks s0)" "issued ''workflow'' s0 k"
      using inv0 fresh0 that by (auto simp: flow_inv_def flows_def fresh_rows_def)
    moreover from this have "wf_id w' \<noteq> wf_id w" using new by auto
    from flow_ok_rows [OF written_old_rows [OF w0 this]]
    have "flow_ok w' (workflow_tasks s) = flow_ok w' (workflow_tasks s0)" by simp
    ultimately show ?thesis by simp
  qed
  define ts0 where "ts0 = workflow_tasks s0"
  define ts where "ts = workflow_tasks s"
  have known: "issued ''workflow_task'' s i \<and> (dict_get ts0 i = Some t
       \<or> wt_id t = i \<and> wt_workflow_id t = wf_id w)" if "dict_get ts i = Some t" for i t
    using w0 that issued_workflows [where p = "''workflow_task''" and s = s]
    unfolding writing_def ts_def ts0_def by auto
  have id0: "wt_id t = i \<and> issued ''workflow'' s0 (wt_workflow_id t)" if "dict_get ts0 i = Some t" for i t
    using inv0 fresh0 that by (auto simp: ts0_def flows_def flow_inv_def fresh_rows_def)
  have ok_ws: "dict_ok (workflows s0)" using inv0 by (simp add: flows_def flow_inv_def)
  have ok_ts: "dict_ok ts" using w0 by (simp add: writing_def ts_def)
  have ids: "wf_id w' = k \<and> flow_ok w' ts" if "dict_get (dict_set (wf_id w) w (workflows s0)) k = Some w'" for k w'
  proof (cases "k = wf_id w")
    case False
    with that have "dict_get (workflows s0) k = Some w'" by simp
    with old [OF this] flow_invD(1) [OF inv0 this] show ?thesis by (simp only: ts_def)
  qed (use that neww in \<open>simp add: ts_def\<close>)
  have task_ids: "wt_id t = i" if "dict_get ts i = Some t" for i t
    using known [OF that] id0 [of i t] by auto
  have "flow_inv (flows s)"
    unfolding flow_inv_def flows_def prod.case ws ts_def [symmetric]
  proof (intro conjI allI impI)
    show "dict_ok (dict_set (wf_id w) w (workflows s0))" by (simp add: ok_ws)
  qed (rule ok_ts, erule task_ids, (drule ids, simp)+)
  moreover have "fresh_rows (issued ''workflow'' s) (issued ''workflow_task'' s) (flows s)"
    unfolding fresh_rows_def flows_def prod.case ws ts_def [symmetric]
  proof (intro conjI allI impI)
    show "issued ''workflow'' s k" if "dict_get (dict_set (wf_id w) w (workflows s0)) k = Some w'" for k w'
    proof (cases "k = wf_id w")
      case False
      with that have "dict_get (workflows s0) k = Some w'" by simp
      with fresh0 show ?thesis by (intro more) (simp add: fresh_rows_def flows_def)
    qed (use iss in simp)
    show "issued ''workflow_task'' s i" if "dict_get ts i = Some t" for i t
      using known [OF that] by (rule conjunct1)
    show "issued ''workflow'' s (wt_workflow_id t)" if "dict_get ts i = Some t" for i t
      using known [OF that] id0 [of i t] more iss by auto
  qed
  ultimately show ?thesis by (simp add: sched_ok_def)
qed

lemma create_workflow_sched:
  assumes ok: "sched_ok s" and "unique_uuids s" and spec: "make_workflow_spec spec = Inr spec"
  shows "sched_ok (snd (create_workflow r spec s))"
proof (cases "find (\<lambda>w. wf_tenant_id w = r_tenant_id r \<and> wf_parent_run_id w = r_id r) (dict_values (workflows s))")
  case (Some w)
  then show ?thesis using ok by (simp add: create_workflow_def get_workflow_for_parent_run_def op_simps)
next
  case None
  define s1 where "s1 = s\<lparr>tick := Suc (tick s)\<rparr>"
  define wid where "wid = ''workflow'' @ ''_'' @ uuid4_hex s1 (tick s1)"
  define w where "w = \<lparr>wf_id = wid, wf_tenant_id = r_tenant_id r, wf_workspace_id = r_workspace_id r,
            wf_parent_run_id = r_id r, wf_parent_thread_id = r_thread_id r,
            wf_user_id = r_user_id r, wf_status = WF_AWAITING_APPROVAL, wf_spec = spec,
            wf_approval_id = None, wf_created_at = clock s (tick s), wf_updated_at = clock s (tick s),
            wf_completed_at = None\<rparr>"
  let ?s0 = "s\<lparr>workflows := dict_set (wf_id w) w (workflows s), tick := Suc (Suc (tick s))\<rparr>"
  have w: "wf_id w = wid" "wf_tenant_id w = r_tenant_id r" "wf_spec w = spec" by (simp_all add: w_def)
  have new: "\<not> issued ''workflow'' s wid"
    using new_id_fresh [of s1 "''workflow''" wid] assms(2) issued_tick [of "''workflow''" s wid "Suc (tick s)"]
    by (auto simp: s1_def wid_def unique_uuids_def)
  have "writing ?s0 (r_tenant_id r) wid {} ?s0"
    using ok by (auto simp: writing_def later_world_def sched_ok_def flow_inv_def fresh_rows_def flows_def
        issued_workflows intro!: issued_tick)
  moreover have "unique_uuids ?s0" using assms(2) by (simp add: unique_uuids_def)
  ultimately obtain us s2 where run: "for_each (ws_phases spec) (\<lambda>p. for_each (ps_tasks p)
       (add_workflow_task r wid (ps_id p) (clock s (tick s)))) ?s0 = (Inr us, s2)"
    and wr: "writing ?s0 (r_tenant_id r) wid (ts_id ` set (concat (map ps_tasks (ws_phases spec)))) s2"
    using writing_phases [of ?s0 ?s0 r wid "{}" "ws_phases spec" "clock s (tick s)"] by auto
  have now: "utc_now s = (Inr (clock s (tick s)), s1)"
    and fresh: "new_id ''workflow'' s1 = (Inr wid, s1\<lparr>tick := Suc (tick s1)\<rparr>)"
    by (simp_all add: utc_now_eval new_id_eval s1_def wid_def)
  have state: "s1\<lparr>tick := Suc (tick s1), workflows := dict_set wid w (workflows s1)\<rparr> = ?s0"
    by (simp add: s1_def w)
  have "create_workflow r spec s = (Inr w, s2)"
    unfolding create_workflow_def get_workflow_for_parent_run_def andThen_apply gets_apply None
      sum.case prod.case option.case now fresh Let_def w_def [symmetric] modify_apply
    using run state by (simp add: op_simps)
  then have "snd (create_workflow r spec s) = s2" by simp
  moreover have "sched_ok s2"
  proof (rule sched_ok_written [OF ok])
    show "\<not> issued ''workflow'' s (wf_id w)" using new w by simp
    have "tick ?s0 \<le> tick s2" "uuid4_hex s2 = uuid4_hex s"
      using wr by (auto simp: writing_def later_world_def)
    then show "issued ''workflow'' s2 (wf_id w)"
      by (auto simp: issued_def w wid_def s1_def intro!: exI [of _ "Suc (tick s)"])
    show "writing ?s0 (wf_tenant_id w) (wf_id w) (ts_id ` set (spec_tasks (wf_spec w))) s2"
      using wr w by (simp add: spec_tasks_def)
  qed (use spec w in simp_all)
  ultimately show ?thesis by simp
qed

section \<open>Edits of the preview\<close>

lemma set_fold_dict: "fst ` set (foldl (\<lambda>d (k, v). dict_set k v d) d kvs) = fst ` set d \<union> fst ` set kvs"
    "dict_ok d \<Longrightarrow> dict_ok (foldl (\<lambda>d (k, v). dict_set k v d) d kvs)"
  by (induction kvs arbitrary: d) (simp_all add: keys_dict_set case_prod_unfold)

lemma task_phases_names: "fst ` set (task_phases spec) = ts_id ` set (spec_tasks spec)"
  "dict_ok (task_phases spec)"
  by (force simp: task_phases_def set_fold_dict spec_tasks_def)+

lemma same_dict_names:
  assumes "same_dict d e" and "dict_ok d" and "dict_ok e"
  shows "fst ` set d = fst ` set e"
proof (rule card_subset_eq)
  show "fst ` set d \<subseteq> fst ` set e"
    using assms(1) by (auto simp: same_dict_def list_all_iff dest!: map_of_SomeD bspec) 
  show "card (fst ` set d) = card (fst ` set e)"
    using assms by (simp add: same_dict_def dict_ok_def distinct_card flip: set_map)
qed simp

lemma edit_preview_cases:
  assumes inv: "flow_inv (flows s)"
  obtains (same) "flows (snd (edit_preview t i spec s)) = flows s"
  | (edited) w n where "dict_get (workflows s) i = Some w" "wf_tenant_id w = t"
      "\<And>j x. row (workflow_tasks s) w j x \<Longrightarrow> wt_status x = WT_PENDING"
      "same_dict (task_phases spec) (task_phases (wf_spec w))"
      "flows (snd (edit_preview t i spec s)) =
        (dict_set i (w\<lparr>wf_spec := spec, wf_updated_at := n\<rparr>) (workflows s), workflow_tasks s)"
proof (cases "get_workflow t i s")
  case (Pair r s1)
  show thesis
  proof (cases r)
    case (Inl e)
    with Pair have "flows (snd (edit_preview t i spec s)) = flows s1" by (simp add: edit_preview_def andThen_apply)
    with keepsD [OF keeps_reads(3)] Pair have "flows (snd (edit_preview t i spec s)) = flows s" by metis
    then show thesis by (rule same)
  next
    case (Inr w)
    with Pair have w: "s1 = s" "dict_get (workflows s) i = Some w" "wf_tenant_id w = t"
      by (auto dest: get_workflow_Inr)
    have id: "wf_id w = i" using flow_invD(1) [OF inv w(2)] .
    obtain ts where l: "list_workflow_tasks t i s = (Inr ts, s)"
      using w Pair Inr by (simp add: list_workflow_tasks_def andThen_apply op_simps)
    show thesis
    proof (cases "wf_status w = WF_AWAITING_APPROVAL \<and> list_all (\<lambda>t. wt_status t = WT_PENDING) ts
        \<and> same_dict (task_phases spec) (task_phases (wf_spec w))")
      case False
      then have "flows (snd (edit_preview t i spec s)) = flows s"
        using Pair Inr w l id
        by (auto simp: edit_preview_def andThen_apply op_simps list_all_iff list_ex_iff)
      then show thesis by (rule same)
    next
      case True
      then have run: "edit_preview t i spec s = update_workflow t i [WC_spec spec] s"
        using Pair Inr w l id
        by (auto simp: edit_preview_def andThen_apply op_simps list_all_iff list_ex_iff)
      have rows: "wt_status x = WT_PENDING" if "row (workflow_tasks s) w j x" for j x
      proof -
        have "wt_id x = j" using flow_invD(3) [OF inv] that by (simp add: row_def)
        then have "x \<in> set ts" using list_workflow_tasks_Inr(3) [OF inv l w(2)] that by simp
        with True show ?thesis by (auto simp: list_all_iff)
      qed
      show thesis
      proof (cases rule: update_workflow_cases [of t i "[WC_spec spec]" s])
        case (fails e s')
        then show thesis using run by (intro same) simp
      next
        case (writes w' n s')
        then show thesis using run w rows True by (intro edited [of w n]) simp_all
      qed
    qed
  qed
qed

lemma later_world_edit: "later_world s (snd (edit_preview t i spec s))"
proof -
  have "preserves (later_world s) (edit_preview t i spec)"
    unfolding edit_preview_def
    by (intro frame_rules clockwork.store_calls)
  then show ?thesis using later_world_refl by (simp add: preserves_def)
qed

lemma edit_preview_sched:
  assumes ok: "sched_ok s" and spec: "make_workflow_spec spec = Inr spec"
  shows "sched_ok (snd (edit_preview t i spec s))"
proof -
  have inv: "flow_inv (flows s)" using ok by (simp add: sched_ok_def)
  let ?s = "snd (edit_preview t i spec s)"
  from inv show ?thesis
  proof (cases rule: edit_preview_cases [where t = t and i = i and spec = spec])
    case same
    show ?thesis
      by (rule sched_ok_later [OF ok _ later_world_edit]) (simp add: same flow_steps_refl)
  next
    case (edited w n)
    let ?w = "w\<lparr>wf_spec := spec, wf_updated_at := n\<rparr>"
    have rows: "row ts ?w = row ts w" for ts by (simp add: row_def fun_eq_iff)
    have w: "wf_id w = i" "flow_ok w (workflow_tasks s)"
      using flow_invD(1,2) [OF inv edited(1)] by simp_all
    have names: "ts_id ` set (spec_tasks spec) = ts_id ` set (spec_tasks (wf_spec w))"
      using same_dict_names [OF edited(4) task_phases_names(2) task_phases_names(2)]
      by (simp add: task_phases_names(1))
    have "flow_ok ?w (workflow_tasks s)"
    proof (rule flow_ok_new)
      show "wt_status x = WT_PENDING \<and> wt_child_run_id x = None"
        if "row (workflow_tasks s) ?w j x" for j x
        using that edited(3) [of j x] w(2) unfolding rows flow_ok_def by blast
      have "{wt_task_id x | j x. row (workflow_tasks s) w j x} = ts_id ` set (spec_tasks (wf_spec w))"
        using w(2) unfolding flow_ok_def by blast
      then show "{wt_task_id x | j x. row (workflow_tasks s) ?w j x} = ts_id ` set (spec_tasks (wf_spec ?w))"
        unfolding rows by (simp add: names)
    qed (use spec in simp)
    then have "flow_inv (dict_set i ?w (workflows s), workflow_tasks s)"
      using inv w(1) unfolding flow_inv_def flows_def by simp
    then have "flow_inv (flows ?s)" by (simp only: edited(5))
    moreover have "fresh_rows (issued ''workflow'' s) (issued ''workflow_task'' s) (flows ?s)"
      unfolding edited(5) using ok edited(1) by (auto simp: sched_ok_def fresh_rows_def flows_def)
    then have "fresh_rows (issued ''workflow'' ?s) (issued ''workflow_task'' ?s) (flows ?s)"
      by (rule fresh_rows_mono)
        (use later_world_edit [of s t i spec] in \<open>auto simp: later_world_def intro: issued_mono\<close>)
    ultimately show ?thesis by (simp add: sched_ok_def)
  qed
qed

section \<open>The invariant holds in every state\<close>

lemma workflow_state_sched:
  assumes "workflow_state env s"
  shows "unique_uuids s \<longrightarrow> sched_ok s"
  using assms
proof (induction rule: workflow_state.induct)
  case (ws_init clk uuids notifier)
  then show ?case
    by (simp add: sched_ok_def flow_inv_def flows_def fresh_rows_def empty_store_def)
next
  case (ws_store s m)
  have op: "store_op m" using ws_store(2) by (auto simp: other_op_def store_op_classes)
  note later = later_world_op [OF op, of s]
  have "flows (snd (m s)) = flows s" using other_op_keeps [OF ws_store(2)] by (simp add: keeps_def)
  then show ?case
    using ws_store.IH later by (auto simp: later_world_def unique_uuids_def flow_steps_refl intro: sched_ok_later)
next
  case (ws_create s spec r)
  have "later_world s (snd (create_workflow r spec s))"
    using later_world_op [of "void (create_workflow r spec)" s] by (simp add: store_ops void_step)
  then show ?case using ws_create create_workflow_sched by (simp add: later_world_def unique_uuids_def)
next
  case (ws_update s changes t w)
  have "later_world s (snd (update_workflow t w changes s))"
    using later_world_op [of "void (update_workflow t w changes)" s] by (simp add: store_ops void_step)
  with ws_update goes_update_workflow [OF ws_update(2), of s t w] show ?case
    by (auto simp: later_world_def unique_uuids_def goes_def intro: sched_ok_later)
next
  case (ws_edit s spec t w)
  then show ?case
    using edit_preview_sched later_world_edit [of s t w spec] by (simp add: later_world_def unique_uuids_def)
next
  case (ws_coordinate s m)
  note later = later_world_coordinator [OF ws_coordinate(2), of s]
  have "flow_steps (flows s) (flows (snd (m s)))" if "sched_ok s"
    by (rule coordinator_goes [OF _ ws_coordinate(2)]) (use that in \<open>simp add: sched_ok_def\<close>)
  then show ?case
    using ws_coordinate.IH later by (auto simp: later_world_def unique_uuids_def intro: sched_ok_later)
qed

section \<open>What the users see\<close>

text \<open>A workflow and the list of its tasks, as the store's readers answer them.\<close>

definition workflow_view :: "store \<Rightarrow> string \<Rightarrow> string \<Rightarrow> workflow_run \<Rightarrow> workflow_task list \<Rightarrow> bool" where
  "workflow_view s t i w ts \<longleftrightarrow>
     get_workflow t i s = (Inr w, s) \<and> list_workflow_tasks t i s = (Inr ts, s)"

lemma workflow_viewD:
  assumes inv: "flow_inv (flows s)" and view: "workflow_view s t i w ts"
  shows "flow_ok w (workflow_tasks s)"
    and "x \<in> set ts \<longleftrightarrow> row (workflow_tasks s) w (wt_id x) x"
    and "row (workflow_tasks s) w j x \<longleftrightarrow> x \<in> set ts \<and> j = wt_id x"
    and "active_count ts = int (card (active_ids (workflow_tasks s) w))"
    and "set (map wt_task_id (filter (\<lambda>t. wt_status t = WT_SUCCEEDED) ts)) = done_ids (workflow_tasks s) w"
proof -
  have w: "dict_get (workflows s) i = Some w"
    using view by (auto simp: workflow_view_def dest: get_workflow_Inr)
  have l: "list_workflow_tasks t i s = (Inr ts, s)" using view by (simp add: workflow_view_def)
  note ts = list_workflow_tasks_Inr(2,3) [OF inv l]
  have mem: "x \<in> set ts \<longleftrightarrow> row (workflow_tasks s) w (wt_id x) x" for x by (rule ts(2) [OF w])
  have keyed: "row (workflow_tasks s) w j x \<Longrightarrow> wt_id x = j" for j x
    using flow_invD(3) [OF inv] by (simp add: row_def)
  show "flow_ok w (workflow_tasks s)" by (rule flow_invD(2) [OF inv w])
  show "x \<in> set ts \<longleftrightarrow> row (workflow_tasks s) w (wt_id x) x" by (rule mem)
  show "row (workflow_tasks s) w j x \<longleftrightarrow> x \<in> set ts \<and> j = wt_id x"
    using mem keyed by blast
  show "active_count ts = int (card (active_ids (workflow_tasks s) w))"
    by (rule active_count_eq [OF ts(1) mem keyed])
  show "set (map wt_task_id (filter (\<lambda>t. wt_status t = WT_SUCCEEDED) ts)) = done_ids (workflow_tasks s) w"
    by (rule done_ids_eq [OF mem keyed])
qed

lemma workflow_state_inv: "workflow_state env s \<Longrightarrow> unique_uuids s \<Longrightarrow> flow_inv (flows s)"
  using workflow_state_sched by (simp add: sched_ok_def)

lemma flow_view_witness:
  obtains w ta tb where "workflow_view (flow_store 2) ''t1'' flow_id w [ta, tb]" "wf_spec w = flow_spec"
    "wf_status w = WF_RUNNING" "wt_task_id ta = ''a''" "wt_status ta = WT_PENDING"
    "wt_task_id tb = ''b''" "wt_status tb = WT_PENDING"
proof -
  obtain w s1 where w: "get_workflow ''t1'' flow_id (flow_store 2) = (Inr w, s1)"
    "wf_spec w = flow_spec" "wf_status w = WF_RUNNING"
    using flow_facts by (cases "get_workflow ''t1'' flow_id (flow_store 2)")
      (auto simp: flow_view_def split: sum.splits)
  obtain ts s2 where ts: "list_workflow_tasks ''t1'' flow_id (flow_store 2) = (Inr ts, s2)"
    "map (\<lambda>t. (wt_task_id t, wt_status t)) ts = [(''a'', WT_PENDING), (''b'', WT_PENDING)]"
    using flow_facts by (cases "list_workflow_tasks ''t1'' flow_id (flow_store 2)")
      (auto simp: flow_view_def split: sum.splits)
  obtain ta tb where "ts = [ta, tb]" using ts(2) by (auto simp: map_eq_Cons_conv)
  moreover have "s1 = flow_store 2" using w(1) by (auto dest: get_workflow_Inr)
  moreover have "s2 = flow_store 2"
    by (rule list_workflow_tasks_Inr(1) [OF workflow_state_inv [OF flow_store_2 flow_store_uuids] ts(1)])
  ultimately show thesis using w ts by (intro that [of w ta tb]) (simp_all add: workflow_view_def)
qed





text \<open>C13: A running workflow does not stall. Whenever no task is active, some task is pending
  and none was stopped (failed, cancelled or blocked), there is a free slot and the scheduler's
  selection finds a task to start: the dependencies of a stored workflow never form a cycle.\<close>

theorem some_task_is_ready:
  assumes "workflow_state env s" and "unique_uuids s" and "workflow_view s t i w ts"
    and "\<forall>x \<in> set ts. wt_status x \<in> {WT_PENDING, WT_SUCCEEDED}"
    and "x \<in> set ts" and "wt_status x = WT_PENDING"
  shows "max 0 (ws_max_concurrency (wf_spec w) - active_count ts) \<ge> 1
    \<and> (\<exists>r rs. ready_tasks (wf_spec w)
         (set (map wt_task_id (filter (\<lambda>t. wt_status t = WT_SUCCEEDED) ts))) ts = Inr (r # rs))"
proof -
  let ?rows = "workflow_tasks s"
  note inv = workflow_state_inv [OF assms(1,2)]
  note view = workflow_viewD [OF inv assms(3)]
  have wf: "well_formed_workflow (wf_spec w)" and conc: "1 \<le> ws_max_concurrency (wf_spec w)"
    and names: "wt_task_id ` set ts = ts_id ` set (spec_tasks (wf_spec w))"
    using view(1,3) by (auto simp: flow_ok_def)
  have "active_count ts = 0" using assms(4) by (auto simp: active_count_def filter_empty_conv)
  with conc have slots: "max 0 (ws_max_concurrency (wf_spec w) - active_count ts) \<ge> 1" by simp
  let ?open = "wt_task_id ` {y \<in> set ts. wt_status y = WT_PENDING}"
  obtain y where y: "y \<in> set ts" "wt_status y = WT_PENDING"
    and first: "\<And>d. (wt_task_id y, d) \<in> depends (wf_spec w) \<Longrightarrow> d \<notin> ?open"
    using well_formed_minimal [OF wf, of ?open] assms(5,6) by blast
  obtain sp where sp: "sp \<in> set (spec_tasks (wf_spec w))" "ts_id sp = wt_task_id y"
    using names y(1) by (metis imageE imageI)
  have "set (ts_depends_on sp) \<subseteq> done_ids ?rows w"
  proof
    fix d assume d: "d \<in> set (ts_depends_on sp)"
    then have "(wt_task_id y, d) \<in> depends (wf_spec w)" 
      unfolding depends_def using sp(1) sp(2) [symmetric] by blast
    moreover have "d \<in> wt_task_id ` set ts"
      using wf sp d unfolding names well_formed_workflow_def by blast
    ultimately obtain z where "z \<in> set ts" "wt_task_id z = d" "wt_status z \<noteq> WT_PENDING"
      using first by blast
    with assms(4) show "d \<in> done_ids ?rows w" unfolding view(5) [symmetric] by force
  qed
  then have start: "startable (wf_spec w) (done_ids ?rows w) y"
    using y sp spec_task_iff [OF wf] by (auto simp: startable_def)
  have found: "\<exists>r. ready_tasks (wf_spec w) D us = Inr r" if "set us \<subseteq> set ts" for D us
    using that
  proof (induction us)
    case (Cons u us)
    have "wt_task_id u \<in> ts_id ` set (spec_tasks (wf_spec w))" using Cons.prems names by auto
    then obtain sp where "spec_task (wf_spec w) (wt_task_id u) = Inr sp"
      using spec_task_iff [OF wf] by force
    with Cons show ?case by auto
  qed simp
  then obtain rs where rs: "ready_tasks (wf_spec w) (done_ids ?rows w) ts = Inr rs" by blast
  then have "y \<in> set rs" using ready_tasks_filter [OF rs] y(1) start by simp
  then obtain r rs' where "rs = r # rs'" by (cases rs) auto
  with rs slots show ?thesis unfolding view(5) by blast
qed

theorem some_task_is_ready_witness:
  "\<exists>w ts r rs. workflow_view (flow_store 2) ''t1'' flow_id w ts
     \<and> ready_tasks (wf_spec w) (set (map wt_task_id (filter (\<lambda>t. wt_status t = WT_SUCCEEDED) ts))) ts
       = Inr (r # rs)"
proof -
  obtain w ta tb where v: "workflow_view (flow_store 2) ''t1'' flow_id w [ta, tb]"
    and f: "wt_status ta = WT_PENDING" "wt_status tb = WT_PENDING"
    using flow_view_witness by metis
  have "\<exists>r rs. ready_tasks (wf_spec w) (set (map wt_task_id (filter (\<lambda>t. wt_status t = WT_SUCCEEDED) [ta, tb])))
      [ta, tb] = Inr (r # rs)"
    using some_task_is_ready [OF flow_store_2 flow_store_uuids v, of ta] f by (simp del: ready_tasks.simps)
  with v show ?thesis by blast
qed

text \<open>C14: The coordinator implements the scheduler. From every state a deployment reaches, every
  operation of the coordinator, on any branch and also when it raises, moves the rows of the
  workflows and their tasks by steps of the abstract scheduler: start a ready task in a free
  slot, begin, finish, stop or retry a task, or change a workflow outside its specification.\<close>

theorem coordinator_refines_scheduler:
  assumes "workflow_state env s" and "unique_uuids s" and "coordinator_op env m"
  shows "flow_steps (flows s) (flows (snd (m s)))"
  by (rule coordinator_goes [OF workflow_state_inv [OF assms(1,2)] assms(3)])

theorem coordinator_refines_scheduler_witness:
  "flow_steps (flows (flow_store 2))
     (flows (snd (void (ready_runs flow_env ''t1'' flow_id) (flow_store 2))))"
  by (rule coordinator_refines_scheduler [OF flow_store_2 flow_store_uuids co_ready])

text \<open>Rows of workflows stay, and so do successes.\<close>

lemma flow_step_flow:
  assumes "flow_step f f'" and "dict_get (fst f) k = Some w"
  shows "\<exists>w'. dict_get (fst f') k = Some w' \<and> same_flow w w'"
  using assms by (cases rule: flow_step.cases) (auto simp: same_flow_def)

lemma flow_steps_flow:
  assumes "flow_steps f f'" and "dict_get (fst f) k = Some w"
  shows "\<exists>w'. dict_get (fst f') k = Some w' \<and> same_flow w w'"
  using assms unfolding flow_steps_def
proof (induction rule: rtranclp.induct)
  case (rtrancl_refl f)
  then show ?case by (simp add: same_flow_def)
next
  case (rtrancl_into_rtrancl f g h)
  then obtain w' where w': "dict_get (fst g) k = Some w'" "same_flow w w'" by blast
  from flow_step_flow [OF rtrancl_into_rtrancl(2) w'(1)] w'(2) show ?case
    by (auto simp: same_flow_def)
qed

lemma flow_step_done:
  assumes "flow_step f f'" and "dict_get (snd f) i = Some t" and "wt_status t = WT_SUCCEEDED"
  shows "\<exists>t'. dict_get (snd f') i = Some t' \<and> same_task t t' \<and> wt_status t' = WT_SUCCEEDED"
  using assms by (cases rule: flow_step.cases) (auto simp: same_task_def row_def)

lemma flow_steps_done:
  assumes "flow_steps f f'" and "dict_get (snd f) i = Some t" and "wt_status t = WT_SUCCEEDED"
  shows "\<exists>t'. dict_get (snd f') i = Some t' \<and> same_task t t' \<and> wt_status t' = WT_SUCCEEDED"
  using assms unfolding flow_steps_def
proof (induction rule: rtranclp.induct)
  case (rtrancl_refl f)
  then show ?case by (simp add: same_task_def)
next
  case (rtrancl_into_rtrancl f g h)
  then obtain t' where t': "dict_get (snd g) i = Some t'" "same_task t t'" "wt_status t' = WT_SUCCEEDED"
    by blast
  from flow_step_done [OF rtrancl_into_rtrancl(2) t'(1,3)] t'(2) show ?case
    by (auto simp: same_task_def)
qed

lemma view_after:
  assumes "flow_inv (flows s)" and "flow_steps (flows s) (flows s')" and "workflow_view s t i w ts"
  obtains w' ts' where "workflow_view s' t i w' ts'" "same_flow w w'"
proof -
  have "dict_get (fst (flows s)) i = Some w" "wf_tenant_id w = t"
    using assms(3) by (auto simp: workflow_view_def flows_def dest: get_workflow_Inr)
  with flow_steps_flow [OF assms(2)] obtain w' where w': "dict_get (workflows s') i = Some w'"
    "same_flow w w'" "wf_tenant_id w' = t"
    by (fastforce simp: flows_def same_flow_def)
  then have "get_workflow t i s' = (Inr w', s')" by (simp add: get_workflow_def op_simps)
  then show thesis
    using w'(2) by (intro that) (simp_all add: workflow_view_def list_workflow_tasks_def andThen_apply gets_apply)
qed

text \<open>Finished work is kept. No operation of the coordinator, on any branch, undoes a success:
  after it the workflow is still listed, and every task listed as succeeded before it is listed
  as succeeded after it.\<close>

theorem succeeded_tasks_stay:
  assumes "workflow_state env s" and "unique_uuids s" and "coordinator_op env m"
    and "workflow_view s t i w ts"
  shows "\<exists>w' ts'. workflow_view (snd (m s)) t i w' ts' \<and> wf_spec w' = wf_spec w
    \<and> wt_task_id ` {x \<in> set ts. wt_status x = WT_SUCCEEDED}
      \<subseteq> wt_task_id ` {x \<in> set ts'. wt_status x = WT_SUCCEEDED}"
proof -
  note inv = workflow_state_inv [OF assms(1,2)]
  note steps = coordinator_goes [OF inv assms(3)]
  note inv' = flow_inv_steps [OF steps inv]
  obtain w' ts' where view: "workflow_view (snd (m s)) t i w' ts'" and same: "same_flow w w'"
    using view_after [OF inv steps assms(4)] by metis
  note before = workflow_viewD [OF inv assms(4)]
  note later = workflow_viewD [OF inv' view]
  have "d \<in> wt_task_id ` {x \<in> set ts'. wt_status x = WT_SUCCEEDED}"
    if "x \<in> set ts" "wt_status x = WT_SUCCEEDED" "d = wt_task_id x" for d x
  proof -
    have r: "row (workflow_tasks s) w (wt_id x) x" using that before(2) by simp
    then have "dict_get (snd (flows s)) (wt_id x) = Some x" by (simp add: row_def flows_def)
    from flow_steps_done [OF steps this that(2)] obtain y where y:
      "dict_get (workflow_tasks (snd (m s))) (wt_id x) = Some y" "same_task x y" "wt_status y = WT_SUCCEEDED"
      by (auto simp: flows_def)
    with r same have "row (workflow_tasks (snd (m s))) w' (wt_id x) y"
      by (simp add: row_def same_task_def same_flow_def)
    then have "y \<in> set ts'" using later(3) by blast
    moreover have "d = wt_task_id y" using y(2) that(3) by (simp add: same_task_def)
    ultimately show ?thesis using y(3) by blast
  qed
  then have "wt_task_id ` {x \<in> set ts. wt_status x = WT_SUCCEEDED}
      \<subseteq> wt_task_id ` {x \<in> set ts'. wt_status x = WT_SUCCEEDED}" by blast
  with view same show ?thesis unfolding same_flow_def by blast
qed

theorem succeeded_tasks_stay_witness:
  "\<exists>w' ts'. workflow_view (snd (void (ready_runs flow_env ''t1'' flow_id) (flow_store 2)))
     ''t1'' flow_id w' ts'"
  by (rule flow_view_witness, drule succeeded_tasks_stay [OF flow_store_2 flow_store_uuids co_ready], blast)

text \<open>The coordinator works through the store. Every operation of it is a sequence of
  operations of the store, so it leads from reachable states of the store to reachable ones:
  what holds in all of them (the event logs, the ownership of rows, the leases) survives it.\<close>

theorem coordinator_keeps_reachable:
  assumes "coordinator_op env m" and "reachable s"
  shows "reachable (snd (m s))"
  using coordinator_store_steps [OF assms(1)] assms(2) by (rule store_steps_reachable)

theorem coordinator_keeps_reachable_witness:
  "reachable (snd (void (pause ''t1'' ''w1'') (demo_store 3)))"
  by (rule coordinator_keeps_reachable [OF co_pause demo_store_reachable])

end
