(* ===== verification/Idempotency.thy ===== *)
theory Idempotency
  imports StoreOps
begin

text \<open>
  \<^verbatim>\<open>taroai/api/idempotency.py\<close> and \<open>ChatService.execute_idempotently\<close> of
  \<^verbatim>\<open>chat/service.py\<close>: a request with an idempotency key reserves a record in the store, runs
  its operation, and saves the response, which later requests with the same key replay. Two
  views: the function as one caller runs it, and the protocol of any number of callers in any
  number of processes, whose store operations interleave. SHA-256 is a parameter.
\<close>

section \<open>Requests\<close>

record idempotency_request =
  iq_tenant_id :: string
  iq_key :: string
  iq_method :: string
  iq_path :: string
  iq_request_hash :: string

definition normalize_idempotency_key :: "string option \<Rightarrow> string option" where
  "normalize_idempotency_key value =
     (case value of
        None \<Rightarrow> None
      | Some v \<Rightarrow> if py_strip v = [] then None else Some (py_strip v))"

text \<open>\<open>sort_keys=True\<close>.\<close>

fun sort_json :: "json \<Rightarrow> json" where
  "sort_json (JArr xs) = JArr (map sort_json xs)"
| "sort_json (JObj kvs) = JObj (sort_key fst (map (\<lambda>kv. (fst kv, sort_json (snd kv))) kvs))"
| "sort_json v = v"

definition canonical_request_hash ::
  "(string \<Rightarrow> string) \<Rightarrow> (rat \<Rightarrow> string) \<Rightarrow> json \<Rightarrow> string" where
  "canonical_request_hash sha256 show_float payload =
     sha256 (json_dumps show_float True '','' '':'' (sort_json payload))"

definition build_idempotency_request ::
  "(string \<Rightarrow> string) \<Rightarrow> (rat \<Rightarrow> string) \<Rightarrow> string \<Rightarrow> string option \<Rightarrow> string \<Rightarrow> string \<Rightarrow> json
   \<Rightarrow> error + idempotency_request option" where
  "build_idempotency_request sha256 show_float tenant_id key method path payload =
     (case normalize_idempotency_key key of
        None \<Rightarrow> Inr None
      | Some k \<Rightarrow>
          let h = canonical_request_hash sha256 show_float payload in
          if tenant_id = [] \<or> method = [] \<or> path = [] \<or> h = []
          then Inl (ValidationError ''IdempotencyRequest'')
          else Inr (Some \<lparr>iq_tenant_id = tenant_id, iq_key = k, iq_method = method,
            iq_path = path, iq_request_hash = h\<rparr>))"

definition request_record_key :: "idempotency_request \<Rightarrow> string" where
  "request_record_key q = idempotency_record_key (iq_tenant_id q) (iq_key q) (iq_method q) (iq_path q)"

definition require_matching_idempotency_record ::
  "idempotency_record \<Rightarrow> idempotency_request \<Rightarrow> error + idempotency_record" where
  "require_matching_idempotency_record r q =
     (if ir_request_hash r \<noteq> iq_request_hash q
      then Inl (IdempotencyConflictError ''Idempotency-Key reused with a different request body'')
      else Inr r)"

definition find_idempotent_replay ::
  "idempotency_request option \<Rightarrow> (store, idempotency_record option) op" where
  "find_idempotent_replay request =
     (case request of
        None \<Rightarrow> ret None
      | Some q \<Rightarrow>
          andThen (get_idempotency_record (iq_tenant_id q) (iq_key q) (iq_method q) (iq_path q)) (\<lambda>found.
          case found of
            None \<Rightarrow> ret None
          | Some r \<Rightarrow>
              (case require_matching_idempotency_record r q of
                 Inl e \<Rightarrow> raise e
               | Inr r' \<Rightarrow> ret (Some r'))))"

definition build_idempotency_record ::
  "idempotency_request \<Rightarrow> int \<Rightarrow> json_obj \<Rightarrow> (store, idempotency_record) op" where
  "build_idempotency_record q status_code response_body =
     andThen utc_now (\<lambda>now.
     ret \<lparr>ir_tenant_id = iq_tenant_id q, ir_key = iq_key q, ir_method = iq_method q,
       ir_path = iq_path q, ir_request_hash = iq_request_hash q, ir_status_code = status_code,
       ir_response_body = response_body, ir_created_at = now\<rparr>)"

definition save_idempotent_response ::
  "idempotency_request option \<Rightarrow> int \<Rightarrow> json_obj \<Rightarrow> (store, unit) op" where
  "save_idempotent_response request status_code response_body =
     (case request of
        None \<Rightarrow> ret ()
      | Some q \<Rightarrow>
          andThen (build_idempotency_record q status_code response_body) (\<lambda>r.
          void (save_idempotency_record r)))"

section \<open>One caller\<close>

definition pending_marker :: string where
  "pending_marker = ''_taroai_idempotency_pending''"

definition pending_body :: json_obj where
  "pending_body = [(pending_marker, JBool True)]"

definition is_pending :: "json_obj \<Rightarrow> bool" where
  "is_pending response_body \<longleftrightarrow> payload_get response_body pending_marker = JBool True"

text \<open>The reservation of another caller may be taken over after 30 seconds.\<close>

definition reservation_ttl :: int where "reservation_ttl = 30 * 1000000"

text \<open>Polling until the deadline: how many polls fit into the five seconds is up to the clock,
  hence an argument.\<close>

definition still_in_progress :: error where
  "still_in_progress = IdempotencyConflictError ''Idempotent request is still in progress''"

fun wait_for_idempotent_completion ::
  "nat \<Rightarrow> idempotency_request \<Rightarrow> (store, idempotency_record) op" where
  "wait_for_idempotent_completion 0 q = raise still_in_progress"
| "wait_for_idempotent_completion (Suc polls) q =
     andThen (find_idempotent_replay (Some q)) (\<lambda>replay.
     case replay of
       None \<Rightarrow> wait_for_idempotent_completion polls q
     | Some r \<Rightarrow>
         if is_pending (ir_response_body r) then wait_for_idempotent_completion polls q
         else ret r)"

definition delete_reservation :: "idempotency_request \<Rightarrow> (store, unit) op" where
  "delete_reservation q =
     delete_idempotency_record (iq_tenant_id q) (iq_key q) (iq_method q) (iq_path q) (iq_request_hash q)"

text \<open>\<open>try: result = operation() except Exception: ...; raise\<close>, then the save.\<close>

definition run_reserved ::
  "idempotency_request \<Rightarrow> (store, json_obj) op \<Rightarrow> (store, int \<times> json_obj) op" where
  "run_reserved q operation =
     (\<lambda>s. case operation s of
        (Inl e, s') \<Rightarrow> andThen (delete_reservation q) (\<lambda>_. raise e) s'
      | (Inr body, s') \<Rightarrow>
          andThen (save_idempotent_response (Some q) 202 body) (\<lambda>_. ret (202, body)) s')"

definition execute_idempotently ::
  "nat \<Rightarrow> idempotency_request option \<Rightarrow> (store, json_obj) op \<Rightarrow> (store, int \<times> json_obj) op" where
  "execute_idempotently polls request operation =
     (case request of
        None \<Rightarrow> andThen operation (\<lambda>body. ret (202, body))
      | Some q \<Rightarrow>
          andThen (find_idempotent_replay request) (\<lambda>replay.
          case replay of
            None \<Rightarrow>
              andThen (build_idempotency_record q 102 pending_body) (\<lambda>reservation.
              andThen (reserve_idempotency_record reservation) (\<lambda>reserved.
              if reserved then run_reserved q operation
              else andThen (wait_for_idempotent_completion polls q) (\<lambda>r.
                ret (ir_status_code r, ir_response_body r))))
          | Some r \<Rightarrow>
              if \<not> is_pending (ir_response_body r) then ret (ir_status_code r, ir_response_body r)
              else
                andThen (build_idempotency_record q 102 pending_body) (\<lambda>replacement.
                andThen utc_now (\<lambda>now.
                andThen (reclaim_stale_idempotency_record replacement (now - reservation_ttl)) (\<lambda>reclaimed.
                if reclaimed then run_reserved q operation
                else andThen (wait_for_idempotent_completion polls q) (\<lambda>r.
                  ret (ir_status_code r, ir_response_body r)))))))"

section \<open>Any number of callers\<close>

text \<open>Where a caller stands between two accesses to the store. The lock that
  \<open>execute_idempotently\<close> holds is one of its process, so callers of different processes
  interleave here; leaving the lock out allows every interleaving of callers.\<close>

datatype idem_pc =
    IP_find
  | IP_reserve idempotency_record
  | IP_reclaim idempotency_record datetime
  | IP_wait
  | IP_operate
  | IP_save json_obj
  | IP_delete error
  | IP_saved json_obj
  | IP_return int json_obj
  | IP_raise error

definition catching :: "(store, idem_pc) op \<Rightarrow> (store, idem_pc) op" where
  "catching m = (\<lambda>s. case m s of (Inl e, s') \<Rightarrow> (Inr (IP_raise e), s') | (Inr pc, s') \<Rightarrow> (Inr pc, s'))"

definition replay_or :: "idempotency_record option \<Rightarrow> (store, idem_pc) op \<Rightarrow> (idempotency_record \<Rightarrow> (store, idem_pc) op)
    \<Rightarrow> (store, idem_pc) op" where
  "replay_or replay absent pend =
     (case replay of
        None \<Rightarrow> absent
      | Some r \<Rightarrow>
          if is_pending (ir_response_body r) then pend r
          else ret (IP_return (ir_status_code r) (ir_response_body r)))"

fun idem_step :: "idempotency_request \<Rightarrow> idem_pc \<Rightarrow> (store, idem_pc) op" where
  "idem_step q IP_find = catching
     (andThen (find_idempotent_replay (Some q)) (\<lambda>replay.
      replay_or replay
        (andThen (build_idempotency_record q 102 pending_body) (\<lambda>r. ret (IP_reserve r)))
        (\<lambda>_. andThen (build_idempotency_record q 102 pending_body) (\<lambda>r.
           andThen utc_now (\<lambda>now. ret (IP_reclaim r (now - reservation_ttl)))))))"
| "idem_step q (IP_reserve r) =
     andThen (reserve_idempotency_record r) (\<lambda>ok. ret (if ok then IP_operate else IP_wait))"
| "idem_step q (IP_reclaim r stale_before) =
     andThen (reclaim_stale_idempotency_record r stale_before) (\<lambda>ok.
     ret (if ok then IP_operate else IP_wait))"
| "idem_step q IP_wait = catching
     (andThen (find_idempotent_replay (Some q)) (\<lambda>replay.
      replay_or replay (ret IP_wait) (\<lambda>_. ret IP_wait)))"
| "idem_step q (IP_save body) =
     andThen (save_idempotent_response (Some q) 202 body) (\<lambda>_. ret (IP_saved body))"
| "idem_step q (IP_delete e) = andThen (delete_reservation q) (\<lambda>_. ret (IP_raise e))"
| "idem_step q pc = ret pc"

text \<open>The callers with requests of one record key \<open>k\<close>, and the number of reservations that were
  taken over. The operation of a caller, and everything else in the system, is a store operation
  that leaves the record alone.\<close>

record idem_world =
  iw_store :: store
  iw_calls :: "(idempotency_request \<times> idem_pc) list"
  iw_reclaims :: nat

definition quiet :: "string \<Rightarrow> store \<Rightarrow> store \<Rightarrow> bool" where
  "quiet k s s' \<longleftrightarrow> dict_get (idempotency_records s') k = dict_get (idempotency_records s) k"

definition set_call :: "nat \<Rightarrow> idempotency_request \<Rightarrow> idem_pc \<Rightarrow> store \<Rightarrow> idem_world \<Rightarrow> idem_world" where
  "set_call i q pc s w = w\<lparr>iw_store := s, iw_calls := (iw_calls w)[i := (q, pc)]\<rparr>"

definition takes_over :: "idem_pc \<Rightarrow> idem_pc \<Rightarrow> bool" where
  "takes_over pc pc' \<longleftrightarrow> (case pc of IP_reclaim _ _ \<Rightarrow> pc' = IP_operate | _ \<Rightarrow> False)"

inductive idem_world_step :: "string \<Rightarrow> idem_world \<Rightarrow> idem_world \<Rightarrow> bool" for k where
  iw_call: "request_record_key q = k \<Longrightarrow>
    idem_world_step k w (w\<lparr>iw_calls := iw_calls w @ [(q, IP_find)]\<rparr>)"
| iw_move: "i < length (iw_calls w) \<Longrightarrow> iw_calls w ! i = (q, pc) \<Longrightarrow>
    idem_step q pc (iw_store w) = (Inr pc', s') \<Longrightarrow> \<not> takes_over pc pc' \<Longrightarrow>
    idem_world_step k w (set_call i q pc' s' w)"
| iw_take_over: "i < length (iw_calls w) \<Longrightarrow> iw_calls w ! i = (q, pc) \<Longrightarrow>
    idem_step q pc (iw_store w) = (Inr pc', s') \<Longrightarrow> takes_over pc pc' \<Longrightarrow>
    idem_world_step k w ((set_call i q pc' s' w)\<lparr>iw_reclaims := Suc (iw_reclaims w)\<rparr>)"
| iw_timeout: "i < length (iw_calls w) \<Longrightarrow> iw_calls w ! i = (q, IP_wait) \<Longrightarrow>
    idem_world_step k w (set_call i q (IP_raise still_in_progress) (iw_store w) w)"
| iw_success: "i < length (iw_calls w) \<Longrightarrow> iw_calls w ! i = (q, IP_operate) \<Longrightarrow>
    quiet k (iw_store w) s' \<Longrightarrow> \<not> is_pending body \<Longrightarrow>
    idem_world_step k w (set_call i q (IP_save body) s' w)"
| iw_failure: "i < length (iw_calls w) \<Longrightarrow> iw_calls w ! i = (q, IP_operate) \<Longrightarrow>
    quiet k (iw_store w) s' \<Longrightarrow>
    idem_world_step k w (set_call i q (IP_delete e) s' w)"
| iw_other: "quiet k (iw_store w) s' \<Longrightarrow> idem_world_step k w (w\<lparr>iw_store := s'\<rparr>)"

inductive idem_reach :: "string \<Rightarrow> idem_world \<Rightarrow> bool" for k where
  ir_start: "idem_reach k \<lparr>iw_store = s, iw_calls = [], iw_reclaims = 0\<rparr>"
| ir_step: "idem_reach k w \<Longrightarrow> idem_world_step k w w' \<Longrightarrow> idem_reach k w'"

definition executes :: "idem_pc \<Rightarrow> bool" where
  "executes pc \<longleftrightarrow> (case pc of IP_operate \<Rightarrow> True | IP_save _ \<Rightarrow> True | IP_delete _ \<Rightarrow> True
     | IP_saved _ \<Rightarrow> True | _ \<Rightarrow> False)"

definition executions :: "idem_world \<Rightarrow> nat" where
  "executions w = length (filter (executes \<circ> snd) (iw_calls w))"

definition own_record :: "string \<Rightarrow> idem_pc \<Rightarrow> bool" where
  "own_record k pc \<longleftrightarrow> (case pc of
     IP_reserve r \<Rightarrow> record_key_of r = k \<and> ir_response_body r = pending_body
   | IP_reclaim r _ \<Rightarrow> record_key_of r = k \<and> ir_response_body r = pending_body
   | IP_save b \<Rightarrow> \<not> is_pending b | _ \<Rightarrow> True)"

definition record_at :: "string \<Rightarrow> idem_world \<Rightarrow> idempotency_record option" where
  "record_at k w = dict_get (idempotency_records (iw_store w)) k"

definition idem_inv :: "string \<Rightarrow> idem_world \<Rightarrow> bool" where
  "idem_inv k w \<longleftrightarrow> (\<forall>(q, pc) \<in> set (iw_calls w). request_record_key q = k \<and> own_record k pc)
     \<and> executions w \<le> iw_reclaims w + (if record_at k w = None then 0 else 1)"

section \<open>What one step does\<close>

abbreviation record_of :: "string \<Rightarrow> store \<Rightarrow> idempotency_record option" where
  "record_of k s \<equiv> dict_get (idempotency_records s) k"

lemma find_idempotent_replay_eval:
  "find_idempotent_replay (Some q) s =
     (case record_of (request_record_key q) s of
        None \<Rightarrow> (Inr None, s)
      | Some r \<Rightarrow>
          (if ir_request_hash r \<noteq> iq_request_hash q
           then (Inl (IdempotencyConflictError ''Idempotency-Key reused with a different request body''), s)
           else (Inr (Some r), s)))"
  by (auto simp: find_idempotent_replay_def get_idempotency_record_def request_record_key_def
      require_matching_idempotency_record_def op_simps split: option.split)

lemma build_record_eval:
  "build_idempotency_record q c b s =
     (Inr \<lparr>ir_tenant_id = iq_tenant_id q, ir_key = iq_key q, ir_method = iq_method q,
        ir_path = iq_path q, ir_request_hash = iq_request_hash q, ir_status_code = c,
        ir_response_body = b, ir_created_at = clock s (tick s)\<rparr>, s\<lparr>tick := Suc (tick s)\<rparr>)"
  by (simp add: build_idempotency_record_def op_simps utc_now_eval)

lemma step_find:
  assumes "idem_step q IP_find s = (Inr pc', s')" and "request_record_key q = k"
  shows "quiet k s s'" and "\<not> executes pc'" and "own_record k pc'"
    and "pc' = IP_return c b \<Longrightarrow> \<exists>r. record_of k s = Some r \<and> ir_status_code r = c
      \<and> ir_response_body r = b \<and> \<not> is_pending b"
  using assms
  by (auto simp: catching_def find_idempotent_replay_eval replay_or_def build_record_eval op_simps
      utc_now_eval quiet_def executes_def own_record_def record_key_of_def request_record_key_def
      split: option.splits if_splits)

lemma step_wait:
  assumes "idem_step q IP_wait s = (Inr pc', s')" and "request_record_key q = k"
  shows "quiet k s s'" and "\<not> executes pc'" and "own_record k pc'"
    and "pc' = IP_return c b \<Longrightarrow> \<exists>r. record_of k s = Some r \<and> ir_status_code r = c
      \<and> ir_response_body r = b \<and> \<not> is_pending b"
  using assms
  by (auto simp: catching_def find_idempotent_replay_eval replay_or_def op_simps
      quiet_def executes_def own_record_def split: option.splits if_splits)

lemma step_reserve:
  assumes "idem_step q (IP_reserve r) s = (Inr pc', s')" and "record_key_of r = k"
  obtains "pc' = IP_operate" "record_of k s = None" "record_of k s' = Some r"
  | "pc' = IP_wait" "s' = s"
  using assms by (auto simp: reserve_idempotency_record_def put_idempotency_record_def op_simps
      split: if_splits)

lemma step_reclaim:
  assumes "idem_step q (IP_reclaim r d) s = (Inr pc', s')" and "record_key_of r = k"
  obtains "pc' = IP_operate" "record_of k s \<noteq> None" "record_of k s' = Some r"
  | "pc' = IP_wait" "s' = s"
  using assms by (auto simp: reclaim_stale_idempotency_record_def put_idempotency_record_def op_simps
      split: if_splits option.splits)

lemma step_save:
  assumes "idem_step q (IP_save b) s = (Inr pc', s')" and "request_record_key q = k"
  shows "pc' = IP_saved b \<and> (\<exists>r. record_of k s' = Some r \<and> ir_status_code r = 202 \<and> ir_response_body r = b)"
  using assms
  by (auto simp: save_idempotent_response_def build_record_eval save_idempotency_record_def
      put_idempotency_record_def record_key_of_def request_record_key_def op_simps)

lemma step_delete:
  assumes "idem_step q (IP_delete e) s = (Inr pc', s')" and "request_record_key q = k"
  shows "pc' = IP_raise e \<and> record_of k s' \<in> {None, record_of k s}"
  using assms
  by (auto simp: delete_reservation_def delete_idempotency_record_def request_record_key_def
      op_simps split: option.splits if_splits)

lemma step_rest:
  assumes "idem_step q pc s = (Inr pc', s')" and "pc = IP_operate \<or> pc = IP_saved b
    \<or> pc = IP_return c b \<or> pc = IP_raise e"
  shows "pc' = pc \<and> s' = s"
  using assms by (auto simp: op_simps)

text \<open>Together: how a step changes the record, by the kind of its program counter.\<close>

lemma idem_step_cases:
  assumes "idem_step q pc s = (Inr pc', s')" and "request_record_key q = k" and "own_record k pc"
  obtains (quiet) "quiet k s s'" "executes pc' = executes pc" "own_record k pc'" "pc' = pc \<or> \<not> executes pc"
      "\<And>c b. pc' = IP_return c b \<Longrightarrow> pc = pc' \<or> (\<exists>r. record_of k s = Some r \<and> ir_status_code r = c
      \<and> ir_response_body r = b \<and> \<not> is_pending b)"
  | (reserve) r where "pc = IP_reserve r" "pc' = IP_operate" "record_of k s = None" "record_of k s' = Some r"
  | (reclaim) r d where "pc = IP_reclaim r d" "pc' = IP_operate" "record_of k s \<noteq> None" "record_of k s' = Some r"
  | (save) b r where "pc = IP_save b" "pc' = IP_saved b" "record_of k s' = Some r" "ir_status_code r = 202"
      "ir_response_body r = b"
  | (delete) e where "pc = IP_delete e" "pc' = IP_raise e" "record_of k s' \<in> {None, record_of k s}"
proof (cases pc)
  case IP_find
  with step_find [OF assms(1) [unfolded IP_find] assms(2)] show thesis
    by (intro quiet) (simp_all add: executes_def)
next
  case (IP_reserve r)
  with assms(3) have "record_key_of r = k" by (simp add: own_record_def)
  from step_reserve [OF assms(1) [unfolded IP_reserve] this] show thesis
  proof cases
    case 1
    then show thesis by (intro reserve [OF IP_reserve])
  next
    case 2
    then show thesis by (intro quiet) (simp_all add: IP_reserve quiet_def executes_def own_record_def)
  qed
next
  case (IP_reclaim r d)
  with assms(3) have "record_key_of r = k" by (simp add: own_record_def)
  from step_reclaim [OF assms(1) [unfolded IP_reclaim] this] show thesis
  proof cases
    case 1
    then show thesis by (intro reclaim [OF IP_reclaim])
  next
    case 2
    then show thesis by (intro quiet) (simp_all add: IP_reclaim quiet_def executes_def own_record_def)
  qed
next
  case IP_wait
  with step_wait [OF assms(1) [unfolded IP_wait] assms(2)] show thesis
    by (intro quiet) (simp_all add: executes_def)
next
  case (IP_save b)
  with step_save [OF assms(1) [unfolded IP_save] assms(2)] save show thesis by blast
next
  case (IP_delete e)
  with step_delete [OF assms(1) [unfolded IP_delete] assms(2)] delete show thesis by blast
next
  case IP_operate
  with step_rest [OF assms(1)] show thesis
    by (intro quiet) (simp_all add: quiet_def executes_def own_record_def)
next
  case (IP_saved b)
  with step_rest [OF assms(1)] show thesis
    by (intro quiet) (simp_all add: quiet_def executes_def own_record_def)
next
  case (IP_return c b)
  with step_rest [OF assms(1)] show thesis
    by (intro quiet) (simp_all add: quiet_def executes_def own_record_def)
next
  case (IP_raise e)
  with step_rest [OF assms(1)] show thesis
    by (intro quiet) (simp_all add: quiet_def executes_def own_record_def)
qed

section \<open>Executions are counted by the reservations\<close>

lemma length_filter_update:
  "i < length xs \<Longrightarrow> length (filter P (xs[i := y])) + (if P (xs ! i) then 1 else 0)
     = length (filter P xs) + (if P y then 1 else 0)"
proof (induction xs arbitrary: i)
  case (Cons x xs)
  then show ?case
    using Cons.IH [of "i - 1"] by (cases i) auto
qed simp

lemma two_in_filter:
  assumes "i < length xs" and "j < length xs" and "i \<noteq> j" and "P (xs ! i)" and "P (xs ! j)"
  shows "2 \<le> length (filter P xs)"
proof -
  have "card {i, j} \<le> card {n. n < length xs \<and> P (xs ! n)}"
    by (rule card_mono) (use assms in auto)
  then show ?thesis using assms(3) by (simp add: length_filter_conv_card)
qed

lemma executions_set_call:
  assumes "i < length (iw_calls w)" and "iw_calls w ! i = (q, pc)"
  shows "executions (set_call i q' pc' s w) + (if executes pc then 1 else 0)
    = executions w + (if executes pc' then 1 else 0)"
  using length_filter_update [OF assms(1), of "executes \<circ> snd" "(q', pc')"] assms(2)
  by (simp add: executions_def set_call_def)

lemma record_at_set_call [simp]: "record_at k (set_call i q pc s w) = record_of k s"
  by (simp add: record_at_def set_call_def)

lemma calls_set_call: "iw_calls (set_call i q pc s w) = (iw_calls w)[i := (q, pc)]"
  by (simp add: set_call_def)

lemma reclaims_set_call [simp]: "iw_reclaims (set_call i q pc s w) = iw_reclaims w"
  by (simp add: set_call_def)

definition calls_ok :: "string \<Rightarrow> (idempotency_request \<times> idem_pc) list \<Rightarrow> bool" where
  "calls_ok k cs \<longleftrightarrow> (\<forall>(q, pc) \<in> set cs. request_record_key q = k \<and> own_record k pc)"

lemma calls_ok_update: "calls_ok k cs \<Longrightarrow> request_record_key q = k \<Longrightarrow> own_record k pc \<Longrightarrow>
    calls_ok k (cs[i := (q, pc)])"
  unfolding calls_ok_def by (auto dest!: set_update_subset_insert [THEN subsetD])

lemma calls_ok_nth: "calls_ok k cs \<Longrightarrow> i < length cs \<Longrightarrow> cs ! i = (q, pc) \<Longrightarrow>
    request_record_key q = k \<and> own_record k pc"
  unfolding calls_ok_def using nth_mem [of i cs] by fastforce

lemma idem_inv_iff: "idem_inv k w \<longleftrightarrow> calls_ok k (iw_calls w)
    \<and> executions w \<le> iw_reclaims w + (if record_at k w = None then 0 else 1)"
  by (simp add: idem_inv_def calls_ok_def)

lemma quiet_record: "quiet k (iw_store w) s' \<Longrightarrow> record_of k s' = record_at k w"
  by (simp add: quiet_def record_at_def)

lemma idem_inv_step:
  assumes "idem_world_step k w w'" and "idem_inv k w"
  shows "idem_inv k w'"
  using assms
proof (induction rule: idem_world_step.induct)
  case (iw_call q w)
  then show ?case
    by (simp add: idem_inv_iff calls_ok_def own_record_def executions_def executes_def record_at_def)
next
  case (iw_move i w q pc pc' s')
  have ok: "request_record_key q = k" "own_record k pc"
    using calls_ok_nth [of k "iw_calls w" i] iw_move by (simp_all add: idem_inv_iff)
  note count = executions_set_call [OF iw_move(1,2), of q pc' s']
  from iw_move(3) ok have "own_record k pc' \<and>
     executions (set_call i q pc' s' w) \<le> iw_reclaims w + (if record_of k s' = None then 0 else 1)"
  proof (cases rule: idem_step_cases)
    case quiet
    then show ?thesis using iw_move.prems count quiet_record [OF quiet(1)]
      by (simp add: idem_inv_iff split: if_splits)
  next
    case (reserve r)
    then show ?thesis using iw_move.prems count
      by (simp add: idem_inv_iff executes_def own_record_def record_at_def)
  next
    case (reclaim r d)
    then show ?thesis using iw_move(4) by (simp add: takes_over_def)
  next
    case (save b r)
    then show ?thesis using iw_move.prems count
      by (simp add: idem_inv_iff executes_def own_record_def split: if_splits)
  next
    case (delete e)
    then show ?thesis using iw_move.prems count
      by (auto simp: idem_inv_iff executes_def own_record_def record_at_def split: if_splits)
  qed
  then show ?case
    using iw_move.prems ok by (simp add: idem_inv_iff calls_set_call calls_ok_update)
next
  case (iw_take_over i w q pc pc' s')
  have ok: "request_record_key q = k" "own_record k pc"
    using calls_ok_nth [of k "iw_calls w" i] iw_take_over by (simp_all add: idem_inv_iff)
  obtain r d where pc: "pc = IP_reclaim r d" "pc' = IP_operate"
    using iw_take_over(4) by (auto simp: takes_over_def split: idem_pc.splits)
  have "record_key_of r = k" using ok pc by (simp add: own_record_def)
  from step_reclaim [OF iw_take_over(3) [unfolded pc(1)] this]
  obtain r1 r2 where "record_of k s' = Some r1" "record_at k w = Some r2"
    using pc(2) by cases (auto simp: record_at_def)
  then show ?case
    using iw_take_over.prems ok pc executions_set_call [OF iw_take_over(1,2), of q pc' s']
    by (simp add: idem_inv_iff calls_set_call calls_ok_update executes_def own_record_def
        executions_def record_at_def set_call_def)
next
  case (iw_timeout i w q)
  have "record_of k (iw_store w) = record_at k w" by (simp add: record_at_def)
  with iw_timeout show ?case
    using executions_set_call [OF iw_timeout(1,2), of q "IP_raise still_in_progress" "iw_store w"]
      calls_ok_nth [of k "iw_calls w" i q IP_wait]
    by (simp add: idem_inv_iff calls_set_call calls_ok_update executes_def own_record_def)
next
  case (iw_success i w q s' body)
  then show ?case
    using executions_set_call [OF iw_success(1,2), of q "IP_save body" s'] quiet_record [OF iw_success(3)]
      calls_ok_nth [of k "iw_calls w" i q IP_operate]
    by (simp add: idem_inv_iff calls_set_call calls_ok_update executes_def own_record_def)
next
  case (iw_failure i w q s' e)
  then show ?case
    using executions_set_call [OF iw_failure(1,2), of q "IP_delete e" s'] quiet_record [OF iw_failure(3)]
      calls_ok_nth [of k "iw_calls w" i q IP_operate]
    by (simp add: idem_inv_iff calls_set_call calls_ok_update executes_def own_record_def)
next
  case (iw_other w s')
  then show ?case
    using quiet_record [OF iw_other(1)] by (simp add: idem_inv_iff executions_def record_at_def)
qed

lemma idem_reach_inv: "idem_reach k w \<Longrightarrow> idem_inv k w"
proof (induction rule: idem_reach.induct)
  case (ir_start s)
  show ?case by (simp add: idem_inv_iff calls_ok_def executions_def)
next
  case (ir_step w w')
  then show ?case using idem_inv_step by blast
qed

section \<open>All callers get the same answer\<close>

definition answer_of :: "idem_pc \<Rightarrow> (int \<times> json_obj) option" where
  "answer_of pc = (case pc of IP_saved b \<Rightarrow> Some (202, b) | IP_return c b \<Rightarrow> Some (c, b) | _ \<Rightarrow> None)"

definition answers :: "idem_world \<Rightarrow> (int \<times> json_obj) set" where
  "answers w = {a. \<exists>c \<in> set (iw_calls w). answer_of (snd c) = Some a}"

definition complete :: "idempotency_record option \<Rightarrow> bool" where
  "complete r \<longleftrightarrow> (case r of None \<Rightarrow> False | Some x \<Rightarrow> \<not> is_pending (ir_response_body x))"

definition holds_reservation :: "idem_pc \<Rightarrow> bool" where
  "holds_reservation pc \<longleftrightarrow> executes pc \<and> answer_of pc = None"

definition agree_inv :: "string \<Rightarrow> idem_world \<Rightarrow> bool" where
  "agree_inv k w \<longleftrightarrow> (iw_reclaims w = 0 \<longrightarrow>
     (\<forall>a \<in> answers w. complete (record_at k w)
        \<and> a = (ir_status_code (the (record_at k w)), ir_response_body (the (record_at k w))))
     \<and> (complete (record_at k w) \<longrightarrow> (\<forall>c \<in> set (iw_calls w). \<not> holds_reservation (snd c))))"

lemma answers_set_call:
  "answers (set_call i q pc s w) \<subseteq> answers w \<union> {a. answer_of pc = Some a}"
  unfolding answers_def calls_set_call by (auto dest!: set_update_subset_insert [THEN subsetD])

lemma holders_set_call:
  "c \<in> set (iw_calls (set_call i q pc s w)) \<Longrightarrow> holds_reservation (snd c) \<Longrightarrow>
   holds_reservation pc \<or> (\<exists>c \<in> set (iw_calls w). holds_reservation (snd c))"
  unfolding calls_set_call by (auto dest!: set_update_subset_insert [THEN subsetD])

text \<open>A call moves and the record stays.\<close>

lemma agree_quiet:
  assumes "agree_inv k w" and "i < length (iw_calls w)" and "iw_calls w ! i = (q, pc)"
    and "record_of k s = record_at k w" and "holds_reservation pc' \<Longrightarrow> holds_reservation pc"
    and "\<And>a. answer_of pc' = Some a \<Longrightarrow> a \<in> answers w \<or> complete (record_at k w)
        \<and> a = (ir_status_code (the (record_at k w)), ir_response_body (the (record_at k w)))"
  shows "agree_inv k (set_call i q pc' s w)"
proof -
  have "(q, pc) \<in> set (iw_calls w)" using assms(2,3) by (metis nth_mem)
  then have "holds_reservation pc' \<Longrightarrow> \<exists>c \<in> set (iw_calls w). holds_reservation (snd c)"
    using assms(5) by force
  with assms(1,4,6) answers_set_call [of i q pc' s w] holders_set_call [of _ i q pc' s w]
  show ?thesis unfolding agree_inv_def by (simp, blast)
qed

lemma not_complete_pending: "ir_response_body r = pending_body \<Longrightarrow> \<not> complete (Some r)"
  by (simp add: complete_def pending_body_def is_pending_def payload_get_def)

text \<open>While a call holds the reservation, nothing has been answered and no other call holds it.\<close>

lemma holder_alone:
  assumes "agree_inv k w" and "idem_inv k w" and "iw_reclaims w = 0"
    and "i < length (iw_calls w)" and "iw_calls w ! i = (q, pc)" and "holds_reservation pc"
  shows "answers w = {}" and "\<not> complete (record_at k w)"
    and "j < length (iw_calls w) \<Longrightarrow> holds_reservation (snd (iw_calls w ! j)) \<Longrightarrow> j = i"
proof -
  have "(q, pc) \<in> set (iw_calls w)" using assms(4,5) by (metis nth_mem)
  with assms(1,3,6) show "\<not> complete (record_at k w)" unfolding agree_inv_def by force
  with assms(1,3) show "answers w = {}" unfolding agree_inv_def by blast
  show "j = i" if "j < length (iw_calls w)" "holds_reservation (snd (iw_calls w ! j))"
  proof (rule ccontr)
    assume "j \<noteq> i"
    then have "2 \<le> executions w"
      unfolding executions_def using assms(4-6) that
      by (intro two_in_filter [of j _ i]) (auto simp: holds_reservation_def)
    with assms(2,3) show False by (simp add: idem_inv_iff split: if_splits)
  qed
qed

lemma agree_save:
  assumes "agree_inv k w" and "idem_inv k w"
    and call: "i < length (iw_calls w)" "iw_calls w ! i = (q, pc)" "holds_reservation pc"
    and "record_of k s = Some r" and "\<not> holds_reservation pc'"
    and "\<And>a. answer_of pc' = Some a \<Longrightarrow> complete (Some r) \<and> a = (ir_status_code r, ir_response_body r)"
  shows "agree_inv k (set_call i q pc' s w)"
proof (cases "iw_reclaims w = 0")
  case True
  note alone = holder_alone [OF assms(1,2) True call]
  have "\<not> holds_reservation (snd c)" if c: "c \<in> set (iw_calls (set_call i q pc' s w))" for c
  proof -
    obtain j where j: "j < length (iw_calls w)" "(iw_calls w)[i := (q, pc')] ! j = c"
      using c unfolding calls_set_call in_set_conv_nth length_list_update by metis
    show ?thesis
    proof (cases "j = i")
      case True
      with j call(1) have "c = (q, pc')" by simp
      with assms(7) show ?thesis by simp
    next
      case False
      with j have "c = iw_calls w ! j" by simp
      with False alone(3) [OF j(1)] show ?thesis by blast
    qed
  qed
  moreover have "answers (set_call i q pc' s w) \<subseteq> {a. answer_of pc' = Some a}"
    using answers_set_call [of i q pc' s w] alone(1) by simp
  ultimately show ?thesis using assms(6,8) unfolding agree_inv_def by auto
qed (simp add: agree_inv_def)

lemma holds_simps: "holds_reservation IP_operate" "holds_reservation (IP_save b)" "holds_reservation (IP_delete e)"
  "\<not> holds_reservation (IP_saved b)" "\<not> holds_reservation (IP_raise e)" "\<not> holds_reservation IP_find"
  "\<not> holds_reservation IP_wait" "\<not> holds_reservation (IP_return c b)"
  by (simp_all add: holds_reservation_def executes_def answer_of_def)

lemma agree_move:
  assumes agree: "agree_inv k w" and inv: "idem_inv k w"
    and call: "i < length (iw_calls w)" "iw_calls w ! i = (q, pc)"
    and step: "idem_step q pc (iw_store w) = (Inr pc', s')" and "\<not> takes_over pc pc'"
  shows "agree_inv k (set_call i q pc' s' w)"
proof -
  have ok: "request_record_key q = k" "own_record k pc"
    using calls_ok_nth [OF _ call, of k] inv by (simp_all add: idem_inv_iff)
  have mem: "(q, pc) \<in> set (iw_calls w)" using call by (metis nth_mem)
  from step ok show ?thesis
  proof (cases rule: idem_step_cases)
    case quiet
    show ?thesis
    proof (rule agree_quiet [OF agree call])
      show "record_of k s' = record_at k w" by (rule quiet_record [OF quiet(1)])
      show "holds_reservation pc" if "holds_reservation pc'"
        using that quiet(2,4) by (auto simp: holds_reservation_def)
      show "a \<in> answers w \<or> complete (record_at k w)
        \<and> a = (ir_status_code (the (record_at k w)), ir_response_body (the (record_at k w)))"
        if "answer_of pc' = Some a" for a
      proof (cases "pc' = pc")
        case True
        with that mem show ?thesis by (force simp: answers_def)
      next
        case False
        with quiet(2,4) have "\<not> executes pc'" by auto
        with that obtain c b where "pc' = IP_return c b" "a = (c, b)"
          by (auto simp: answer_of_def executes_def split: idem_pc.splits)
        with quiet(5) [of c b] False show ?thesis by (auto simp: complete_def record_at_def)
      qed
    qed
  next
    case (reserve r)
    have "answers w = {}" if "iw_reclaims w = 0"
      using agree that reserve(3) unfolding agree_inv_def by (auto simp: record_at_def complete_def)
    moreover have "\<not> complete (Some r)"
      using ok(2) reserve(1) by (intro not_complete_pending) (simp add: own_record_def)
    moreover have "answers (set_call i q pc' s' w) \<subseteq> answers w"
      using answers_set_call [of i q pc' s' w] reserve(2) by (simp add: answer_of_def)
    ultimately show ?thesis using reserve(4) by (auto simp: agree_inv_def)
  next
    case (reclaim r d)
    then show ?thesis using assms(6) by (simp add: takes_over_def)
  next
    case (save b r)
    have "\<not> is_pending b" using ok(2) save(1) by (simp add: own_record_def)
    with save show ?thesis
      by (intro agree_save [OF agree inv call]) (auto simp: holds_simps complete_def answer_of_def)
  next
    case (delete e)
    show ?thesis
    proof (cases "iw_reclaims w = 0")
      case True
      note alone = holder_alone [OF agree inv True call]
      have "answers w = {}" "\<not> complete (record_of k s')"
        using alone(1,2) delete by (auto simp: holds_simps complete_def record_at_def)
      moreover have "answers (set_call i q pc' s' w) \<subseteq> answers w"
        using answers_set_call [of i q pc' s' w] delete(2) by (simp add: answer_of_def)
      ultimately show ?thesis by (auto simp: agree_inv_def)
    qed (simp add: agree_inv_def)
  qed
qed

lemma agree_inv_step:
  assumes "idem_world_step k w w'" and "idem_inv k w" and "agree_inv k w"
  shows "agree_inv k w'"
  using assms
proof (induction rule: idem_world_step.induct)
  case (iw_call q w)
  then show ?case
    by (auto simp: agree_inv_def answers_def answer_of_def record_at_def holds_simps)
next
  case (iw_move i w q pc pc' s')
  then show ?case by (blast intro: agree_move)
next
  case (iw_take_over i w q pc pc' s')
  show ?case by (simp add: agree_inv_def)
next
  case (iw_timeout i w q)
  show ?case
    by (rule agree_quiet [OF iw_timeout(4,1,2)])
      (simp_all add: record_at_def holds_simps answer_of_def)
next
  case (iw_success i w q s' body)
  show ?case
    by (rule agree_quiet [OF iw_success(6,1,2) quiet_record [OF iw_success(3)]])
      (simp_all add: holds_simps answer_of_def)
next
  case (iw_failure i w q s' e)
  show ?case
    by (rule agree_quiet [OF iw_failure(5,1,2) quiet_record [OF iw_failure(3)]])
      (simp_all add: holds_simps answer_of_def)
next
  case (iw_other w s')
  then show ?case
    using quiet_record [OF iw_other(1)] by (simp add: agree_inv_def answers_def record_at_def)
qed

lemma idem_reach_agree: "idem_reach k w \<Longrightarrow> agree_inv k w"
proof (induction rule: idem_reach.induct)
  case (ir_start s)
  show ?case by (simp add: agree_inv_def answers_def)
next
  case (ir_step w w')
  then show ?case using agree_inv_step idem_reach_inv by blast
qed

section \<open>A concrete run\<close>

text \<open>One caller reserves, operates and saves; a second one finds the saved response.\<close>

definition demo_request :: idempotency_request where
  "demo_request = \<lparr>iq_tenant_id = ''t1'', iq_key = ''k'', iq_method = ''POST'', iq_path = ''/m'',
     iq_request_hash = ''h''\<rparr>"

definition demo_body :: json_obj where "demo_body = [(''run'', JStr ''r1'')]"

definition blank_store :: store where "blank_store = empty_store int (\<lambda>n. replicate n CHR ''x'') True"

lemma demo_body_complete: "\<not> is_pending demo_body"
  by (simp add: is_pending_def demo_body_def payload_get_def pending_marker_def)

lemmas idem_evals = catching_def find_idempotent_replay_eval replay_or_def build_record_eval
  reserve_idempotency_record_def put_idempotency_record_def save_idempotent_response_def
  save_idempotency_record_def utc_now_eval record_key_of_def request_record_key_def op_simps

lemma move_last:
  assumes "idem_reach k \<lparr>iw_store = s, iw_calls = cs @ [(q, pc)], iw_reclaims = n\<rparr>"
    and "idem_step q pc s = (Inr pc', s')" and "\<not> takes_over pc pc'"
  shows "idem_reach k \<lparr>iw_store = s', iw_calls = cs @ [(q, pc')], iw_reclaims = n\<rparr>"
proof -
  let ?w = "\<lparr>iw_store = s, iw_calls = cs @ [(q, pc)], iw_reclaims = n\<rparr>"
  have "idem_world_step k ?w (set_call (length cs) q pc' s' ?w)"
    by (rule iw_move [OF _ _ _ assms(3)]) (simp_all add: assms(2))
  moreover have "set_call (length cs) q pc' s' ?w = \<lparr>iw_store = s', iw_calls = cs @ [(q, pc')], iw_reclaims = n\<rparr>"
    by (simp add: set_call_def)
  ultimately show ?thesis using assms(1) by (metis ir_step)
qed

lemma demo_world:
  obtains w a where "idem_reach (request_record_key demo_request) w" "iw_reclaims w = 0"
    "iw_calls w = [(demo_request, IP_saved demo_body), (demo_request, IP_return (fst a) (snd a))]"
proof -
  let ?q = demo_request and ?k = "request_record_key demo_request"
  define s1 where "s1 = blank_store\<lparr>tick := 1\<rparr>"
  define r where "r = \<lparr>ir_tenant_id = iq_tenant_id ?q, ir_key = iq_key ?q, ir_method = iq_method ?q,
     ir_path = iq_path ?q, ir_request_hash = iq_request_hash ?q, ir_status_code = 102,
     ir_response_body = pending_body, ir_created_at = clock blank_store 0\<rparr>"
  define s2 where "s2 = s1\<lparr>idempotency_records := [(?k, r)]\<rparr>"
  have 0: "idem_reach ?k \<lparr>iw_store = blank_store, iw_calls = [], iw_reclaims = 0\<rparr>" by (rule ir_start)
  have 1: "idem_reach ?k \<lparr>iw_store = blank_store, iw_calls = [] @ [(?q, IP_find)], iw_reclaims = 0\<rparr>"
    using ir_step [OF 0 iw_call [OF refl]] by simp
  have "idem_step ?q IP_find blank_store = (Inr (IP_reserve r), s1)"
    by (simp add: idem_evals blank_store_def empty_store_def s1_def r_def)
  from move_last [OF 1 this]
  have 2: "idem_reach ?k \<lparr>iw_store = s1, iw_calls = [] @ [(?q, IP_reserve r)], iw_reclaims = 0\<rparr>"
    by (simp add: takes_over_def)
  have "idem_step ?q (IP_reserve r) s1 = (Inr IP_operate, s2)"
    by (simp add: idem_evals s1_def s2_def r_def blank_store_def empty_store_def)
  from move_last [OF 2 this]
  have 3: "idem_reach ?k \<lparr>iw_store = s2, iw_calls = [(?q, IP_operate)], iw_reclaims = 0\<rparr>"
    by (simp add: takes_over_def)
  have 4: "idem_reach ?k \<lparr>iw_store = s2, iw_calls = [] @ [(?q, IP_save demo_body)], iw_reclaims = 0\<rparr>"
    using ir_step [OF 3 iw_success [of 0 _ ?q ?k s2 demo_body]] demo_body_complete
    by (simp add: quiet_def set_call_def)
  obtain s3 where s3: "idem_step ?q (IP_save demo_body) s2 = (Inr (IP_saved demo_body), s3)"
    by (simp add: idem_evals)
  obtain r3 where r3: "record_of ?k s3 = Some r3" "ir_response_body r3 = demo_body" "ir_request_hash r3 = ''h''"
    using s3 by (auto simp: idem_evals demo_request_def)
  from move_last [OF 4 s3]
  have 5: "idem_reach ?k \<lparr>iw_store = s3, iw_calls = [(?q, IP_saved demo_body)], iw_reclaims = 0\<rparr>"
    by (simp add: takes_over_def)
  have 6: "idem_reach ?k \<lparr>iw_store = s3, iw_calls = [(?q, IP_saved demo_body)] @ [(?q, IP_find)], iw_reclaims = 0\<rparr>"
    using ir_step [OF 5 iw_call [OF refl]] by simp
  have "idem_step ?q IP_find s3 = (Inr (IP_return (ir_status_code r3) demo_body), s3)"
    using r3 demo_body_complete
    by (simp add: catching_def find_idempotent_replay_eval replay_or_def op_simps demo_request_def)
  from move_last [OF 6 this]
  have "idem_reach ?k \<lparr>iw_store = s3, iw_calls = [(?q, IP_saved demo_body),
      (?q, IP_return (ir_status_code r3) demo_body)], iw_reclaims = 0\<rparr>"
    by (simp add: takes_over_def)
  from that [OF this, of "(ir_status_code r3, demo_body)"] show thesis by simp
qed

section \<open>Properties\<close>

text \<open>C15: An idempotent request is executed once per reservation. Whatever callers of whatever
  processes share an idempotency key, and however their store operations interleave, the
  executions of the operation that run or have succeeded number at most one more than the
  reservations that were taken over after their 30 seconds; with no such takeover, at most one.\<close>

theorem executions_are_bounded:
  assumes "idem_reach k w"
  shows "executions w \<le> Suc (iw_reclaims w)"
  using idem_reach_inv [OF assms] by (simp add: idem_inv_iff split: if_splits)

theorem executions_are_bounded_witness:
  "\<exists>w. idem_reach (request_record_key demo_request) w \<and> length (iw_calls w) = 2 \<and> executions w = 1"
proof -
  obtain w a where w: "idem_reach (request_record_key demo_request) w" "iw_reclaims w = 0"
    "iw_calls w = [(demo_request, IP_saved demo_body), (demo_request, IP_return (fst a) (snd a))]"
    by (rule demo_world)
  have "executions w = 1" using executions_are_bounded [OF w(1)] w(2,3)
    by (simp add: executions_def executes_def)
  with w show ?thesis by auto
qed

text \<open>C16: All callers of one idempotency key get the same answer, status code and body, however
  they interleave, as long as no reservation was taken over.\<close>

theorem callers_get_the_same_answer:
  assumes "idem_reach k w" and "iw_reclaims w = 0" and "a \<in> answers w" and "a' \<in> answers w"
  shows "a' = a"
proof -
  have "\<forall>x \<in> answers w. x = (ir_status_code (the (record_at k w)), ir_response_body (the (record_at k w)))"
    using idem_reach_agree [OF assms(1)] assms(2) unfolding agree_inv_def by blast
  with assms(3,4) show ?thesis by metis
qed

theorem callers_get_the_same_answer_witness:
  "\<exists>w. idem_reach (request_record_key demo_request) w
     \<and> iw_calls w = [(demo_request, IP_saved demo_body), (demo_request, IP_return 202 demo_body)]"
proof -
  obtain w a where w: "idem_reach (request_record_key demo_request) w" "iw_reclaims w = 0"
    "iw_calls w = [(demo_request, IP_saved demo_body), (demo_request, IP_return (fst a) (snd a))]"
    by (rule demo_world)
  have "a = (202, demo_body)"
    by (rule callers_get_the_same_answer [OF w(1,2)]) (simp_all add: answers_def w(3) answer_of_def)
  with w show ?thesis by auto
qed

lemma wait_record:
  assumes "wait_for_idempotent_completion n q s = (Inr r, s')"
  shows "s' = s \<and> record_of (request_record_key q) s = Some r \<and> ir_request_hash r = iq_request_hash q
    \<and> \<not> is_pending (ir_response_body r)"
  using assms
  by (induction n) (auto simp: find_idempotent_replay_eval op_simps split: option.splits if_splits)

lemma run_reserved_record:
  assumes "run_reserved q operation s = (Inr (c, b), s')"
  shows "\<exists>r. record_of (request_record_key q) s' = Some r \<and> ir_request_hash r = iq_request_hash q
    \<and> ir_status_code r = c \<and> ir_response_body r = b"
  using assms
  by (auto simp: run_reserved_def save_idempotent_response_def build_record_eval
      save_idempotency_record_def put_idempotency_record_def record_key_of_def request_record_key_def
      op_simps split: prod.splits sum.splits)

lemma executed_record:
  assumes "execute_idempotently n (Some q) operation s = (Inr (c, b), s')" and "\<not> is_pending b"
  shows "\<exists>r. record_of (request_record_key q) s' = Some r \<and> ir_request_hash r = iq_request_hash q
    \<and> ir_status_code r = c \<and> ir_response_body r = b"
proof (cases "record_of (request_record_key q) s")
  case None
  then show ?thesis using assms
    by (auto simp: execute_idempotently_def find_idempotent_replay_eval build_record_eval op_simps
        reserve_idempotency_record_def put_idempotency_record_def dest!: run_reserved_record wait_record
        split: prod.splits sum.splits if_splits)
next
  case (Some r)
  then show ?thesis using assms
    by (auto simp: execute_idempotently_def find_idempotent_replay_eval build_record_eval op_simps
        reclaim_stale_idempotency_record_def put_idempotency_record_def utc_now_eval
        dest!: run_reserved_record wait_record split: prod.splits sum.splits if_splits option.splits)
qed

text \<open>An answer is final. Once a request with an idempotency key has been answered with a
  complete response, the same request is answered with the same status code and body in every
  later state in which its record was left alone, without running its operation.\<close>

theorem replays_repeat_the_answer:
  assumes "execute_idempotently n (Some q) operation s = (Inr (c, b), s1)" and "\<not> is_pending b"
    and "quiet (request_record_key q) s1 s2"
  shows "execute_idempotently n' (Some q) operation' s2 = (Inr (c, b), s2)"
  using executed_record [OF assms(1,2)] assms(2,3)
  by (auto simp: execute_idempotently_def find_idempotent_replay_eval quiet_def op_simps)

theorem replays_repeat_the_answer_witness:
  "\<exists>s1. fst (execute_idempotently 0 (Some demo_request) (ret demo_body) blank_store) = Inr (202, demo_body)
     \<and> execute_idempotently 0 (Some demo_request) (raise (ValueError ''x'')) s1 = (Inr (202, demo_body), s1)"
proof -
  obtain s1 where s1: "execute_idempotently 0 (Some demo_request) (ret demo_body) blank_store = (Inr (202, demo_body), s1)"
    by (simp add: execute_idempotently_def run_reserved_def idem_evals blank_store_def empty_store_def)
  have "execute_idempotently 0 (Some demo_request) (raise (ValueError ''x'')) s1 = (Inr (202, demo_body), s1)"
    by (rule replays_repeat_the_answer [OF s1 demo_body_complete]) (simp add: quiet_def)
  with s1 show ?thesis by auto
qed

text \<open>C17: A failed request can be repeated. When the operation raises and the key was free, the
  caller sees the exception of the operation and the key is free again.\<close>

theorem failures_free_the_key:
  assumes "record_of (request_record_key q) s = None"
    and "\<And>s'. fst (operation s') = Inl e \<and> quiet (request_record_key q) s' (snd (operation s'))"
  shows "\<exists>s1. execute_idempotently n (Some q) operation s = (Inl e, s1)
    \<and> record_of (request_record_key q) s1 = None"
proof -
  define r where "r = \<lparr>ir_tenant_id = iq_tenant_id q, ir_key = iq_key q, ir_method = iq_method q,
     ir_path = iq_path q, ir_request_hash = iq_request_hash q, ir_status_code = 102,
     ir_response_body = pending_body, ir_created_at = clock s (tick s)\<rparr>"
  define s0 where "s0 = s\<lparr>tick := Suc (tick s),
      idempotency_records := dict_set (request_record_key q) r (idempotency_records s)\<rparr>"
  have key: "record_key_of r = request_record_key q" by (simp add: r_def record_key_of_def request_record_key_def)
  have run: "execute_idempotently n (Some q) operation s = run_reserved q operation s0"
    using assms(1) key
    by (simp add: execute_idempotently_def find_idempotent_replay_eval build_record_eval op_simps
        reserve_idempotency_record_def put_idempotency_record_def s0_def flip: r_def)
  obtain s1 where op: "operation s0 = (Inl e, s1)" using assms(2) [of s0] by (metis prod.collapse)
  with assms(2) [of s0] have "record_of (request_record_key q) s1 = Some r"
    by (simp add: quiet_def s0_def)
  moreover have "ir_request_hash r = iq_request_hash q" by (simp add: r_def)
  ultimately show ?thesis
    by (simp add: run run_reserved_def op delete_reservation_def delete_idempotency_record_def
        Let_def op_simps flip: request_record_key_def)
qed

theorem failures_free_the_key_witness:
  "\<exists>s1. execute_idempotently 0 (Some demo_request) (raise (ValueError ''x'')) blank_store
     = (Inl (ValueError ''x''), s1) \<and> record_of (request_record_key demo_request) s1 = None"
  by (rule failures_free_the_key) (simp_all add: blank_store_def empty_store_def op_simps quiet_def)

end
