(* ===== verification/ModelAccess.thy ===== *)
theory ModelAccess
  imports StoreOps Scenario
begin

text \<open>
  \<^verbatim>\<open>taroai/model_gateway/budget.py\<close> and \<^verbatim>\<open>policy.py\<close>: whether a run may call a model. The budget
  guard sums the billing meters of the run's scopes against the limits of the policy; the model
  policy picks the most specific matching scope and checks its deny list, allow list and
  sensitivity limits.
\<close>

section \<open>Budgets\<close>










section \<open>Model policies\<close>

record model_policy_scope =
  mp_tenant_id :: "string option"
  mp_workspace_id :: "string option"
  mp_default_model :: "string option"
  mp_allowed_models :: "string list"
  mp_denied_models :: "string list"
  mp_sensitivity_limits :: "(string, int) dict"

record model_policy =
  mo_default_model :: "string option"
  mo_allowed_models :: "string list"
  mo_denied_models :: "string list"
  mo_sensitivity_limits :: "(string, int) dict"
  mo_scoped_policies :: "model_policy_scope list"

text \<open>The fields of \<open>ModelGatewayRequest\<close> that the policy reads.\<close>

record model_request =
  mr_tenant_id :: string
  mr_workspace_id :: string
  mr_model :: "string option"
  mr_sensitivity_level :: int

definition scope_fields_ok :: "model_policy_scope \<Rightarrow> bool" where
  "scope_fields_ok sc \<longleftrightarrow> list_all (\<lambda>(_, limit). 0 \<le> limit) (mp_sensitivity_limits sc)
     \<and> \<not> (mp_workspace_id sc \<noteq> None \<and> mp_tenant_id sc = None)"

definition scope_matches :: "model_policy_scope \<Rightarrow> model_request \<Rightarrow> bool" where
  "scope_matches sc q \<longleftrightarrow>
     (mp_tenant_id sc = None \<or> mp_tenant_id sc = Some (mr_tenant_id q))
     \<and> (mp_workspace_id sc = None \<or> mp_workspace_id sc = Some (mr_workspace_id q))"

definition specificity :: "model_policy_scope \<Rightarrow> nat" where
  "specificity sc = (if mp_tenant_id sc = None then 0 else 1) + (if mp_workspace_id sc = None then 0 else 2)"

definition selected_scope :: "model_policy \<Rightarrow> model_request \<Rightarrow> model_policy_scope option" where
  "selected_scope p q =
     (case filter (\<lambda>sc. scope_matches sc q) (mo_scoped_policies p) of
        [] \<Rightarrow> None
      | sc # scs \<Rightarrow> Some (max_by specificity sc scs))"

definition resolve_model :: "model_policy \<Rightarrow> model_request \<Rightarrow> string option" where
  "resolve_model p q =
     (case mr_model q of
        Some m \<Rightarrow> Some m
      | None \<Rightarrow>
          (case selected_scope p q of
             Some sc \<Rightarrow> (if mp_default_model sc \<noteq> None then mp_default_model sc else mo_default_model p)
           | None \<Rightarrow> mo_default_model p))"

definition effective_allowed :: "model_policy \<Rightarrow> model_policy_scope option \<Rightarrow> string list" where
  "effective_allowed p scope =
     (case scope of
        Some sc \<Rightarrow> (if mp_allowed_models sc \<noteq> [] then mp_allowed_models sc else mo_allowed_models p)
      | None \<Rightarrow> mo_allowed_models p)"

text \<open>\<open>list(dict.fromkeys(xs))\<close> keeps the first occurrences.\<close>

definition from_keys :: "'a list \<Rightarrow> 'a list" where
  "from_keys xs = rev (remdups (rev xs))"

definition effective_denied :: "model_policy \<Rightarrow> model_policy_scope option \<Rightarrow> string list" where
  "effective_denied p scope =
     from_keys (mo_denied_models p @ (case scope of Some sc \<Rightarrow> mp_denied_models sc | None \<Rightarrow> []))"

definition effective_limits :: "model_policy \<Rightarrow> model_policy_scope option \<Rightarrow> (string, int) dict" where
  "effective_limits p scope =
     (case scope of
        Some sc \<Rightarrow> foldl (\<lambda>d (k, v). dict_set k v d) (mo_sensitivity_limits p) (mp_sensitivity_limits sc)
      | None \<Rightarrow> mo_sensitivity_limits p)"

definition denied_error ::
  "model_policy \<Rightarrow> model_policy_scope option \<Rightarrow> string \<Rightarrow> string \<Rightarrow> json_obj \<Rightarrow> error" where
  "denied_error p scope requested_model reason extra =
     ModelPolicyDeniedError reason
       ([(''requested_model'', JStr requested_model),
         (''allowed_models'', JArr (map JStr (effective_allowed p scope))),
         (''denied_models'', JArr (map JStr (effective_denied p scope))),
         (''policy_scope'', JObj (case scope of
            Some sc \<Rightarrow> [(''tenant_id'', opt_str (mp_tenant_id sc)), (''workspace_id'', opt_str (mp_workspace_id sc))]
          | None \<Rightarrow> [(''tenant_id'', JNull), (''workspace_id'', JNull)])),
         (''reason'', JStr reason)] @ extra)"

definition sensitivity_metadata :: "int \<Rightarrow> int option \<Rightarrow> (string, int) dict \<Rightarrow> json_obj" where
  "sensitivity_metadata level limit limits =
     [(''sensitivity_level'', JInt level),
      (''model_sensitivity_limit'', case limit of None \<Rightarrow> JNull | Some n \<Rightarrow> JInt n),
      (''model_sensitivity_limits'', JObj (map (\<lambda>(k, v). (k, JInt v)) limits))]"

definition assert_sensitivity_allowed ::
  "model_policy \<Rightarrow> model_policy_scope option \<Rightarrow> string \<Rightarrow> int \<Rightarrow> error + unit" where
  "assert_sensitivity_allowed p scope requested_model level =
     (if level \<le> 0 then Inr ()
      else
        let limits = effective_limits p scope in
        case dict_get limits requested_model of
          None \<Rightarrow> Inl (denied_error p scope requested_model ''model sensitivity limit is not configured''
            (sensitivity_metadata level None limits))
        | Some limit \<Rightarrow>
            if level > limit
            then Inl (denied_error p scope requested_model ''request sensitivity exceeds model limit''
              (sensitivity_metadata level (Some limit) limits))
            else Inr ())"

definition assert_request_allowed :: "model_policy \<Rightarrow> model_request \<Rightarrow> error + string option" where
  "assert_request_allowed p q =
     (case resolve_model p q of
        None \<Rightarrow> Inr None
      | Some m \<Rightarrow>
          let scope = selected_scope p q in
          if m \<in> set (effective_denied p scope)
          then Inl (denied_error p scope m ''model is explicitly denied by policy'' [])
          else if effective_allowed p scope \<noteq> [] \<and> m \<notin> set (effective_allowed p scope)
          then Inl (denied_error p scope m ''model is not in the allowed model list'' [])
          else
            (case assert_sensitivity_allowed p scope m (mr_sensitivity_level q) of
               Inl e \<Rightarrow> Inl e
             | Inr _ \<Rightarrow> Inr (Some m)))"

section \<open>Budget decisions\<close>









section \<open>Policy decisions\<close>

lemma set_from_keys [simp]: "set (from_keys xs) = set xs"
  by (simp add: from_keys_def)

lemma selected_scope_Some:
  assumes "selected_scope p q = Some sc"
  shows "sc \<in> set (mo_scoped_policies p)" and "scope_matches sc q"
    and "sc' \<in> set (mo_scoped_policies p) \<Longrightarrow> scope_matches sc' q \<Longrightarrow> specificity sc' \<le> specificity sc"
proof -
  obtain sc0 scs where f: "filter (\<lambda>sc. scope_matches sc q) (mo_scoped_policies p) = sc0 # scs"
    "sc = max_by specificity sc0 scs"
    using assms by (auto simp: selected_scope_def split: list.splits)
  have "sc \<in> set (filter (\<lambda>sc. scope_matches sc q) (mo_scoped_policies p))"
    using max_by_mem [of specificity sc0 scs] f by simp
  then show "sc \<in> set (mo_scoped_policies p)" "scope_matches sc q" by simp_all
  show "specificity sc' \<le> specificity sc"
    if "sc' \<in> set (mo_scoped_policies p)" "scope_matches sc' q"
  proof -
    have "sc' \<in> set (sc0 # scs)" using that unfolding f(1) [symmetric] by simp
    then show ?thesis using max_by_ge [of sc' sc0 scs specificity] f(2) by simp
  qed
qed

text \<open>C22: What the model policy lets through. An accepted model is the one the request names, or
  the default of the selected scope or of the policy; it is on neither deny list that applies, on
  the allow list that applies unless that is empty, and its sensitivity limit covers the request.
  The selected scope matches the tenant and the workspace of the request, and no matching scope
  is more specific.\<close>

theorem accepted_models_comply:
  assumes "assert_request_allowed p q = Inr (Some m)"
  shows "(mr_model q = None \<or> mr_model q = Some m)
    \<and> m \<notin> set (mo_denied_models p)
    \<and> (mr_sensitivity_level q > 0 \<longrightarrow>
         (\<exists>n. dict_get (effective_limits p (selected_scope p q)) m = Some n \<and> mr_sensitivity_level q \<le> n))
    \<and> (case selected_scope p q of
         None \<Rightarrow> (\<forall>sc \<in> set (mo_scoped_policies p). \<not> scope_matches sc q)
           \<and> (mo_allowed_models p = [] \<or> m \<in> set (mo_allowed_models p))
       | Some sc \<Rightarrow> sc \<in> set (mo_scoped_policies p) \<and> scope_matches sc q
           \<and> (\<forall>sc' \<in> set (mo_scoped_policies p). scope_matches sc' q \<longrightarrow> specificity sc' \<le> specificity sc)
           \<and> m \<notin> set (mp_denied_models sc)
           \<and> (if mp_allowed_models sc \<noteq> [] then m \<in> set (mp_allowed_models sc)
              else mo_allowed_models p = [] \<or> m \<in> set (mo_allowed_models p)))"
proof -
  have res: "resolve_model p q = Some m" and den: "m \<notin> set (effective_denied p (selected_scope p q))"
    and all: "effective_allowed p (selected_scope p q) = [] \<or> m \<in> set (effective_allowed p (selected_scope p q))"
    and sens: "assert_sensitivity_allowed p (selected_scope p q) m (mr_sensitivity_level q) = Inr ()"
    using assms by (auto simp: assert_request_allowed_def Let_def split: option.splits sum.splits if_splits)
  have "mr_model q = None \<or> mr_model q = Some m"
    using res by (auto simp: resolve_model_def split: option.splits)
  moreover have "mr_sensitivity_level q > 0 \<longrightarrow>
         (\<exists>n. dict_get (effective_limits p (selected_scope p q)) m = Some n \<and> mr_sensitivity_level q \<le> n)"
    using sens by (auto simp: assert_sensitivity_allowed_def Let_def split: option.splits if_splits)
  moreover have "m \<notin> set (mo_denied_models p)" using den by (simp add: effective_denied_def)
  moreover have "\<forall>sc \<in> set (mo_scoped_policies p). \<not> scope_matches sc q" if "selected_scope p q = None"
    using that by (auto simp: selected_scope_def filter_empty_conv split: list.splits)
  ultimately show ?thesis
    using den all selected_scope_Some [of p q]
    by (auto simp: effective_denied_def effective_allowed_def split: option.splits if_splits)
qed

definition demo_policy :: model_policy where
  "demo_policy = \<lparr>mo_default_model = Some ''m0'', mo_allowed_models = [], mo_denied_models = [''m9''],
     mo_sensitivity_limits = [(''m1'', 2)],
     mo_scoped_policies = [
       \<lparr>mp_tenant_id = Some ''t1'', mp_workspace_id = None, mp_default_model = Some ''m2'',
        mp_allowed_models = [], mp_denied_models = [], mp_sensitivity_limits = []\<rparr>,
       \<lparr>mp_tenant_id = Some ''t1'', mp_workspace_id = Some ''w1'', mp_default_model = Some ''m1'',
        mp_allowed_models = [''m1''], mp_denied_models = [''m2''], mp_sensitivity_limits = []\<rparr>]\<rparr>"

definition demo_model_request :: model_request where
  "demo_model_request = \<lparr>mr_tenant_id = ''t1'', mr_workspace_id = ''w1'', mr_model = None, mr_sensitivity_level = 1\<rparr>"

theorem accepted_models_comply_witness:
  "assert_request_allowed demo_policy demo_model_request = Inr (Some ''m1'') \<and> ''m1'' \<notin> set (mo_denied_models demo_policy)"
proof -
  have "assert_request_allowed demo_policy demo_model_request = Inr (Some ''m1'')" by code_simp
  with accepted_models_comply [OF this] show ?thesis by blast
qed

end
