(* ===== verification/ToolSchema.thy ===== *)
theory ToolSchema
  imports Json
begin

text \<open>
  \<^verbatim>\<open>taroai/tool_gateway/schema.py\<close>: the validator of tool inputs and outputs against a subset of
  JSON Schema. The validator collects messages; the specification \<open>conforms\<close> says what a value
  must satisfy. How a float prints is a parameter.
\<close>

section \<open>The validator\<close>

text \<open>A step answers the messages it appends, or raises because the schema is ill-formed; which
  text such a \<open>TypeError\<close> or \<open>AttributeError\<close> carries is not modelled.\<close>

type_synonym messages = "error + string list"

fun seqs :: "messages list \<Rightarrow> messages" where
  "seqs [] = Inr []"
| "seqs (m # ms) =
     (case m of
        Inl e \<Rightarrow> Inl e
      | Inr xs \<Rightarrow> (case seqs ms of Inl e \<Rightarrow> Inl e | Inr ys \<Rightarrow> Inr (xs @ ys)))"

definition is_number :: "json \<Rightarrow> bool" where
  "is_number v \<longleftrightarrow> (case v of JInt _ \<Rightarrow> True | JFloat _ \<Rightarrow> True | _ \<Rightarrow> False)"

fun matches_type :: "json \<Rightarrow> json \<Rightarrow> bool" where
  "matches_type v (JArr ts) = list_ex (matches_type v) ts"
| "matches_type v (JStr t) =
     (if t = ''object'' then (case v of JObj _ \<Rightarrow> True | _ \<Rightarrow> False)
      else if t = ''array'' then (case v of JArr _ \<Rightarrow> True | _ \<Rightarrow> False)
      else if t = ''string'' then (case v of JStr _ \<Rightarrow> True | _ \<Rightarrow> False)
      else if t = ''integer'' then (case v of JInt _ \<Rightarrow> True | _ \<Rightarrow> False)
      else if t = ''number'' then is_number v
      else if t = ''boolean'' then (case v of JBool _ \<Rightarrow> True | _ \<Rightarrow> False)
      else if t = ''null'' then v = JNull
      else True)"
| "matches_type v _ = True"

text \<open>\<open>schema.get(k)\<close> unless it is \<open>None\<close>.\<close>

definition keyword :: "json_obj \<Rightarrow> string \<Rightarrow> json option" where
  "keyword schema k = (case map_of schema k of None \<Rightarrow> None | Some v \<Rightarrow> if v = JNull then None else Some v)"

definition type_ok :: "json \<Rightarrow> json_obj \<Rightarrow> bool" where
  "type_ok v schema = (case keyword schema ''type'' of None \<Rightarrow> True | Some t \<Rightarrow> matches_type v t)"

text \<open>\<open>value in schema["enum"]\<close> for a list, a string and an object.\<close>

definition py_in :: "json \<Rightarrow> json \<Rightarrow> error + bool" where
  "py_in v c =
     (case c of
        JArr xs \<Rightarrow> Inr (list_ex (py_eq v) xs)
      | JStr s \<Rightarrow> (case v of
            JStr t \<Rightarrow> Inr (list_ex (\<lambda>i. take (length t) (drop i s) = t) [0..<Suc (length s)])
          | _ \<Rightarrow> Inl (TypeError ''enum''))
      | JObj kvs \<Rightarrow> (case v of
            JStr t \<Rightarrow> Inr (t \<in> set (map fst kvs))
          | JArr _ \<Rightarrow> Inl (TypeError ''enum'')
          | JObj _ \<Rightarrow> Inl (TypeError ''enum'')
          | _ \<Rightarrow> Inr False)
      | _ \<Rightarrow> Inl (TypeError ''enum''))"

definition enum_errors :: "(rat \<Rightarrow> string) \<Rightarrow> json \<Rightarrow> json_obj \<Rightarrow> string \<Rightarrow> messages" where
  "enum_errors fr v schema path =
     (case map_of schema ''enum'' of
        None \<Rightarrow> Inr []
      | Some c \<Rightarrow>
          (case py_in v c of
             Inl e \<Rightarrow> Inl e
           | Inr b \<Rightarrow> Inr (if b then [] else [path @ '' must be one of '' @ py_str fr c])))"

text \<open>A bound that is present: the message if the comparison says so.\<close>

definition bound_errors ::
  "(rat \<Rightarrow> string) \<Rightarrow> json_obj \<Rightarrow> string \<Rightarrow> (rat \<Rightarrow> bool) \<Rightarrow> string \<Rightarrow> string \<Rightarrow> messages" where
  "bound_errors fr schema k violated before after =
     (case keyword schema k of
        None \<Rightarrow> Inr []
      | Some j \<Rightarrow>
          (case json_number j of
             None \<Rightarrow> Inl (TypeError k)
           | Some r \<Rightarrow> Inr (if violated r then [before @ py_str fr j @ after] else [])))"

definition required_items :: "json_obj \<Rightarrow> error + json list" where
  "required_items schema =
     (case map_of schema ''required'' of
        None \<Rightarrow> Inr []
      | Some (JArr xs) \<Rightarrow> Inr xs
      | Some (JStr s) \<Rightarrow> Inr (map (\<lambda>c. JStr [c]) s)
      | Some (JObj kvs) \<Rightarrow> Inr (map (\<lambda>kv. JStr (fst kv)) kvs)
      | Some _ \<Rightarrow> Inl (TypeError ''required''))"

definition required_error :: "(rat \<Rightarrow> string) \<Rightarrow> string list \<Rightarrow> string \<Rightarrow> json \<Rightarrow> messages" where
  "required_error fr keys path key =
     (case key of
        JStr k \<Rightarrow> Inr (if k \<in> set keys then [] else [path @ ''.'' @ k @ '' is required''])
      | JArr _ \<Rightarrow> Inl (TypeError ''required'')
      | JObj _ \<Rightarrow> Inl (TypeError ''required'')
      | _ \<Rightarrow> Inr [path @ ''.'' @ py_str fr key @ '' is required''])"

definition properties_of :: "json_obj \<Rightarrow> error + json_obj" where
  "properties_of schema =
     (case map_of schema ''properties'' of
        None \<Rightarrow> Inr []
      | Some (JObj ps) \<Rightarrow> Inr ps
      | Some _ \<Rightarrow> Inl (AttributeError ''items''))"

definition property_list :: "json_obj \<Rightarrow> json_obj" where
  "property_list schema = (case properties_of schema of Inl _ \<Rightarrow> [] | Inr ps \<Rightarrow> ps)"

definition additional_keys :: "string list \<Rightarrow> json_obj \<Rightarrow> string list" where
  "additional_keys keys schema =
     (if map_of schema ''additionalProperties'' = Some (JBool False)
      then sort (remdups (filter (\<lambda>k. k \<notin> set (map fst (property_list schema))) keys))
      else [])"

definition required_errors :: "(rat \<Rightarrow> string) \<Rightarrow> json_obj \<Rightarrow> json_obj \<Rightarrow> string \<Rightarrow> messages" where
  "required_errors fr kvs schema path =
     (case required_items schema of
        Inl e \<Rightarrow> Inl e
      | Inr items \<Rightarrow> seqs (map (required_error fr (map fst kvs) path) items))"

definition length_errors :: "(rat \<Rightarrow> string) \<Rightarrow> json list \<Rightarrow> json_obj \<Rightarrow> string \<Rightarrow> messages" where
  "length_errors fr xs schema path =
     seqs [bound_errors fr schema ''minItems'' (\<lambda>r. rat_of_nat (length xs) < r)
             (path @ '' must contain at least '') '' items'',
           bound_errors fr schema ''maxItems'' (\<lambda>r. rat_of_nat (length xs) > r)
             (path @ '' must contain at most '') '' items'']"

definition validate_string :: "(rat \<Rightarrow> string) \<Rightarrow> string \<Rightarrow> json_obj \<Rightarrow> string \<Rightarrow> messages" where
  "validate_string fr s schema path =
     seqs [bound_errors fr schema ''minLength'' (\<lambda>r. rat_of_nat (length s) < r)
             (path @ '' must contain at least '') '' characters'',
           bound_errors fr schema ''maxLength'' (\<lambda>r. rat_of_nat (length s) > r)
             (path @ '' must contain at most '') '' characters'']"

definition validate_number :: "(rat \<Rightarrow> string) \<Rightarrow> rat \<Rightarrow> json_obj \<Rightarrow> string \<Rightarrow> messages" where
  "validate_number fr n schema path =
     seqs [bound_errors fr schema ''minimum'' (\<lambda>r. n < r) (path @ '' must be at least '') [],
           bound_errors fr schema ''maximum'' (\<lambda>r. n > r) (path @ '' must be at most '') []]"

text \<open>What is checked before the parts of the value, the parts with their schemas and paths, and
  what is checked after them.\<close>

definition errors_before :: "(rat \<Rightarrow> string) \<Rightarrow> json \<Rightarrow> json_obj \<Rightarrow> string \<Rightarrow> messages" where
  "errors_before fr v schema path =
     (case v of
        JObj kvs \<Rightarrow>
          seqs [required_errors fr kvs schema path,
                case properties_of schema of Inl e \<Rightarrow> Inl e | Inr _ \<Rightarrow> Inr []]
      | JArr xs \<Rightarrow> length_errors fr xs schema path
      | JStr s \<Rightarrow> validate_string fr s schema path
      | _ \<Rightarrow> if is_number v then validate_number fr (the (json_number v)) schema path else Inr [])"

lemmas shape_errors_defs = errors_before_def required_errors_def length_errors_def
  validate_string_def validate_number_def

definition index_path :: "string \<Rightarrow> nat \<Rightarrow> string" where
  "index_path path i = path @ ''['' @ show_nat i @ '']''"

definition parts :: "json \<Rightarrow> json_obj \<Rightarrow> string \<Rightarrow> (json \<times> json_obj \<times> string) list" where
  "parts v schema path =
     (case v of
        JObj kvs \<Rightarrow>
          concat (map (\<lambda>(key, sub). case (map_of kvs key, sub) of
              (Some x, JObj s) \<Rightarrow> [(x, s, path @ ''.'' @ key)] | _ \<Rightarrow> []) (property_list schema))
      | JArr xs \<Rightarrow>
          (case map_of schema ''items'' of
             Some (JObj s) \<Rightarrow> map (\<lambda>(i, x). (x, s, index_path path i)) (zip [0..<length xs] xs)
           | _ \<Rightarrow> [])
      | _ \<Rightarrow> [])"

definition errors_after :: "json \<Rightarrow> json_obj \<Rightarrow> string \<Rightarrow> messages" where
  "errors_after v schema path =
     (case v of
        JObj kvs \<Rightarrow> Inr (map (\<lambda>k. path @ ''.'' @ k @ '' is not allowed'') (additional_keys (map fst kvs) schema))
      | _ \<Rightarrow> Inr [])"

lemma part_smaller: "(x, s, p) \<in> set (parts v schema path) \<Longrightarrow> size x < size v"
proof -
  have member: "map_of kvs k = Some x \<Longrightarrow> size x < size (JObj kvs)" for k kvs x
    by (induction kvs) (auto split: if_splits)
  have item: "x \<in> set xs \<Longrightarrow> size x < size (JArr xs)" for xs x
    by (simp add: size_list_estimation less_Suc_eq_le size_list_estimation')
  show "(x, s, p) \<in> set (parts v schema path) \<Longrightarrow> size x < size v"
    using member item
    by (auto simp: parts_def split: json.splits option.splits dest: set_zip_rightD)
qed

function validate_value :: "(rat \<Rightarrow> string) \<Rightarrow> json \<Rightarrow> json_obj \<Rightarrow> string \<Rightarrow> messages" where
  "validate_value fr v schema path =
     (if \<not> type_ok v schema
      then Inr [path @ '' expected '' @ py_str fr (the (keyword schema ''type''))]
      else seqs ([enum_errors fr v schema path, errors_before fr v schema path]
        @ map (\<lambda>(x, s, p). validate_value fr x s p) (parts v schema path)
        @ [errors_after v schema path]))"
  by pat_completeness auto
termination
  by (relation "measure (\<lambda>(_, v, _, _). size v)") (auto dest: part_smaller)

declare validate_value.simps [simp del]

text \<open>\<open>JsonSchemaValidator.validate\<close>: the verdict and the messages.\<close>

definition validate :: "(rat \<Rightarrow> string) \<Rightarrow> json_obj \<Rightarrow> json \<Rightarrow> error + bool \<times> string list" where
  "validate fr schema v =
     (case validate_value fr v schema ''$'' of
        Inl e \<Rightarrow> Inl e
      | Inr errors \<Rightarrow> Inr (errors = [], errors))"

section \<open>What a value must satisfy\<close>

text \<open>The part \<open>x\<close> of a value that the part \<open>sub\<close> of the schema speaks of.\<close>

inductive part_of :: "json \<Rightarrow> json_obj \<Rightarrow> json \<Rightarrow> json_obj \<Rightarrow> bool" where
  member: "(k, JObj sub) \<in> set (property_list schema) \<Longrightarrow> map_of kvs k = Some x \<Longrightarrow> part_of (JObj kvs) schema x sub"
| element: "map_of schema ''items'' = Some (JObj sub) \<Longrightarrow> x \<in> set xs \<Longrightarrow> part_of (JArr xs) schema x sub"

inductive_cases part_of_objectE: "part_of (JObj kvs) schema x sub"
inductive_cases part_of_arrayE: "part_of (JArr xs) schema x sub"







text \<open>Schemas the validator never raises on.\<close>

inductive subschema :: "json_obj \<Rightarrow> json_obj \<Rightarrow> bool" where
  of_property: "(k, JObj sub) \<in> set (property_list schema) \<Longrightarrow> subschema schema sub"
| of_items: "map_of schema ''items'' = Some (JObj sub) \<Longrightarrow> subschema schema sub"

inductive schema_ok :: "json_obj \<Rightarrow> bool" where
  schema_ok: "(\<forall>c. map_of schema ''enum'' = Some c \<longrightarrow> (\<exists>xs. c = JArr xs)) \<Longrightarrow>
   (\<forall>c. map_of schema ''required'' = Some c \<longrightarrow> (\<exists>ks. c = JArr (map JStr ks))) \<Longrightarrow>
   (\<forall>c. map_of schema ''properties'' = Some c \<longrightarrow> (\<exists>ps. c = JObj ps)) \<Longrightarrow>
   (\<forall>k \<in> {''minItems'', ''maxItems'', ''minLength'', ''maxLength'', ''minimum'', ''maximum''}.
      \<forall>j. keyword schema k = Some j \<longrightarrow> json_number j \<noteq> None) \<Longrightarrow>
   (\<And>sub. subschema schema sub \<Longrightarrow> schema_ok sub) \<Longrightarrow> schema_ok schema"

inductive_cases schema_okE: "schema_ok schema"

section \<open>The messages say what is wrong\<close>


lemma seqs_returns: "(\<exists>xs. seqs ms = Inr xs) \<longleftrightarrow> (\<forall>m \<in> set ms. \<exists>xs. m = Inr xs)"
  by (induction ms rule: seqs.induct) (auto split: sum.splits)

lemma array_parts:
  "(\<exists>p. (x, sub, p) \<in> set (parts (JArr xs) schema path)) \<longleftrightarrow>
   map_of schema ''items'' = Some (JObj sub) \<and> x \<in> set xs"
proof (cases "map_of schema ''items''")
  case None
  then show ?thesis by (simp add: parts_def)
next
  case (Some j)
  have "x \<in> set xs \<longleftrightarrow> (\<exists>i < length xs. xs ! i = x)" by (auto simp: in_set_conv_nth)
  then show ?thesis
    using Some by (cases j) (auto simp: parts_def image_iff set_zip)
qed

lemma parts_part_of: "(\<exists>p. (x, sub, p) \<in> set (parts v schema path)) \<longleftrightarrow> part_of v schema x sub"
proof (cases v)
  case (JArr xs)
  then show ?thesis by (simp add: array_parts part_of.simps)
next
  case (JObj kvs)
  show ?thesis
    by (force simp: JObj parts_def part_of.simps split: option.splits json.splits)
qed (auto simp: parts_def elim: part_of.cases)









section \<open>Well-formed schemas\<close>

lemma bound_errors_return:
  "schema_ok schema \<Longrightarrow>
   k \<in> {''minItems'', ''maxItems'', ''minLength'', ''maxLength'', ''minimum'', ''maximum''} \<Longrightarrow>
   \<exists>es. bound_errors fr schema k bad b a = Inr es"
  by (elim schema_okE) (fastforce simp: bound_errors_def split: option.splits)

lemma bounds_return:
  assumes "schema_ok schema"
    "{k, k'} \<subseteq> {''minItems'', ''maxItems'', ''minLength'', ''maxLength'', ''minimum'', ''maximum''}"
  shows "\<exists>es. seqs [bound_errors fr schema k bad b a, bound_errors fr schema k' bad' b' a'] = Inr es"
  using bound_errors_return [OF assms(1), of k] bound_errors_return [OF assms(1), of k'] assms(2)
  by (auto simp: seqs_returns simp del: seqs.simps)

lemma enum_errors_return: "schema_ok schema \<Longrightarrow> \<exists>es. enum_errors fr v schema path = Inr es"
  by (elim schema_okE) (auto simp: enum_errors_def py_in_def split: option.splits)

lemma required_errors_return:
  assumes "schema_ok schema"
  shows "\<exists>items. required_items schema = Inr items \<and>
    (\<exists>es. seqs (map (required_error fr keys path) items) = Inr es)"
proof (cases "map_of schema ''required''")
  case (Some c)
  then obtain ks where "c = JArr (map JStr ks)"
    using assms by (elim schema_okE) blast
  then show ?thesis
    using Some by (auto simp add: required_items_def seqs_returns required_error_def)
qed (simp add: required_items_def)

lemma properties_return: "schema_ok schema \<Longrightarrow> \<exists>ps. properties_of schema = Inr ps"
  by (elim schema_okE) (auto simp: properties_of_def split: option.splits)

lemma errors_before_return:
  assumes "schema_ok schema"
  shows "\<exists>es. errors_before fr v schema path = Inr es"
proof (cases v)
  case (JObj kvs)
  obtain items es ps where "required_items schema = Inr items" "properties_of schema = Inr ps"
    "seqs (map (required_error fr (map fst kvs) path) items) = Inr es"
    using required_errors_return [OF assms] properties_return [OF assms] by blast
  then show ?thesis by (simp add: JObj shape_errors_defs)
qed (use assms in \<open>auto simp: shape_errors_defs is_number_def simp del: seqs.simps intro!: bounds_return\<close>)

lemma part_schema_ok: "schema_ok schema \<Longrightarrow> (x, sub, p) \<in> set (parts v schema path) \<Longrightarrow> schema_ok sub"
proof -
  assume "schema_ok schema" and "(x, sub, p) \<in> set (parts v schema path)"
  then have "part_of v schema x sub" using parts_part_of by blast
  then have "subschema schema sub"
    by (cases rule: part_of.cases) (auto intro: subschema.intros)
  then show "schema_ok sub" using \<open>schema_ok schema\<close> by (elim schema_okE) blast
qed

lemma validate_value_returns:
  "schema_ok schema \<Longrightarrow> \<exists>es. validate_value fr v schema path = Inr es"
proof (induction fr v schema path rule: validate_value.induct)
  case (1 fr v schema path)
  show ?case
  proof (cases "type_ok v schema")
    case True
    have "\<exists>es. errors_after v schema path = Inr es"
      by (auto simp: errors_after_def split: json.splits)
    moreover have "\<exists>es. validate_value fr x s p = Inr es" if "(x, s, p) \<in> set (parts v schema path)" for x s p
      using "1.IH" True that part_schema_ok [OF "1.prems" that] by blast
    ultimately show ?thesis
      using True enum_errors_return [OF "1.prems"] errors_before_return [OF "1.prems"]
      by (auto simp: validate_value.simps [of fr v schema path] seqs_returns simp del: seqs.simps)
  qed (simp add: validate_value.simps [of fr v schema path])
qed

section \<open>What the validator guarantees\<close>


text \<open>C24: A well-formed schema never makes the validator raise: when, hereditarily, the enumeration is
  a list, \<open>required\<close> a list of strings, \<open>properties\<close> an object and every bound a number, each JSON
  value whatsoever gets a verdict.\<close>

theorem well_formed_schemas_give_a_verdict:
  assumes "schema_ok schema"
  shows "\<exists>verdict errors. validate fr schema v = Inr (verdict, errors)"
  using validate_value_returns [OF assms, of fr v "''$''"] by (auto simp: validate_def)

definition query_schema :: json_obj where
  "query_schema = [(''type'', JStr ''object''), (''required'', JArr [JStr ''q'']),
     (''properties'', JObj [(''q'', JObj [(''minLength'', JInt 1)])]),
     (''additionalProperties'', JBool False)]"


lemma query_schema_ok: "schema_ok query_schema"
proof (rule schema_ok)
  fix sub
  assume "subschema query_schema sub"
  then have sub: "sub = [(''minLength'', JInt 1)]"
    by (auto simp: query_schema_def property_list_def properties_of_def elim!: subschema.cases)
  have leaf: "\<not> subschema [(''minLength'', JInt 1)] s" for s
    by (auto simp: property_list_def properties_of_def elim!: subschema.cases)
  show "schema_ok sub"
    unfolding sub by (rule schema_ok) (auto simp: keyword_def leaf)
next
  show "\<forall>c. map_of query_schema ''required'' = Some c \<longrightarrow> (\<exists>ks. c = JArr (map JStr ks))"
    by (intro allI impI exI [of _ "[''q'']"]) (simp add: query_schema_def)
qed (auto simp: query_schema_def keyword_def)

theorem well_formed_schemas_give_a_verdict_witness:
  "schema_ok query_schema \<and> (\<exists>verdict errors. validate (\<lambda>_. []) query_schema JNull = Inr (verdict, errors))"
  using well_formed_schemas_give_a_verdict [OF query_schema_ok] query_schema_ok by blast

end
