(* ===== verification/Base64.thy ===== *)
theory Base64
  imports Prelude
begin

text \<open>
  \<open>base64.urlsafe_b64encode\<close> and \<open>urlsafe_b64decode\<close> of the standard library, and the way
  \<^verbatim>\<open>api/pagination.py\<close> and \<^verbatim>\<open>auth/service.py\<close> use them: the padding is stripped from the encoded
  text and restored before decoding. Bytes are characters.
\<close>

section \<open>\<open>base64\<close> with the URL-safe alphabet\<close>

definition b64_digit :: "nat \<Rightarrow> char" where
  "b64_digit n =
     (if n < 26 then char_of (65 + n)
      else if n < 52 then char_of (71 + n)
      else if n < 62 then char_of (n - 4)
      else if n = 62 then CHR ''-'' else CHR ''_'')"

text \<open>The reader translates \<open>-\<close> and \<open>_\<close> and accepts \<open>+\<close> and \<open>/\<close> too.\<close>

definition b64_value :: "char \<Rightarrow> nat option" where
  "b64_value c =
     (let n = of_char c :: nat in
      if 65 \<le> n \<and> n \<le> 90 then Some (n - 65)
      else if 97 \<le> n \<and> n \<le> 122 then Some (n - 71)
      else if 48 \<le> n \<and> n \<le> 57 then Some (n + 4)
      else if n = 45 \<or> n = 43 then Some 62
      else if n = 95 \<or> n = 47 then Some 63
      else None)"

fun urlsafe_b64encode :: "string \<Rightarrow> string" where
  "urlsafe_b64encode [] = []"
| "urlsafe_b64encode [a] =
     (let x = of_char a in [b64_digit (x div 4), b64_digit (x mod 4 * 16), CHR ''='', CHR ''=''])"
| "urlsafe_b64encode [a, b] =
     (let x = of_char a; y = of_char b in
      [b64_digit (x div 4), b64_digit (x mod 4 * 16 + y div 16), b64_digit (y mod 16 * 4), CHR ''=''])"
| "urlsafe_b64encode (a # b # c # bytes) =
     (let x = of_char a; y = of_char b; z = of_char c in
      [b64_digit (x div 4), b64_digit (x mod 4 * 16 + y div 16),
       b64_digit (y mod 16 * 4 + z div 64), b64_digit (z mod 64)] @ urlsafe_b64encode bytes)"

text \<open>\<open>binascii.a2b_base64\<close>: the position in the group of four, the bits left over and the number
  of padding characters; other characters are skipped, a complete padding ends the reading.
  \<open>None\<close> is \<open>binascii.Error\<close>.\<close>

fun a2b_base64 :: "nat \<Rightarrow> nat \<Rightarrow> nat \<Rightarrow> string \<Rightarrow> string option" where
  "a2b_base64 quad_pos leftchar pads [] = (if quad_pos \<noteq> 0 then None else Some [])"
| "a2b_base64 quad_pos leftchar pads (ch # chs) =
     (if ch = CHR ''='' then
        (if 2 \<le> quad_pos then
           (if 4 \<le> quad_pos + pads + 1 then Some []
            else a2b_base64 quad_pos leftchar (pads + 1) chs)
         else a2b_base64 quad_pos leftchar pads chs)
      else case b64_value ch of
        None \<Rightarrow> a2b_base64 quad_pos leftchar pads chs
      | Some v \<Rightarrow>
          if quad_pos = 0 then a2b_base64 1 v 0 chs
          else if quad_pos = 1 then
            map_option ((#) (char_of (leftchar * 4 + v div 16))) (a2b_base64 2 (v mod 16) 0 chs)
          else if quad_pos = 2 then
            map_option ((#) (char_of (leftchar * 16 + v div 4))) (a2b_base64 3 (v mod 4) 0 chs)
          else map_option ((#) (char_of (leftchar * 64 + v))) (a2b_base64 0 0 0 chs))"

definition urlsafe_b64decode :: "string \<Rightarrow> string option" where
  "urlsafe_b64decode s = a2b_base64 0 0 0 s"

definition rstrip_char :: "char \<Rightarrow> string \<Rightarrow> string" where
  "rstrip_char c s = rev (dropWhile ((=) c) (rev s))"

text \<open>\<open>"=" * (-len(value) % 4)\<close>\<close>

definition padding :: "string \<Rightarrow> string" where
  "padding value = replicate (nat (- int (length value) mod 4)) CHR ''=''"

lemma b64_digit_value: "n < 64 \<Longrightarrow> b64_value (b64_digit n) = Some n"
proof -
  assume "n < 64"
  then consider "n < 26" | "26 \<le> n \<and> n < 52" | "52 \<le> n \<and> n < 62" | "n = 62" | "n = 63" by linarith
  then show ?thesis by cases (auto simp: b64_digit_def b64_value_def Let_def)
qed

lemma b64_digit_not_padding: "n < 64 \<Longrightarrow> b64_digit n \<noteq> CHR ''=''"
  using b64_digit_value [of n] by (auto simp: b64_value_def)

lemma read_digit:
  "n < 64 \<Longrightarrow> a2b_base64 q l p (b64_digit n # cs) =
     (if q = 0 then a2b_base64 1 n 0 cs
      else if q = 1 then map_option ((#) (char_of (l * 4 + n div 16))) (a2b_base64 2 (n mod 16) 0 cs)
      else if q = 2 then map_option ((#) (char_of (l * 16 + n div 4))) (a2b_base64 3 (n mod 4) 0 cs)
      else map_option ((#) (char_of (l * 64 + n))) (a2b_base64 0 0 0 cs))"
  using b64_digit_not_padding [of n] by (simp add: b64_digit_value)

lemma byte_div: "of_char a div 4 < (64::nat)" "of_char a div 16 < (16::nat)" "of_char a div 64 < (4::nat)"
  using nat_of_char_less_256 [of a] by linarith+

lemma sextets:
  "x mod 4 * 16 + of_char b div 16 < (64::nat)" "x mod 16 * 4 + of_char c div 64 < (64::nat)"
  "x mod 4 * 16 < (64::nat)" "x mod 16 * 4 < (64::nat)" "x mod 64 < (64::nat)"
  using byte_div [of b] byte_div [of c] mod_less_divisor [of 4 x] mod_less_divisor [of 16 x] by linarith+

lemma regroup:
  "x div 4 * 4 + (x mod 4 * 16 + of_char b div 16) div 16 = (x::nat)"
  "(x mod 4 * 16 + of_char b div 16) mod 16 * 16 + (of_char b mod 16 * 4 + of_char c div 64) div 4 = (of_char b :: nat)"
  "(x mod 16 * 4 + of_char c div 64) mod 4 * 64 + of_char c mod 64 = (of_char c :: nat)"
  "x div 4 * 4 + x mod 4 * 16 div 16 = x"
  "(x mod 4 * 16 + of_char b div 16) mod 16 * 16 + of_char b mod 16 * 4 div 4 = (of_char b :: nat)"
  using byte_div [of b] byte_div [of c] by simp_all

lemma b64decode_encode: "urlsafe_b64decode (urlsafe_b64encode bytes) = Some bytes"
  unfolding urlsafe_b64decode_def
  by (induction bytes rule: urlsafe_b64encode.induct)
    (simp_all add: Let_def read_digit byte_div sextets regroup del: a2b_base64.simps(2), simp_all)

definition padded :: "string \<Rightarrow> bool" where
  "padded s \<longleftrightarrow> (\<exists>ds k. s = ds @ replicate k CHR ''='' \<and> CHR ''='' \<notin> set ds \<and> k < 4 \<and> 4 dvd length ds + k)"

lemma padded_group:
  "CHR ''='' \<notin> set ds \<Longrightarrow> k < 4 \<Longrightarrow> length ds + k = 4 \<Longrightarrow> padded (ds @ replicate k CHR ''='')"
  unfolding padded_def by (metis dvd_refl)

lemma padded_append: "padded s \<Longrightarrow> CHR ''='' \<notin> set ds \<Longrightarrow> length ds = 4 \<Longrightarrow> padded (ds @ s)"
proof -
  assume "padded s" and ds: "CHR ''='' \<notin> set ds" "length ds = 4"
  then obtain es k where "s = es @ replicate k CHR ''=''" "CHR ''='' \<notin> set es" "k < 4" "4 dvd length es + k"
    unfolding padded_def by blast
  then show ?thesis
    unfolding padded_def using ds by (intro exI [of _ "ds @ es"] exI [of _ k]) (simp add: add.assoc)
qed

lemma digits_not_padding:
  "CHR ''='' \<notin> set (map b64_digit ns)" if "\<forall>n \<in> set ns. n < 64"
  using that b64_digit_not_padding by fastforce

lemma encoded_padded: "padded (urlsafe_b64encode bytes)"
proof (induction bytes rule: urlsafe_b64encode.induct)
  case 1
  show ?case by (auto simp: padded_def)
next
  case (2 a)
  let ?x = "of_char a :: nat"
  have "CHR ''='' \<notin> set (map b64_digit [?x div 4, ?x mod 4 * 16])"
    by (rule digits_not_padding) (simp add: byte_div sextets)
  then show ?case
    using padded_group [where k = 2 and ds = "map b64_digit [?x div 4, ?x mod 4 * 16]"] by (simp add: Let_def numeral_2_eq_2)
next
  case (3 a b)
  let ?ds = "map b64_digit [of_char a div 4, of_char a mod 4 * 16 + of_char b div 16, of_char b mod 16 * 4]"
  have "CHR ''='' \<notin> set ?ds"
    by (rule digits_not_padding) (simp add: byte_div sextets)
  then show ?case using padded_group [where ds = ?ds and k = 1] by (simp add: Let_def)
next
  case (4 a b c bytes)
  let ?ds = "map b64_digit [of_char a div 4, of_char a mod 4 * 16 + of_char b div 16,
    of_char b mod 16 * 4 + of_char c div 64, of_char c mod 64]"
  have "CHR ''='' \<notin> set ?ds"
    by (rule digits_not_padding) (simp add: byte_div sextets)
  then show ?case using padded_append [OF "4.IH", where ds = ?ds] by (simp add: Let_def)
qed

lemma rstrip_replicate: "c \<notin> set ds \<Longrightarrow> rstrip_char c (ds @ replicate k c) = ds"
proof -
  assume "c \<notin> set ds"
  then have "dropWhile ((=) c) (rev ds) = rev ds"
    by (cases "rev ds") auto
  then have "dropWhile ((=) c) (replicate k c @ rev ds) = rev ds"
    by (induction k) auto
  then show ?thesis by (simp add: rstrip_char_def)
qed

lemma padding_completes: "k < 4 \<Longrightarrow> 4 dvd length ds + k \<Longrightarrow> padding ds = replicate k CHR ''=''"
proof -
  assume k: "k < 4" and "4 dvd length ds + k"
  then have "(4::int) dvd int (length ds) + int k"
    by (metis of_nat_add int_dvd_int_iff of_nat_numeral)
  then have "- int (length ds) mod 4 = int k mod 4"
    by (metis add.commute add_uminus_conv_diff diff_minus_eq_add mod_eq_dvd_iff dvd_minus_iff minus_add_distrib)
  then show ?thesis using k by (simp add: padding_def)
qed

lemma decode_stripped:
  "urlsafe_b64decode (rstrip_char CHR ''='' (urlsafe_b64encode bytes)
     @ padding (rstrip_char CHR ''='' (urlsafe_b64encode bytes))) = Some bytes"
proof -
  obtain ds k where "urlsafe_b64encode bytes = ds @ replicate k CHR ''=''" "CHR ''='' \<notin> set ds"
    "k < 4" "4 dvd length ds + k" using encoded_padded [of bytes] unfolding padded_def by blast
  then show ?thesis
    using b64decode_encode [of bytes] by (simp add: rstrip_replicate padding_completes)
qed

section \<open>The characters of a text\<close>

definition url_safe :: "string \<Rightarrow> bool" where
  "url_safe s \<longleftrightarrow> set s \<subseteq> b64_digit ` {..<64}"

lemma url_safe_ascii: "url_safe s \<Longrightarrow> c \<in> set s \<Longrightarrow> of_char c < (128::nat)"
proof -
  assume "url_safe s" "c \<in> set s"
  then obtain n where n: "n < 64" "c = b64_digit n" by (auto simp: url_safe_def)
  then consider "n < 26" | "26 \<le> n \<and> n < 52" | "52 \<le> n \<and> n < 62" | "n = 62" | "n = 63" by linarith
  then show ?thesis by cases (auto simp: b64_digit_def n(2))
qed

lemma encoded_digits: "set (urlsafe_b64encode bytes) \<subseteq> insert CHR ''='' (b64_digit ` {..<64})"
  by (induction bytes rule: urlsafe_b64encode.induct)
    (auto simp: Let_def byte_div sextets intro!: imageI)

lemma rstrip_padded: "padded s \<Longrightarrow> CHR ''='' \<notin> set (rstrip_char CHR ''='' s) \<and> set (rstrip_char CHR ''='' s) \<subseteq> set s"
  unfolding padded_def using rstrip_replicate by fastforce

lemma encoded_url_safe: "url_safe (rstrip_char CHR ''='' (urlsafe_b64encode bytes))"
  using rstrip_padded [OF encoded_padded [of bytes]] encoded_digits [of bytes]
  unfolding url_safe_def by blast

section \<open>Without padding\<close>

definition encode_bytes :: "string \<Rightarrow> string" where
  "encode_bytes bytes = rstrip_char CHR ''='' (urlsafe_b64encode bytes)"

definition decode_padded :: "string \<Rightarrow> string option" where
  "decode_padded v = urlsafe_b64decode (v @ padding v)"

lemma decode_encode_bytes: "decode_padded (encode_bytes bytes) = Some bytes"
  by (simp add: encode_bytes_def decode_padded_def decode_stripped)

lemma encode_bytes_url_safe: "url_safe (encode_bytes bytes)"
  by (simp add: encode_bytes_def encoded_url_safe)

lemma url_safe_no_dot: "url_safe s \<Longrightarrow> CHR ''.'' \<notin> set s"
proof
  assume "url_safe s" "CHR ''.'' \<in> set s"
  then obtain n where n: "n < 64" "CHR ''.'' = b64_digit n" by (auto simp: url_safe_def)
  then have "b64_value CHR ''.'' = Some n" using b64_digit_value by simp
  then show False by (simp add: b64_value_def)
qed

end
