(* ===== verification/Pagination.thy ===== *)
theory Pagination
  imports Json Base64 StoreActions
begin

text \<open>
  \<^verbatim>\<open>taroai/api/pagination.py\<close>: pages of records sorted by creation time and identifier, and
  the cursor between them, base64 (\<^theory_text>\<open>Base64\<close>) of a small JSON text with the padding stripped.
  How pydantic prints a datetime, and what JSON and
  pydantic make of the bytes of a cursor, are parameters. Bytes are characters.
\<close>

section \<open>Pages\<close>

datatype sort_direction = ASC | DESC

record page_request =
  pq_limit :: nat
  pq_cursor :: "string option"
  pq_sort_direction :: sort_direction

record page_cursor =
  pc_created_at :: py_datetime
  pc_id :: string

text \<open>What the code reads of a record, and its JSON dump; a missing attribute is \<open>None\<close>.\<close>

record page_record =
  pr_created_at :: datetime
  pr_id :: "string option"
  pr_key :: "string option"
  pr_manifest_id :: "string option"
  pr_body :: json_obj

record page_result =
  pg_items :: "json_obj list"
  pg_limit :: nat
  pg_next_cursor :: "string option"
  pg_has_more :: bool

definition record_page_id :: "page_record \<Rightarrow> error + string" where
  "record_page_id r =
     (case pr_id r of
        Some i \<Rightarrow> Inr i
      | None \<Rightarrow>
          (case pr_key r of
             Some k \<Rightarrow> Inr k
           | None \<Rightarrow>
               (case pr_manifest_id r of
                  Some i \<Rightarrow> Inr i
                | None \<Rightarrow> Inl (InvalidPageCursorError ''Record cannot be paginated without an id or key''))))"

definition page_key :: "page_record \<Rightarrow> datetime \<times> string" where
  "page_key r = (pr_created_at r, case record_page_id r of Inl _ \<Rightarrow> [] | Inr i \<Rightarrow> i)"

text \<open>The sort calls \<open>record_page_id\<close> on every record first.\<close>

fun page_keys :: "page_record list \<Rightarrow> error + (datetime \<times> string) list" where
  "page_keys [] = Inr []"
| "page_keys (r # rs) =
     (case record_page_id r of
        Inl e \<Rightarrow> Inl e
      | Inr i \<Rightarrow> (case page_keys rs of Inl e \<Rightarrow> Inl e | Inr ks \<Rightarrow> Inr ((pr_created_at r, i) # ks)))"

definition sorted_records :: "sort_direction \<Rightarrow> page_record list \<Rightarrow> page_record list" where
  "sorted_records dir rs = (case dir of ASC \<Rightarrow> sort_key page_key rs | DESC \<Rightarrow> sorted_desc page_key rs)"

definition cursor_text :: "(datetime \<Rightarrow> string) \<Rightarrow> datetime \<Rightarrow> string \<Rightarrow> string" where
  "cursor_text dump_datetime created_at i =
     json_dumps (\<lambda>_. []) True '','' '':''
       (JObj [(''created_at'', JStr (dump_datetime created_at)), (''id'', JStr i)])"

definition encode_page_cursor :: "(datetime \<Rightarrow> string) \<Rightarrow> page_record \<Rightarrow> error + string" where
  "encode_page_cursor dump_datetime r =
     (case record_page_id r of
        Inl e \<Rightarrow> Inl e
      | Inr i \<Rightarrow>
          if i = [] then Inl (ValidationError ''String should have at least 1 character'')
          else Inr (rstrip_char CHR ''='' (urlsafe_b64encode (cursor_text dump_datetime (pr_created_at r) i))))"

definition decode_page_cursor :: "(string \<Rightarrow> page_cursor option) \<Rightarrow> string \<Rightarrow> error + page_cursor" where
  "decode_page_cursor parse value =
     (let invalid = Inl (InvalidPageCursorError ''Invalid pagination cursor'') in
      if \<exists>c \<in> set value. 128 \<le> (of_char c :: nat) then invalid
      else case urlsafe_b64decode (value @ padding value) of
        None \<Rightarrow> invalid
      | Some bytes \<Rightarrow> (case parse bytes of None \<Rightarrow> invalid | Some cursor \<Rightarrow> Inr cursor))"

definition record_is_after_cursor :: "page_record \<Rightarrow> page_cursor \<Rightarrow> sort_direction \<Rightarrow> error + bool" where
  "record_is_after_cursor r cursor dir =
     (case pc_created_at cursor of
        Naive _ \<Rightarrow> Inl (TypeError ''can't compare offset-naive and offset-aware datetimes'')
      | Aware t \<Rightarrow>
          Inr (case dir of
                 ASC \<Rightarrow> page_key r > (t, pc_id cursor)
               | DESC \<Rightarrow> page_key r < (t, pc_id cursor)))"

fun page_candidates :: "page_cursor option \<Rightarrow> sort_direction \<Rightarrow> page_record list \<Rightarrow> error + page_record list" where
  "page_candidates cursor dir [] = Inr []"
| "page_candidates cursor dir (r # rs) =
     (case (case cursor of None \<Rightarrow> Inr True | Some c \<Rightarrow> record_is_after_cursor r c dir) of
        Inl e \<Rightarrow> Inl e
      | Inr b \<Rightarrow>
          (case page_candidates cursor dir rs of
             Inl e \<Rightarrow> Inl e
           | Inr qs \<Rightarrow> Inr (if b then r # qs else qs)))"

definition page_of :: "(datetime \<Rightarrow> string) \<Rightarrow> nat \<Rightarrow> page_record list \<Rightarrow> error + page_result" where
  "page_of dump_datetime limit candidates =
     (let visible = take (limit + 1) candidates;
          page = take limit visible;
          has_more = length visible > limit;
          result = (\<lambda>next. \<lparr>pg_items = map pr_body page, pg_limit = limit, pg_next_cursor = next, pg_has_more = has_more\<rparr>)
      in if has_more \<and> page \<noteq> []
         then (case encode_page_cursor dump_datetime (last page) of Inl e \<Rightarrow> Inl e | Inr c \<Rightarrow> Inr (result (Some c)))
         else Inr (result None))"

definition paginate_created_at_records ::
  "(datetime \<Rightarrow> string) \<Rightarrow> (string \<Rightarrow> page_cursor option) \<Rightarrow> page_record list \<Rightarrow> page_request \<Rightarrow> error + page_result" where
  "paginate_created_at_records dump_datetime parse records request =
     (case (case pq_cursor request of
              None \<Rightarrow> Inr None
            | Some c \<Rightarrow> (case decode_page_cursor parse c of Inl e \<Rightarrow> Inl e | Inr x \<Rightarrow> Inr (Some x))) of
        Inl e \<Rightarrow> Inl e
      | Inr cursor \<Rightarrow>
          (case page_keys records of
             Inl e \<Rightarrow> Inl e
           | Inr _ \<Rightarrow>
               (case page_candidates cursor (pq_sort_direction request)
                       (sorted_records (pq_sort_direction request) records) of
                  Inl e \<Rightarrow> Inl e
                | Inr candidates \<Rightarrow> page_of dump_datetime (pq_limit request) candidates)))"

text \<open>A client that follows the cursors, for at most \<open>n\<close> requests: the pages it gets and whether it
  reached the end.\<close>

fun walk_pages ::
  "(datetime \<Rightarrow> string) \<Rightarrow> (string \<Rightarrow> page_cursor option) \<Rightarrow> page_record list \<Rightarrow> nat \<Rightarrow> page_request
   \<Rightarrow> error + page_result list \<times> bool" where
  "walk_pages dump_datetime parse records 0 request = Inr ([], False)"
| "walk_pages dump_datetime parse records (Suc n) request =
     (case paginate_created_at_records dump_datetime parse records request of
        Inl e \<Rightarrow> Inl e
      | Inr page \<Rightarrow>
          (case pg_next_cursor page of
             None \<Rightarrow> Inr ([page], True)
           | Some c \<Rightarrow>
               (case walk_pages dump_datetime parse records n (request\<lparr>pq_cursor := Some c\<rparr>) of
                  Inl e \<Rightarrow> Inl e
                | Inr (pages, done) \<Rightarrow> Inr (page # pages, done))))"

section \<open>Cursors\<close>

definition cursor_of :: "page_record \<Rightarrow> page_cursor" where
  "cursor_of r = \<lparr>pc_created_at = Aware (fst (page_key r)), pc_id = snd (page_key r)\<rparr>"

definition has_page_id :: "page_record \<Rightarrow> bool" where
  "has_page_id r \<longleftrightarrow> (\<exists>i. record_page_id r = Inr i \<and> i \<noteq> [])"

lemma encode_cursor:
  "has_page_id r \<Longrightarrow> encode_page_cursor dump_datetime r =
     Inr (rstrip_char CHR ''='' (urlsafe_b64encode (cursor_text dump_datetime (fst (page_key r)) (snd (page_key r)))))"
  by (auto simp: has_page_id_def encode_page_cursor_def page_key_def)

lemma decode_cursor:
  "decode_page_cursor parse (rstrip_char CHR ''='' (urlsafe_b64encode bytes)) =
     (case parse bytes of
        None \<Rightarrow> Inl (InvalidPageCursorError ''Invalid pagination cursor'') | Some c \<Rightarrow> Inr c)"
proof -
  have "\<not> (\<exists>c \<in> set (rstrip_char CHR ''='' (urlsafe_b64encode bytes)). 128 \<le> (of_char c :: nat))"
    using url_safe_ascii [OF encoded_url_safe] by (metis leD)
  then show ?thesis
    by (simp only: decode_page_cursor_def Let_def decode_stripped if_False option.case)
qed

section \<open>Candidates\<close>

definition comes_after :: "sort_direction \<Rightarrow> page_record \<Rightarrow> page_record \<Rightarrow> bool" where
  "comes_after dir a b \<longleftrightarrow> (case dir of ASC \<Rightarrow> page_key b > page_key a | DESC \<Rightarrow> page_key b < page_key a)"

lemma candidates_from_start: "page_candidates None dir rs = Inr rs"
  by (induction rs) auto

lemma candidates_after:
  "page_candidates (Some (cursor_of z)) dir rs = Inr (filter (comes_after dir z) rs)"
  by (induction rs) (auto simp: record_is_after_cursor_def cursor_of_def comes_after_def split: sort_direction.split)

lemma page_keys_return: "\<forall>r \<in> set rs. has_page_id r \<Longrightarrow> \<exists>ks. page_keys rs = Inr ks"
  by (induction rs) (auto simp: has_page_id_def)

lemma strictly_sorted:
  assumes "distinct (map page_key rs)"
  shows "sorted_wrt (comes_after dir) (sorted_records dir rs)"
proof -
  have asc: "sorted_wrt (\<lambda>a b. page_key a < page_key b) (sort_key page_key qs)" if "distinct (map page_key qs)" for qs
  proof -
    have "distinct (map page_key (sort_key page_key qs))"
      using that by (metis distinct_map mset_sort set_mset_mset mset_map mset_eq_imp_distinct_iff)
    then have "sorted_wrt (<) (map page_key (sort_key page_key qs))"
      by (simp add: strict_sorted_iff)
    then show ?thesis by (simp add: sorted_wrt_map)
  qed
  show ?thesis
    using asc [of rs] asc [of "rev rs"] assms
    by (cases dir) (auto simp: sorted_records_def comes_after_def [abs_def] sorted_desc_def sorted_wrt_rev rev_map [symmetric])
qed

lemma comes_after_irrefl: "\<not> comes_after dir a a" 
  by (cases dir) (auto simp: comes_after_def)

lemma comes_after_antisym: "comes_after dir a b \<Longrightarrow> \<not> comes_after dir b a" 
  by (cases dir) (auto simp: comes_after_def)

lemma filter_after:
  "sorted_wrt (comes_after dir) (ys @ z # zs) \<Longrightarrow> filter (comes_after dir z) (ys @ z # zs) = zs"
  by (auto simp: sorted_wrt_append comes_after_irrefl filter_id_conv filter_empty_conv dest: comes_after_antisym)

text \<open>A cursor that was tampered with and carries a time without a zone is decoded, but comparing it
  with a record raises a \<open>TypeError\<close>, not the error for invalid cursors.\<close>

lemma naive_cursor_raises_type_error:
  assumes "decode_page_cursor parse c = Inr \<lparr>pc_created_at = Naive t, pc_id = i\<rparr>"
    and "\<forall>r \<in> set records. has_page_id r" "records \<noteq> []" "pq_cursor request = Some c"
  shows "paginate_created_at_records dump_datetime parse records request
    = Inl (TypeError ''can't compare offset-naive and offset-aware datetimes'')"
proof -
  have "set (sorted_records (pq_sort_direction request) records) = set records"
    by (cases "pq_sort_direction request") (simp_all add: sorted_records_def)
  then obtain r rs where "sorted_records (pq_sort_direction request) records = r # rs"
    using assms(3) by (cases "sorted_records (pq_sort_direction request) records") auto
  then show ?thesis
    using assms(1,4) page_keys_return [OF assms(2)]
    by (auto simp: paginate_created_at_records_def record_is_after_cursor_def)
qed

section \<open>Walking through the pages\<close>

text \<open>What the parameters are relied on for: the text of a cursor is read back as that cursor.\<close>

definition reads_back :: "(datetime \<Rightarrow> string) \<Rightarrow> (string \<Rightarrow> page_cursor option) \<Rightarrow> page_record \<Rightarrow> bool" where
  "reads_back dump_datetime parse r \<longleftrightarrow>
     parse (cursor_text dump_datetime (fst (page_key r)) (snd (page_key r))) = Some (cursor_of r)"

lemma cursor_round_trip:
  assumes "has_page_id r" "reads_back dump_datetime parse r"
  shows "\<exists>c. encode_page_cursor dump_datetime r = Inr c \<and> url_safe c \<and> decode_page_cursor parse c = Inr (cursor_of r)"
  using assms by (simp add: encode_cursor decode_cursor encoded_url_safe reads_back_def)

definition position :: "(string \<Rightarrow> page_cursor option) \<Rightarrow> string option \<Rightarrow> page_record list \<Rightarrow> bool" where
  "position parse cursor ys \<longleftrightarrow>
     (case cursor of
        None \<Rightarrow> ys = []
      | Some c \<Rightarrow> ys \<noteq> [] \<and> decode_page_cursor parse c = Inr (cursor_of (last ys)))"

lemma paginate_at:
  assumes "\<forall>r \<in> set rs. has_page_id r" "distinct (map page_key rs)"
    and sorted: "sorted_records dir rs = ys @ zs" and pos: "position parse cursor ys"
  shows "paginate_created_at_records dump_datetime parse rs \<lparr>pq_limit = n, pq_cursor = cursor, pq_sort_direction = dir\<rparr>
    = page_of dump_datetime n zs"
proof (cases cursor)
  case None
  then show ?thesis
    using pos sorted page_keys_return [OF assms(1)]
    by (auto simp: paginate_created_at_records_def candidates_from_start position_def)
next
  case (Some c)
  then have "ys = butlast ys @ [last ys]" and c: "decode_page_cursor parse c = Inr (cursor_of (last ys))"
    using pos by (auto simp: position_def)
  then have "ys @ zs = butlast ys @ last ys # zs" by (metis append.assoc append_Cons append_Nil)
  then have "filter (comes_after dir (last ys)) (ys @ zs) = zs"
    using filter_after [of dir "butlast ys" "last ys" zs] strictly_sorted [OF assms(2), of dir] sorted by metis
  then show ?thesis
    using Some c sorted page_keys_return [OF assms(1)]
    by (auto simp: paginate_created_at_records_def candidates_after)
qed

lemma page_of_last: "length zs \<le> n \<Longrightarrow> page_of dump_datetime n zs =
    Inr \<lparr>pg_items = map pr_body zs, pg_limit = n, pg_next_cursor = None, pg_has_more = False\<rparr>"
  by (simp add: page_of_def Let_def)

lemma page_of_more: "n < length zs \<Longrightarrow> 0 < n \<Longrightarrow> encode_page_cursor dump_datetime (last (take n zs)) = Inr c \<Longrightarrow>
    page_of dump_datetime n zs =
    Inr \<lparr>pg_items = map pr_body (take n zs), pg_limit = n, pg_next_cursor = Some c, pg_has_more = True\<rparr>"
  by (auto simp: page_of_def Let_def min_def)

definition full_pages :: "nat \<Rightarrow> page_result list \<Rightarrow> bool" where
  "full_pages n pages \<longleftrightarrow>
     (\<forall>p \<in> set pages. length (pg_items p) \<le> n) \<and> (\<forall>p \<in> set (butlast pages). length (pg_items p) = n)"

lemma walk_from:
  assumes "\<forall>r \<in> set rs. has_page_id r" "distinct (map page_key rs)" "0 < n"
    "\<forall>r \<in> set rs. reads_back dump_datetime parse r"
  shows "sorted_records dir rs = ys @ zs \<Longrightarrow> position parse cursor ys \<Longrightarrow> length zs < k \<Longrightarrow>
    \<exists>pages. walk_pages dump_datetime parse rs k \<lparr>pq_limit = n, pq_cursor = cursor, pq_sort_direction = dir\<rparr>
        = Inr (pages, True)
      \<and> concat (map pg_items pages) = map pr_body zs \<and> pages \<noteq> [] \<and> full_pages n pages"
proof (induction k arbitrary: ys zs cursor)
  case (Suc k)
  note page = paginate_at [OF assms(1,2) Suc.prems(1,2), of dump_datetime n]
  show ?case
  proof (cases "length zs \<le> n")
    case True
    then show ?thesis by (simp add: page page_of_last full_pages_def)
  next
    case False
    let ?z = "last (take n zs)"
    have "take n zs \<noteq> []" using False assms(3) by auto
    then have "?z \<in> set (sorted_records dir rs)"
      using Suc.prems(1) by (metis Un_iff last_in_set set_append in_set_takeD)
    then have "?z \<in> set rs" by (cases dir) (auto simp: sorted_records_def)
    then obtain c where c: "encode_page_cursor dump_datetime ?z = Inr c" "decode_page_cursor parse c = Inr (cursor_of ?z)"
      using assms cursor_round_trip by blast
    have pos: "position parse (Some c) (ys @ take n zs)"
      using c(2) \<open>take n zs \<noteq> []\<close> by (simp add: position_def)
    obtain pages where IH: "walk_pages dump_datetime parse rs k
        \<lparr>pq_limit = n, pq_cursor = Some c, pq_sort_direction = dir\<rparr> = Inr (pages, True)"
      "concat (map pg_items pages) = map pr_body (drop n zs)" "pages \<noteq> []" "full_pages n pages"
    proof -
      have "length (drop n zs) < k" "sorted_records dir rs = (ys @ take n zs) @ drop n zs"
        using Suc.prems False assms(3) by auto
      then show ?thesis using Suc.IH [OF _ pos] that by blast
    qed
    have "page_of dump_datetime n zs = Inr \<lparr>pg_items = map pr_body (take n zs), pg_limit = n,
        pg_next_cursor = Some c, pg_has_more = True\<rparr>"
      using False assms(3) c(1) by (simp add: page_of_more)
    then show ?thesis
      using IH False by (auto simp: page full_pages_def simp flip: map_append)
  qed
qed simp

text \<open>C26: A cursor survives the round trip. The cursor the pager hands out for a record with an
  identifier consists of URL-safe characters, without padding, and is decoded to the creation time
  and identifier of that record, provided that JSON and pydantic read back the text they wrote.\<close>

theorem cursors_round_trip:
  assumes "record_page_id r = Inr i" "i \<noteq> []"
    and "parse (cursor_text dump_datetime (pr_created_at r) i)
      = Some \<lparr>pc_created_at = Aware (pr_created_at r), pc_id = i\<rparr>"
  shows "\<exists>c. encode_page_cursor dump_datetime r = Inr c \<and> url_safe c
    \<and> decode_page_cursor parse c = Inr \<lparr>pc_created_at = Aware (pr_created_at r), pc_id = i\<rparr>"
  using cursor_round_trip [of r dump_datetime parse] assms
  by (simp add: has_page_id_def reads_back_def cursor_of_def page_key_def)

text \<open>C25: Following the cursors shows each record exactly once, in order. A client that starts without
  a cursor and follows \<open>next_cursor\<close> reaches the end, after at most one request more than there
  are records; the items of its pages, put together, are the records sorted by creation time and
  identifier in the requested direction; no page exceeds the limit and all but the last are full.\<close>

theorem pages_list_every_record_once:
  assumes "0 < n" "\<forall>r \<in> set records. has_page_id r" "distinct (map page_key records)"
    and "\<forall>r \<in> set records. reads_back dump_datetime parse r"
  shows "\<exists>pages. walk_pages dump_datetime parse records (length records + 1)
        \<lparr>pq_limit = n, pq_cursor = None, pq_sort_direction = dir\<rparr> = Inr (pages, True)
      \<and> concat (map pg_items pages) = map pr_body (sorted_records dir records)
      \<and> (\<forall>p \<in> set pages. length (pg_items p) \<le> n) \<and> (\<forall>p \<in> set (butlast pages). length (pg_items p) = n)"
proof -
  have "length (sorted_records dir records) = length records"
    by (cases dir) (simp_all add: sorted_records_def sorted_desc_def)
  moreover have "position parse None []" by (simp add: position_def)
  ultimately show ?thesis
    using walk_from [OF assms(2,3,1,4), of dir "[]" "sorted_records dir records" None "length records + 1"]
    by (auto simp: full_pages_def)
qed

definition demo_records :: "page_record list" where
  "demo_records = map (\<lambda>(t, i). \<lparr>pr_created_at = t, pr_id = Some i, pr_key = None, pr_manifest_id = None,
     pr_body = [(''id'', JStr i)]\<rparr>) [(1, ''b''), (2, ''a''), (1, ''a'')]"

definition demo_parse :: "string \<Rightarrow> page_cursor option" where
  "demo_parse bytes = map_option cursor_of (find (\<lambda>r. cursor_text show_int (fst (page_key r)) (snd (page_key r)) = bytes) demo_records)"

theorem cursors_round_trip_witness:
  "decode_page_cursor demo_parse ''eyJjcmVhdGVkX2F0IjoiMSIsImlkIjoiYiJ9''
     = Inr \<lparr>pc_created_at = Aware 1, pc_id = ''b''\<rparr>"
proof -
  have "record_page_id (hd demo_records) = Inr ''b''" "pr_created_at (hd demo_records) = 1"
    "encode_page_cursor show_int (hd demo_records) = Inr ''eyJjcmVhdGVkX2F0IjoiMSIsImlkIjoiYiJ9''"
    "demo_parse (cursor_text show_int 1 ''b'') = Some \<lparr>pc_created_at = Aware 1, pc_id = ''b''\<rparr>"
    by code_simp+
  then show ?thesis
    using cursors_round_trip [of "hd demo_records" "''b''" demo_parse show_int] by simp
qed

theorem pages_list_every_record_once_witness:
  "\<exists>pages. walk_pages show_int demo_parse demo_records 4
        \<lparr>pq_limit = 2, pq_cursor = None, pq_sort_direction = DESC\<rparr> = Inr (pages, True)
      \<and> concat (map pg_items pages) = [[(''id'', JStr ''a'')], [(''id'', JStr ''b'')], [(''id'', JStr ''a'')]]"
proof -
  have ids: "\<forall>r \<in> set demo_records. has_page_id r"
    by (simp add: demo_records_def has_page_id_def record_page_id_def)
  have keys: "distinct (map page_key demo_records)" by code_simp
  have reads: "\<forall>r \<in> set demo_records. reads_back show_int demo_parse r" by code_simp
  have sorted: "map pr_body (sorted_records DESC demo_records)
      = [[(''id'', JStr ''a'')], [(''id'', JStr ''b'')], [(''id'', JStr ''a'')]]" by code_simp
  have "length demo_records + 1 = 4" by (simp add: demo_records_def)
  with pages_list_every_record_once [OF _ ids keys reads, of 2 DESC] show ?thesis
    unfolding sorted by (metis pos2)
qed

end
