(* ===== verification/PyText.thy ===== *)
theory PyText
  imports AgentModels Json
begin

text \<open>
  The string methods of Python that the modelled services share, on code points below 256:
  \<open>lower\<close>, \<open>split\<close>, \<open>removeprefix\<close>, \<open>encode("utf-8")\<close>, \<open>int\<close>, \<open>json.dumps\<close> with sorted keys, and
  \<open>hmac.compare_digest\<close> on strings. \<open>strip\<close> is in \<^theory_text>\<open>AgentModels\<close>.
\<close>

section \<open>Strings\<close>

text \<open>\<open>str.lower\<close> on code points below 256.\<close>

definition py_lower_char :: "char \<Rightarrow> char" where
  "py_lower_char c =
     (let n = of_char c :: nat in
      if 65 \<le> n \<and> n \<le> 90 \<or> 192 \<le> n \<and> n \<le> 222 \<and> n \<noteq> 215 then char_of (n + 32) else c)"

definition py_lower :: "string \<Rightarrow> string" where "py_lower s = map py_lower_char s"

fun split_on :: "char \<Rightarrow> string \<Rightarrow> string list" where
  "split_on sep [] = [[]]"
| "split_on sep (c # cs) =
     (if c = sep then [] # split_on sep cs
      else case split_on sep cs of [] \<Rightarrow> [[c]] | part # parts \<Rightarrow> (c # part) # parts)"

definition removeprefix :: "string \<Rightarrow> string \<Rightarrow> string" where
  "removeprefix p s = (if take (length p) s = p then drop (length p) s else s)"

text \<open>The part before the first separator and the part after it.\<close>

definition cut :: "char \<Rightarrow> string \<Rightarrow> string \<times> string" where
  "cut c s = (takeWhile ((\<noteq>) c) s, tl (dropWhile ((\<noteq>) c) s))"

definition utf8_encode :: "string \<Rightarrow> string" where
  "utf8_encode s = concat (map (\<lambda>c. let n = of_char c :: nat in
     if n < 128 then [c] else [char_of (192 + n div 64), char_of (128 + n mod 64)]) s)"

definition is_ascii :: "string \<Rightarrow> bool" where
  "is_ascii s \<longleftrightarrow> (\<forall>c \<in> set s. (of_char c :: nat) < 128)"

text \<open>On strings, \<open>compare_digest\<close> accepts ASCII only.\<close>

definition compare_digest :: "string \<Rightarrow> string \<Rightarrow> error + bool" where
  "compare_digest a b =
     (if is_ascii a \<and> is_ascii b then Inr (a = b)
      else Inl (TypeError ''comparing strings with non-ASCII characters is not supported''))"

text \<open>\<open>json.dumps(v, sort_keys=True)\<close> sorts the keys of every object.\<close>

fun sort_keys :: "json \<Rightarrow> json" where
  "sort_keys (JObj kvs) = JObj (sort_key fst (map (\<lambda>kv. (fst kv, sort_keys (snd kv))) kvs))"
| "sort_keys (JArr xs) = JArr (map sort_keys xs)"
| "sort_keys v = v"

section \<open>Numbers and words in a text\<close>

fun split_words :: "string \<Rightarrow> string \<Rightarrow> string list" where
  "split_words current [] = (if current = [] then [] else [rev current])"
| "split_words current (c # cs) =
     (if \<not> py_space c then split_words (c # current) cs
      else if current = [] then split_words [] cs
      else rev current # split_words [] cs)"

definition is_digit :: "char \<Rightarrow> bool" where
  "is_digit c \<longleftrightarrow> (let n = of_char c :: nat in 48 \<le> n \<and> n \<le> 57)"

text \<open>Decimal digits, with single underscores between them.\<close>

fun read_digits :: "nat \<Rightarrow> bool \<Rightarrow> string \<Rightarrow> nat option" where
  "read_digits acc after_digit [] = (if after_digit then Some acc else None)"
| "read_digits acc after_digit (c # cs) =
     (if is_digit c then read_digits (acc * 10 + (of_char c - 48)) True cs
      else if c = CHR ''_'' \<and> after_digit then read_digits acc False cs
      else None)"

text \<open>\<open>int(s)\<close> with its limit on the number of digits.\<close>

definition py_int :: "string \<Rightarrow> error + int" where
  "py_int s =
     (let t = py_strip s;
          unsigned = (case t of c # cs \<Rightarrow> if c = CHR ''+'' \<or> c = CHR ''-'' then cs else t | [] \<Rightarrow> []);
          digits = length (filter is_digit unsigned) in
      case read_digits 0 False unsigned of
        None \<Rightarrow> Inl (ValueError (''invalid literal for int() with base 10: '' @ repr_string s))
      | Some n \<Rightarrow>
          if digits > 4300
          then Inl (ValueError (''Exceeds the limit (4300 digits) for integer string conversion: value has ''
            @ show_nat digits @ '' digits; use sys.set_int_max_str_digits() to increase the limit''))
          else Inr (if t \<noteq> [] \<and> hd t = CHR ''-'' then - int n else int n))"

end
