(* ===== verification/Triggers.thy ===== *)
theory Triggers
  imports StoreActions PyText
begin

text \<open>
  \<^verbatim>\<open>taroai/triggers\<close>: trigger definitions and their validators (\<^verbatim>\<open>models.py\<close>), the trigger service
  with its in-memory store (\<^verbatim>\<open>service.py\<close>), the matching of connector events (\<^verbatim>\<open>events.py\<close>), the
  guard of agent handoffs (\<^verbatim>\<open>handoff.py\<close>) and the operational summary (\<^verbatim>\<open>operations.py\<close>). The
  schedules are in \<^theory_text>\<open>CronSchedule\<close>. Field constraints are those of the records' constructors;
  which time zones exist is a parameter.
\<close>

section \<open>Definitions and their validators\<close>

datatype trigger_type = TT_SCHEDULE | TT_WEBHOOK | TT_API | TT_CONNECTOR_EVENT | TT_AGENT_HANDOFF

fun trigger_type_value :: "trigger_type \<Rightarrow> string" where
  "trigger_type_value TT_SCHEDULE = ''schedule''"
| "trigger_type_value TT_WEBHOOK = ''webhook''"
| "trigger_type_value TT_API = ''api''"
| "trigger_type_value TT_CONNECTOR_EVENT = ''connector_event''"
| "trigger_type_value TT_AGENT_HANDOFF = ''agent_handoff''"

datatype trigger_status = TRIGGER_ENABLED | TRIGGER_DISABLED

record trigger_schedule_config =
  sc_cron_expression :: string
  sc_timezone :: string
  sc_starts_at :: "py_datetime option"
  sc_ends_at :: "py_datetime option"
  sc_max_catch_up_runs :: int

record trigger_connector_event_config =
  ce_connector_id :: string
  ce_event_type :: string
  ce_payload_equals :: json_obj

record trigger_agent_handoff_config =
  ah_target_agent_id :: string
  ah_max_depth :: int
  ah_required_permissions :: "string list"

record trigger_definition_create =
  tg_tenant_id :: string
  tg_workspace_id :: string
  tg_agent_id :: "string option"
  tg_created_by_user_id :: "string option"
  tg_service_account_id :: "string option"
  tg_type :: trigger_type
  tg_name :: string
  tg_status :: trigger_status
  tg_input_template :: json_obj
  tg_policy_profile :: "string option"
  tg_budget_profile :: "string option"
  tg_schedule :: "trigger_schedule_config option"
  tg_connector_event :: "trigger_connector_event_config option"
  tg_agent_handoff :: "trigger_agent_handoff_config option"
  tg_next_run_at :: "py_datetime option"

record trigger_definition = trigger_definition_create +
  tg_id :: string
  tg_created_at :: datetime
  tg_updated_at :: datetime

text \<open>Comparing a time with and one without a zone is a \<open>TypeError\<close>.\<close>

fun py_datetime_gt :: "py_datetime \<Rightarrow> py_datetime \<Rightarrow> error + bool" where
  "py_datetime_gt (Naive a) (Naive b) = Inr (a > b)"
| "py_datetime_gt (Aware a) (Aware b) = Inr (a > b)"
| "py_datetime_gt _ _ = Inl (TypeError ''can't compare offset-naive and offset-aware datetimes'')"

definition validate_schedule_config ::
  "(string \<Rightarrow> bool) \<Rightarrow> trigger_schedule_config \<Rightarrow> error + trigger_schedule_config" where
  "validate_schedule_config zone_known c =
     (if \<not> zone_known (sc_timezone c)
      then Inl (ValidationError (''unknown timezone: '' @ sc_timezone c))
      else case (sc_starts_at c, sc_ends_at c) of
        (Some starts_at, Some ends_at) \<Rightarrow>
          (case py_datetime_gt starts_at ends_at of
             Inl e \<Rightarrow> Inl e
           | Inr True \<Rightarrow> Inl (ValidationError ''schedule starts_at must be before ends_at'')
           | Inr False \<Rightarrow> Inr c)
      | _ \<Rightarrow> Inr c)"

definition json_scalar :: "json \<Rightarrow> bool" where
  "json_scalar v \<longleftrightarrow> (case v of JArr _ \<Rightarrow> False | JObj _ \<Rightarrow> False | _ \<Rightarrow> True)"

fun validate_payload_equals :: "json_obj \<Rightarrow> error + json_obj" where
  "validate_payload_equals [] = Inr []"
| "validate_payload_equals ((key, expected) # rest) =
     (if py_strip key = []
      then Inl (ValidationError ''connector event payload match keys must not be empty'')
      else if \<not> json_scalar expected
      then Inl (ValidationError ''connector event payload match values must be scalar'')
      else map_sum id ((#) (key, expected)) (validate_payload_equals rest))"

definition validate_required_permissions :: "string list \<Rightarrow> error + string list" where
  "validate_required_permissions ps =
     (let normalized = map py_strip ps in
      if [] \<in> set normalized
      then Inl (ValidationError ''agent handoff required permissions must not be empty'')
      else Inr (rev (remdups (rev normalized))))"

text \<open>The checks \<open>TriggerCreateRequest\<close> and \<open>TriggerDefinitionCreate\<close> share, in their order.\<close>

definition validate_schedule_contract :: "'a trigger_definition_create_scheme \<Rightarrow> error + unit" where
  "validate_schedule_contract t =
     (if tg_type t = TT_SCHEDULE \<and> tg_schedule t = None
      then Inl (ValidationError ''schedule trigger requires schedule config'')
      else if tg_type t \<noteq> TT_SCHEDULE \<and> tg_schedule t \<noteq> None
      then Inl (ValidationError ''schedule config is only valid for schedule triggers'')
      else if tg_type t = TT_CONNECTOR_EVENT \<and> tg_connector_event t = None
      then Inl (ValidationError ''connector event trigger requires connector_event config'')
      else if tg_type t \<noteq> TT_CONNECTOR_EVENT \<and> tg_connector_event t \<noteq> None
      then Inl (ValidationError ''connector_event config is only valid for connector event triggers'')
      else if tg_type t = TT_AGENT_HANDOFF \<and> tg_agent_handoff t = None
      then Inl (ValidationError ''agent handoff trigger requires agent_handoff config'')
      else if tg_type t \<noteq> TT_AGENT_HANDOFF \<and> tg_agent_handoff t \<noteq> None
      then Inl (ValidationError ''agent_handoff config is only valid for agent handoff triggers'')
      else Inr ())"

definition validate_trigger_contract :: "'a trigger_definition_create_scheme \<Rightarrow> error + unit" where
  "validate_trigger_contract t =
     (if \<not> truthy (tg_created_by_user_id t) \<and> \<not> truthy (tg_service_account_id t)
      then Inl (ValidationError ''trigger requires created_by_user_id or service_account_id'')
      else validate_schedule_contract t)"

section \<open>The trigger service\<close>

record trigger_store = world +
  triggers :: "(string, trigger_definition) dict"

definition new_trigger :: "trigger_definition_create \<Rightarrow> string \<Rightarrow> datetime \<Rightarrow> datetime \<Rightarrow> trigger_definition" where
  "new_trigger payload i created_at updated_at =
     trigger_definition_create.extend payload
       \<lparr>tg_id = i, tg_created_at = created_at, tg_updated_at = updated_at\<rparr>"

definition create_trigger :: "trigger_definition_create \<Rightarrow> (trigger_store, trigger_definition) op" where
  "create_trigger payload =
     andThen (new_id ''trigger'') (\<lambda>i.
     andThen utc_now (\<lambda>created_at.
     andThen utc_now (\<lambda>updated_at.
     case validate_trigger_contract payload of
       Inl e \<Rightarrow> raise e
     | Inr _ \<Rightarrow>
         let t = new_trigger payload i created_at updated_at in
         andThen (modify (\<lambda>s. s\<lparr>triggers := dict_set i t (triggers s)\<rparr>)) (\<lambda>_. ret t))))"

definition get_trigger :: "string \<Rightarrow> string \<Rightarrow> (trigger_store, trigger_definition) op" where
  "get_trigger tenant_id trigger_id =
     andThen (gets (\<lambda>s. dict_get (triggers s) trigger_id)) (\<lambda>found.
     case found of
       None \<Rightarrow> raise (NotFoundError (''Trigger not found: '' @ trigger_id))
     | Some t \<Rightarrow>
         andThen (require (tg_tenant_id t = tenant_id)
           (TenantAccessError (''Trigger '' @ trigger_id @ '' is not in tenant '' @ tenant_id))) (\<lambda>_.
         ret t))"

definition list_triggers :: "string \<Rightarrow> (trigger_store, trigger_definition list) op" where
  "list_triggers tenant_id =
     gets (\<lambda>s. filter (\<lambda>t. tg_tenant_id t = tenant_id) (dict_values (triggers s)))"

definition list_schedule_triggers :: "(trigger_store, trigger_definition list) op" where
  "list_schedule_triggers =
     gets (\<lambda>s. filter (\<lambda>t. tg_type t = TT_SCHEDULE) (dict_values (triggers s)))"

definition update_trigger_status ::
  "string \<Rightarrow> string \<Rightarrow> trigger_status \<Rightarrow> (trigger_store, trigger_definition) op" where
  "update_trigger_status tenant_id trigger_id status =
     andThen (get_trigger tenant_id trigger_id) (\<lambda>t.
     let updated = t\<lparr>tg_status := status\<rparr> in
     andThen (modify (\<lambda>s. s\<lparr>triggers := dict_set trigger_id updated (triggers s)\<rparr>)) (\<lambda>_.
     ret updated))"

definition update_trigger_next_run_at ::
  "string \<Rightarrow> string \<Rightarrow> py_datetime option \<Rightarrow> (trigger_store, trigger_definition) op" where
  "update_trigger_next_run_at tenant_id trigger_id next_run_at =
     andThen (get_trigger tenant_id trigger_id) (\<lambda>t.
     andThen utc_now (\<lambda>now.
     let updated = t\<lparr>tg_next_run_at := next_run_at, tg_updated_at := now\<rparr> in
     andThen (modify (\<lambda>s. s\<lparr>triggers := dict_set trigger_id updated (triggers s)\<rparr>)) (\<lambda>_.
     ret updated)))"

definition enable_trigger :: "string \<Rightarrow> string \<Rightarrow> (trigger_store, trigger_definition) op" where
  "enable_trigger tenant_id trigger_id = update_trigger_status tenant_id trigger_id TRIGGER_ENABLED"

definition disable_trigger :: "string \<Rightarrow> string \<Rightarrow> (trigger_store, trigger_definition) op" where
  "disable_trigger tenant_id trigger_id = update_trigger_status tenant_id trigger_id TRIGGER_DISABLED"

definition remove_trigger :: "string \<Rightarrow> string \<Rightarrow> (trigger_store, trigger_definition) op" where
  "remove_trigger tenant_id trigger_id =
     andThen (get_trigger tenant_id trigger_id) (\<lambda>t.
     andThen (modify (\<lambda>s. s\<lparr>triggers := AList.delete trigger_id (triggers s)\<rparr>)) (\<lambda>_.
     ret t))"

definition delete_trigger :: "string \<Rightarrow> string \<Rightarrow> (trigger_store, trigger_definition) op" where
  "delete_trigger tenant_id trigger_id =
     andThen (get_trigger tenant_id trigger_id) (\<lambda>t.
     andThen (require (tg_status t = TRIGGER_DISABLED)
       (ValueError ''Disable the trigger before deleting it'')) (\<lambda>_.
     remove_trigger tenant_id trigger_id))"

record trigger_run_request =
  tq_tenant_id :: string
  tq_workspace_id :: string
  tq_trigger_id :: string
  tq_trigger_type :: trigger_type
  tq_requested_by_user_id :: string
  tq_agent_id :: "string option"
  tq_message :: string
  tq_mode :: run_mode
  tq_invocation_payload_keys :: "string list"

text \<open>Python's \<open>or\<close> on optional strings.\<close>

definition py_or :: "string option \<Rightarrow> string option \<Rightarrow> string option" where
  "py_or a b = (if truthy a then a else b)"

definition message_from_template :: "'a trigger_definition_create_scheme \<Rightarrow> string" where
  "message_from_template t =
     (case dict_get (tg_input_template t) ''message'' of
        Some (JStr raw) \<Rightarrow> if py_strip raw \<noteq> [] then py_strip raw else ''Run trigger: '' @ tg_name t
      | _ \<Rightarrow> ''Run trigger: '' @ tg_name t)"

definition build_run_request ::
  "string \<Rightarrow> string \<Rightarrow> string option \<Rightarrow> json_obj option \<Rightarrow> (trigger_store, trigger_run_request) op" where
  "build_run_request tenant_id trigger_id invoked_by_user_id invocation_payload =
     andThen (get_trigger tenant_id trigger_id) (\<lambda>t.
     andThen (require (tg_status t \<noteq> TRIGGER_DISABLED)
       (TriggerDisabledError (''Trigger is disabled: '' @ tg_id t))) (\<lambda>_.
     case py_or (py_or invoked_by_user_id (tg_created_by_user_id t)) (tg_service_account_id t) of
       None \<Rightarrow> raise (TenantAccessError (''Trigger '' @ tg_id t @ '' has no accountable identity''))
     | Some requested_by \<Rightarrow>
         andThen (require (requested_by \<noteq> []) (ValidationError ''TriggerRunRequest'')) (\<lambda>_.
         ret \<lparr>tq_tenant_id = tg_tenant_id t, tq_workspace_id = tg_workspace_id t, tq_trigger_id = tg_id t,
              tq_trigger_type = tg_type t, tq_requested_by_user_id = requested_by,
              tq_agent_id = (case tg_agent_handoff t of
                  Some h \<Rightarrow> if tg_type t = TT_AGENT_HANDOFF then Some (ah_target_agent_id h) else tg_agent_id t
                | None \<Rightarrow> tg_agent_id t),
              tq_message = message_from_template t, tq_mode = MODE_AUTONOMOUS,
              tq_invocation_payload_keys = sort (map fst (case invocation_payload of None \<Rightarrow> [] | Some p \<Rightarrow> p))\<rparr>)))"

section \<open>Connector events\<close>

record connector_event =
  cv_tenant_id :: string
  cv_workspace_id :: string
  cv_connector_id :: string
  cv_event_type :: string
  cv_external_event_id :: "string option"
  cv_payload :: json_obj

fun payload_at :: "json \<Rightarrow> string list \<Rightarrow> json" where
  "payload_at current [] = current"
| "payload_at current (part # parts) =
     (case current of
        JObj kvs \<Rightarrow> (case dict_get kvs part of None \<Rightarrow> JNull | Some v \<Rightarrow> payload_at v parts)
      | _ \<Rightarrow> JNull)"

definition payload_path_value :: "json_obj \<Rightarrow> string \<Rightarrow> json" where
  "payload_path_value payload path = payload_at (JObj payload) (split_on CHR ''.'' path)"

definition payload_conditions_match :: "json_obj \<Rightarrow> json_obj \<Rightarrow> bool" where
  "payload_conditions_match payload payload_equals \<longleftrightarrow>
     list_all (\<lambda>(path, expected). py_eq (payload_path_value payload path) expected) payload_equals"

definition connector_event_trigger_matches :: "trigger_definition \<Rightarrow> connector_event \<Rightarrow> bool" where
  "connector_event_trigger_matches t event \<longleftrightarrow>
     tg_status t = TRIGGER_ENABLED \<and> tg_type t = TT_CONNECTOR_EVENT
     \<and> tg_tenant_id t = cv_tenant_id event \<and> tg_workspace_id t = cv_workspace_id event
     \<and> (case tg_connector_event t of
          None \<Rightarrow> False
        | Some c \<Rightarrow> ce_connector_id c = cv_connector_id event \<and> ce_event_type c = cv_event_type event
            \<and> payload_conditions_match (cv_payload event) (ce_payload_equals c))"

definition match_connector_event_triggers ::
  "trigger_definition list \<Rightarrow> connector_event \<Rightarrow> trigger_definition list" where
  "match_connector_event_triggers ts event = filter (\<lambda>t. connector_event_trigger_matches t event) ts"

section \<open>Agent handoffs\<close>

record agent_handoff_request =
  hq_source_run_id :: string
  hq_source_agent_id :: "string option"
  hq_reason_code :: string
  hq_handoff_depth :: int
  hq_handoff_input :: json_obj

definition assert_agent_handoff_allowed ::
  "trigger_definition \<Rightarrow> run \<Rightarrow> agent_handoff_request \<Rightarrow> error + int" where
  "assert_agent_handoff_allowed t source_run request =
     (case tg_agent_handoff t of
        None \<Rightarrow> Inl (AgentHandoffDeniedError ''trigger is not an agent handoff trigger'')
      | Some config \<Rightarrow>
          if tg_type t \<noteq> TT_AGENT_HANDOFF
          then Inl (AgentHandoffDeniedError ''trigger is not an agent handoff trigger'')
          else if tg_workspace_id t \<noteq> r_workspace_id source_run
          then Inl (AgentHandoffDeniedError ''agent handoff source run is outside trigger workspace'')
          else if hq_source_agent_id request \<noteq> None \<and> hq_source_agent_id request \<noteq> r_agent_id source_run
          then Inl (AgentHandoffDeniedError ''agent handoff source agent does not match source run'')
          else let target_depth = hq_handoff_depth request + 1 in
            if target_depth > ah_max_depth config
            then Inl (AgentHandoffDeniedError ''agent handoff max depth exceeded'')
            else Inr target_depth)"

section \<open>Operational summary\<close>

datatype trigger_operational_status = OP_DISABLED | OP_FAILING | OP_HEALTHY | OP_STUCK

record trigger_operation_summary =
  os_tenant_id :: string
  os_trigger_id :: string
  os_workspace_id :: string
  os_trigger_type :: trigger_type
  os_trigger_status :: trigger_status
  os_status :: trigger_operational_status
  os_status_reason :: string
  os_recommended_action :: string
  os_next_run_at :: "py_datetime option"
  os_last_invoked_at :: "datetime option"
  os_last_failure_at :: "datetime option"
  os_last_failure_reason_code :: "string option"
  os_last_schedule_evaluated_at :: "datetime option"

record trigger_operations_response =
  or_tenant_id :: string
  or_stuck_after_seconds :: int
  or_counts :: "(trigger_operational_status, int) dict"
  or_summaries :: "trigger_operation_summary list"

definition events_for_trigger :: "string \<Rightarrow> audit_event list \<Rightarrow> audit_event list" where
  "events_for_trigger trigger_id events =
     filter (\<lambda>e. dict_get (au_metadata e) ''trigger_id'' = Some (JStr trigger_id)) events"

definition latest_event :: "audit_event list \<Rightarrow> string \<Rightarrow> audit_event option" where
  "latest_event events event_type =
     (let matching = filter (\<lambda>e. au_event_type e = event_type) events in
      if matching = [] then None
      else Some (last (sort_key (\<lambda>e. (au_created_at e, au_id e)) matching)))"

definition schedule_is_stuck :: "int \<Rightarrow> trigger_definition \<Rightarrow> datetime \<Rightarrow> error + bool" where
  "schedule_is_stuck stuck_after_seconds t now =
     (if tg_type t \<noteq> TT_SCHEDULE then Inr False
      else case tg_next_run_at t of
        None \<Rightarrow> Inr False
      | Some n \<Rightarrow> py_datetime_gt (Aware (now - stuck_after_seconds * 1000000)) n)"

definition status_for_trigger ::
  "int \<Rightarrow> trigger_definition \<Rightarrow> datetime \<Rightarrow> audit_event option \<Rightarrow> audit_event option
   \<Rightarrow> error + trigger_operational_status \<times> string \<times> string" where
  "status_for_trigger stuck_after_seconds t now last_invoked last_failure =
     (if tg_status t = TRIGGER_DISABLED
      then Inr (OP_DISABLED, ''trigger_disabled'', ''enable_trigger_when_ready'')
      else if (case last_failure of
                 None \<Rightarrow> False
               | Some f \<Rightarrow> (case last_invoked of None \<Rightarrow> True | Some i \<Rightarrow> au_created_at f \<ge> au_created_at i))
      then Inr (OP_FAILING, ''recent_trigger_failure'', ''inspect_trigger_failure_audit'')
      else case schedule_is_stuck stuck_after_seconds t now of
        Inl e \<Rightarrow> Inl e
      | Inr True \<Rightarrow> Inr (OP_STUCK, ''schedule_next_run_overdue'', ''inspect_trigger_scheduler_worker'')
      | Inr False \<Rightarrow> Inr (OP_HEALTHY, ''no_current_trigger_operations_issue'', ''no_action_required''))"

fun json_truthy :: "json \<Rightarrow> bool" where
  "json_truthy JNull = False"
| "json_truthy (JBool b) = b"
| "json_truthy (JInt i) = (i \<noteq> 0)"
| "json_truthy (JFloat r) = (r \<noteq> 0)"
| "json_truthy (JStr s) = (s \<noteq> [])"
| "json_truthy (JArr xs) = (xs \<noteq> [])"
| "json_truthy (JObj kvs) = (kvs \<noteq> [])"

definition failure_reason :: "(rat \<Rightarrow> string) \<Rightarrow> audit_event option \<Rightarrow> string option" where
  "failure_reason fr last_failure =
     (case last_failure of
        None \<Rightarrow> None
      | Some f \<Rightarrow>
          (case dict_get (au_metadata f) ''reason_code'' of
             None \<Rightarrow> None
           | Some v \<Rightarrow> if json_truthy v then Some (py_str fr v) else None))"

definition summary_for_trigger ::
  "(rat \<Rightarrow> string) \<Rightarrow> int \<Rightarrow> audit_event list \<Rightarrow> datetime \<Rightarrow> trigger_definition
   \<Rightarrow> error + trigger_operation_summary" where
  "summary_for_trigger fr stuck_after_seconds audits now t =
     (let events = events_for_trigger (tg_id t) audits;
          last_invoked = latest_event events ''trigger.invoked'';
          last_failure = latest_event events ''trigger.failed'';
          last_evaluated = latest_event events ''trigger.schedule.evaluated'' in
      case status_for_trigger stuck_after_seconds t now last_invoked last_failure of
        Inl e \<Rightarrow> Inl e
      | Inr (status, reason, action) \<Rightarrow>
          Inr \<lparr>os_tenant_id = tg_tenant_id t, os_trigger_id = tg_id t, os_workspace_id = tg_workspace_id t,
               os_trigger_type = tg_type t, os_trigger_status = tg_status t, os_status = status,
               os_status_reason = reason, os_recommended_action = action,
               os_next_run_at = tg_next_run_at t,
               os_last_invoked_at = map_option au_created_at last_invoked,
               os_last_failure_at = map_option au_created_at last_failure,
               os_last_failure_reason_code = failure_reason fr last_failure,
               os_last_schedule_evaluated_at = map_option au_created_at last_evaluated\<rparr>)"

fun summaries_for ::
  "(rat \<Rightarrow> string) \<Rightarrow> int \<Rightarrow> audit_event list \<Rightarrow> datetime \<Rightarrow> trigger_definition list
   \<Rightarrow> error + trigger_operation_summary list" where
  "summaries_for fr stuck audits now [] = Inr []"
| "summaries_for fr stuck audits now (t # ts) =
     (case summary_for_trigger fr stuck audits now t of
        Inl e \<Rightarrow> Inl e
      | Inr s \<Rightarrow> map_sum id ((#) s) (summaries_for fr stuck audits now ts))"

definition operation_counts :: "trigger_operation_summary list \<Rightarrow> (trigger_operational_status, int) dict" where
  "operation_counts summaries =
     map (\<lambda>st. (st, int (length (filter (\<lambda>s. os_status s = st) summaries))))
       [OP_DISABLED, OP_FAILING, OP_HEALTHY, OP_STUCK]"

definition summarize_triggers ::
  "(rat \<Rightarrow> string) \<Rightarrow> int \<Rightarrow> trigger_definition list \<Rightarrow> audit_event list \<Rightarrow> datetime \<Rightarrow> string option
   \<Rightarrow> error + trigger_operations_response" where
  "summarize_triggers fr stuck_after_seconds ts audits now tenant_id =
     (case summaries_for fr stuck_after_seconds audits now ts of
        Inl e \<Rightarrow> Inl e
      | Inr summaries \<Rightarrow>
          Inr \<lparr>or_tenant_id = (case tenant_id of
                   Some i \<Rightarrow> if i \<noteq> [] then i else if ts \<noteq> [] then tg_tenant_id (hd ts) else []
                 | None \<Rightarrow> if ts \<noteq> [] then tg_tenant_id (hd ts) else []),
               or_stuck_after_seconds = stuck_after_seconds,
               or_counts = operation_counts summaries, or_summaries = summaries\<rparr>)"

end
