(* ===== verification/Calendar.thy ===== *)
theory Calendar
  imports Json
begin

text \<open>
  The calendar of Python's \<open>datetime\<close>: the fields of a time counted in microseconds from
  1970-01-01 00:00, and the ISO text of an instant in UTC. The range of years is not modelled.
\<close>

section \<open>Fields\<close>

definition minute_us :: int where "minute_us = 60000000"
definition day_us :: int where "day_us = 86400000000"

fun days_in_month :: "int \<Rightarrow> int" where
  "days_in_month m = (if m = 2 then 28 else if m \<in> {4, 6, 9, 11} then 30 else 31)"

definition days_before_month :: "int \<Rightarrow> int" where
  "days_before_month m = sum_list (map days_in_month [1..m - 1])"

text \<open>\<open>_ord2ymd\<close> of the standard library: year, month and day of the proleptic ordinal.\<close>

definition ord2ymd :: "int \<Rightarrow> int \<times> int \<times> int" where
  "ord2ymd ordinal =
     (let n = ordinal - 1; n400 = n div 146097; n = n mod 146097;
          n100 = n div 36524; n = n mod 36524; n4 = n div 1461; n = n mod 1461;
          n1 = n div 365; n = n mod 365; year = n400 * 400 + n100 * 100 + n4 * 4 + n1 + 1 in
      if n1 = 4 \<or> n100 = 4 then (year - 1, 12, 31)
      else
        let leapyear = n1 = 3 \<and> (n4 \<noteq> 24 \<or> n100 = 3);
            month = (n + 50) div 32;
            preceding = days_before_month month + (if month > 2 \<and> leapyear then 1 else 0) in
        if preceding > n
        then (let month' = month - 1;
                  preceding' = preceding - (days_in_month month' + (if month' = 2 \<and> leapyear then 1 else 0)) in
              (year, month', n - preceding' + 1))
        else (year, month, n - preceding + 1))"

definition ordinal_of :: "int \<Rightarrow> int" where "ordinal_of wall = wall div day_us + 719163"
definition month_of :: "int \<Rightarrow> int" where "month_of wall = fst (snd (ord2ymd (ordinal_of wall)))"
definition day_of :: "int \<Rightarrow> int" where "day_of wall = snd (snd (ord2ymd (ordinal_of wall)))"
definition weekday_of :: "int \<Rightarrow> int" where "weekday_of wall = (ordinal_of wall + 6) mod 7"
definition hour_of :: "int \<Rightarrow> int" where "hour_of wall = wall mod day_us div 3600000000"
definition minute_of :: "int \<Rightarrow> int" where "minute_of wall = wall mod 3600000000 div minute_us"

definition year_of :: "int \<Rightarrow> int" where "year_of wall = fst (ord2ymd (ordinal_of wall))"
definition second_of :: "int \<Rightarrow> int" where "second_of wall = wall mod minute_us div 1000000"

section \<open>The ISO format\<close>

definition zero_pad :: "nat \<Rightarrow> int \<Rightarrow> string" where
  "zero_pad width n = (let digits = show_nat (nat n) in replicate (width - length digits) CHR ''0'' @ digits)"

text \<open>\<open>isoformat()\<close> of an aware datetime in UTC.\<close>

definition isoformat :: "datetime \<Rightarrow> string" where
  "isoformat t =
     zero_pad 4 (year_of t) @ ''-'' @ zero_pad 2 (month_of t) @ ''-'' @ zero_pad 2 (day_of t) @ ''T''
     @ zero_pad 2 (hour_of t) @ '':'' @ zero_pad 2 (minute_of t) @ '':'' @ zero_pad 2 (second_of t)
     @ (if t mod 1000000 = 0 then [] else ''.'' @ zero_pad 6 (t mod 1000000)) @ ''+00:00''"

end
