(* ===== verification/CronSchedule.thy ===== *)
theory CronSchedule
  imports Triggers Calendar
begin

text \<open>
  \<^verbatim>\<open>taroai/triggers/scheduler.py\<close>: cron expressions, the next minute they match, and the due jobs
  of a schedule trigger. A time zone is a pair of parameters: the wall
  clock of an instant, and the instant of a wall clock time that \<open>astimezone\<close> gives (the first of
  two when clocks are set back). Wall clock times count microseconds from 1970-01-01 00:00 on the
  wall; the range of years is not modelled.
\<close>

section \<open>Cron expressions\<close>

record cron_schedule =
  cr_minutes :: "int set"
  cr_hours :: "int set"
  cr_days_of_month :: "int set"
  cr_months :: "int set"
  cr_days_of_week :: "int set"
  cr_day_of_month_restricted :: bool
  cr_day_of_week_restricted :: bool

text \<open>\<open>range(start, end + 1, step)\<close> for a positive step.\<close>

definition py_range :: "int \<Rightarrow> int \<Rightarrow> int \<Rightarrow> int list" where
  "py_range start stop step = map (\<lambda>k. start + int k * step) [0..<nat ((stop - start) div step + 1)]"







definition cron_matches :: "cron_schedule \<Rightarrow> int \<Rightarrow> bool" where
  "cron_matches c wall \<longleftrightarrow>
     (let cron_weekday = (weekday_of wall + 1) mod 7;
          day_of_month_matches = day_of wall \<in> cr_days_of_month c;
          day_of_week_matches = cron_weekday \<in> cr_days_of_week c;
          day_matches = (if cr_day_of_month_restricted c \<and> cr_day_of_week_restricted c
            then day_of_month_matches \<or> day_of_week_matches
            else day_of_month_matches \<and> day_of_week_matches) in
      minute_of wall \<in> cr_minutes c \<and> hour_of wall \<in> cr_hours c \<and> month_of wall \<in> cr_months c \<and> day_matches)"

section \<open>The next occurrence\<close>

type_synonym time_zone = "(datetime \<Rightarrow> int) \<times> (int \<Rightarrow> datetime)"

text \<open>The \<open>while\<close> loop over the minutes of five years: at most \<open>n\<close> candidates from \<open>candidate\<close> on.\<close>

fun search_minutes :: "cron_schedule \<Rightarrow> nat \<Rightarrow> int \<Rightarrow> int option" where
  "search_minutes c 0 candidate = None"
| "search_minutes c (Suc n) candidate =
     (if cron_matches c candidate then Some candidate else search_minutes c n (candidate + minute_us))"

definition search_limit :: nat where "search_limit = 366 * 5 * 24 * 60 + 1"

definition first_candidate :: "int \<Rightarrow> int" where
  "first_candidate wall = wall - wall mod minute_us + minute_us"

definition next_after :: "cron_schedule \<Rightarrow> time_zone \<Rightarrow> datetime \<Rightarrow> error + datetime" where
  "next_after c zone t =
     (case search_minutes c search_limit (first_candidate (fst zone t)) of
        Some candidate \<Rightarrow> Inr (snd zone candidate)
      | None \<Rightarrow> Inl (ValueError ''no cron occurrence found within 5 years''))"

definition next_at_or_after :: "cron_schedule \<Rightarrow> time_zone \<Rightarrow> datetime \<Rightarrow> error + datetime" where
  "next_at_or_after c zone t =
     (case next_after c zone (t - minute_us) of
        Inl e \<Rightarrow> Inl e
      | Inr candidate \<Rightarrow> if candidate < t then next_after c zone t else Inr candidate)"

section \<open>Evaluating a schedule trigger\<close>









section \<open>The search finds the first minute\<close>

definition whole_minute :: "int \<Rightarrow> bool" where "whole_minute w \<longleftrightarrow> minute_us dvd w"

text \<open>\<open>m\<close> is the first whole minute after \<open>w\<close> that the schedule matches.\<close>

definition first_match :: "cron_schedule \<Rightarrow> int \<Rightarrow> int \<Rightarrow> bool" where
  "first_match c w m \<longleftrightarrow> whole_minute m \<and> w < m \<and> cron_matches c m
     \<and> (\<forall>k. whole_minute k \<and> w < k \<and> k < m \<longrightarrow> \<not> cron_matches c k)"

lemma search_minutes_Some:
  "search_minutes c n x = Some m \<Longrightarrow>
   \<exists>k < n. m = x + int k * minute_us \<and> cron_matches c m \<and> (\<forall>j < k. \<not> cron_matches c (x + int j * minute_us))"
proof (induction n arbitrary: x)
  case (Suc n)
  show ?case
  proof (cases "cron_matches c x")
    case True
    then show ?thesis using Suc.prems by (intro exI [of _ 0]) simp
  next
    case False
    then obtain k where k: "k < n" "m = (x + minute_us) + int k * minute_us" "cron_matches c m"
        "\<forall>j < k. \<not> cron_matches c ((x + minute_us) + int j * minute_us)"
      using Suc.IH [of "x + minute_us"] Suc.prems by auto
    have "\<not> cron_matches c (x + int j * minute_us)" if "j < Suc k" for j
      using k(4) False that by (cases j) (auto simp: algebra_simps)
    then show ?thesis using k by (intro exI [of _ "Suc k"]) (simp add: algebra_simps)
  qed
qed simp

lemma search_minutes_None:
  "search_minutes c n x = None \<Longrightarrow> k < n \<Longrightarrow> \<not> cron_matches c (x + int k * minute_us)"
proof (induction n arbitrary: x k)
  case (Suc n)
  then have "\<not> cron_matches c x" and rest: "search_minutes c n (x + minute_us) = None"
    by (auto split: if_splits)
  then show ?case
    using Suc.IH [OF rest, of "k - 1"] Suc.prems by (cases k) (auto simp: algebra_simps)
qed simp

lemma search_step:
  "0 < n \<Longrightarrow> search_minutes c n x =
     (if cron_matches c x then Some x else search_minutes c (n - 1) (x + minute_us))"
  by (cases n) simp_all

lemma first_candidate_minute: "whole_minute (first_candidate w)"
  unfolding first_candidate_def whole_minute_def
  by (metis dvd_add dvd_minus_mod dvd_refl)

lemma minutes_after:
  assumes "whole_minute k" "w < k"
  shows "\<exists>j. k = first_candidate w + int j * minute_us"
proof -
  have pos: "minute_us > 0" by (simp add: minute_us_def)
  obtain a where a: "k = minute_us * a" using assms(1) by (auto simp: whole_minute_def)
  have "first_candidate w = minute_us * (w div minute_us + 1)"
    by (simp add: first_candidate_def minus_mod_eq_mult_div algebra_simps)
  moreover have "w div minute_us < a"
    using assms(2) unfolding a minute_us_def by linarith
  ultimately show ?thesis
    by (intro exI [of _ "nat (a - (w div minute_us + 1))"]) (simp add: a algebra_simps)
qed

lemma first_candidate_after: "w < first_candidate w" "first_candidate w \<le> w + minute_us"
proof -
  have "minute_us > 0" by (simp add: minute_us_def)
  then show "w < first_candidate w" "first_candidate w \<le> w + minute_us"
    using pos_mod_bound [of minute_us w] pos_mod_sign [of minute_us w] by (simp_all add: first_candidate_def)
qed

lemma whole_minute_step: "whole_minute w \<Longrightarrow> whole_minute (w + int k * minute_us)"
  by (simp add: whole_minute_def)

lemma search_first_match:
  assumes "search_minutes c n (first_candidate w) = Some m"
  shows "first_match c w m"
proof -
  have pos: "minute_us > 0" by (simp add: minute_us_def)
  obtain k where k: "m = first_candidate w + int k * minute_us" "cron_matches c m"
      "\<forall>j < k. \<not> cron_matches c (first_candidate w + int j * minute_us)"
    using search_minutes_Some [OF assms] by blast
  have "w < m"
    using k(1) first_candidate_after(1) [of w] pos by (smt (verit) mult_nonneg_nonneg of_nat_0_le_iff)
  moreover have "\<not> cron_matches c q" if q: "whole_minute q" "w < q" "q < m" for q
  proof -
    obtain j where j: "q = first_candidate w + int j * minute_us"
      using minutes_after q by blast
    then have "j < k" using q(3) k(1) pos by simp
    then show ?thesis using k(3) j by simp
  qed
  moreover have "whole_minute m"
    using whole_minute_step first_candidate_minute k(1) by simp
  ultimately show ?thesis using k(2) by (simp add: first_match_def)
qed

text \<open>C27: The next occurrence is the first one. \<open>next_after\<close> answers the instant of the first whole
  minute of the wall clock, strictly after the given one, that the cron expression matches; it
  raises only when no minute of the five years that follow matches.\<close>

theorem next_after_is_first_match:
  "case next_after c zone t of
     Inr u \<Rightarrow> \<exists>m. first_match c (fst zone t) m \<and> u = snd zone m
   | Inl e \<Rightarrow> e = ValueError ''no cron occurrence found within 5 years'' \<and>
       (\<nexists>m. whole_minute m \<and> fst zone t < m \<and> m \<le> fst zone t + 1830 * day_us \<and> cron_matches c m)"
proof (cases "search_minutes c search_limit (first_candidate (fst zone t))")
  case (Some m)
  then show ?thesis using search_first_match [OF Some] by (auto simp: next_after_def)
next
  case None
  have "\<not> cron_matches c m" if m: "whole_minute m" "fst zone t < m" "m \<le> fst zone t + 1830 * day_us" for m
  proof -
    obtain j where j: "m = first_candidate (fst zone t) + int j * minute_us"
      using minutes_after m by blast
    then have "int j * minute_us < 1830 * day_us"
      using m(3) first_candidate_after(1) [of "fst zone t"] by linarith
    then have "j < search_limit" by (simp add: minute_us_def day_us_def search_limit_def)
    then show ?thesis using search_minutes_None [OF None] j by simp
  qed
  then show ?thesis using None by (auto simp: next_after_def)
qed

section \<open>The due jobs\<close>

text \<open>The instants a schedule runs at, one after the other, and the one after the last.\<close>

fun occurrences :: "cron_schedule \<Rightarrow> time_zone \<Rightarrow> datetime \<Rightarrow> datetime list \<Rightarrow> datetime \<Rightarrow> bool" where
  "occurrences c zone t [] next \<longleftrightarrow> next = t"
| "occurrences c zone t (u # us) next \<longleftrightarrow>
     u = t \<and> (\<exists>v. next_after c zone t = Inr v \<and> occurrences c zone v us next)"

lemma map_sum_Inr [simp]: "map_sum id f x = Inr y \<longleftrightarrow> (\<exists>z. x = Inr z \<and> y = f z)"
  by (cases x) auto




text \<open>Where the wall clock runs evenly, the occurrences advance.\<close>

definition fixed_offset :: "int \<Rightarrow> time_zone" where
  "fixed_offset k = ((\<lambda>t. t + k), (\<lambda>w. w - k))"

lemma next_after_advances: "next_after c (fixed_offset k) t = Inr u \<Longrightarrow> t < u"
  using next_after_is_first_match [where c = c and zone = "fixed_offset k" and t = t] by (auto simp: fixed_offset_def first_match_def)

lemma occurrences_advance:
  "occurrences c (fixed_offset k) t us next \<Longrightarrow> sorted_wrt (<) us \<and> (\<forall>u \<in> set us. t \<le> u \<and> u < next) \<and> t \<le> next"
proof (induction us arbitrary: t)
  case (Cons u us)
  then obtain v where v: "next_after c (fixed_offset k) t = Inr v" "occurrences c (fixed_offset k) v us next" "u = t"
    by auto
  then have "t < v" "sorted_wrt (<) us \<and> (\<forall>w \<in> set us. v \<le> w \<and> w < next) \<and> v \<le> next"
    using Cons.IH next_after_advances by auto
  then show ?case using v(3) by auto
qed simp

section \<open>When clocks are set back\<close>

text \<open>A zone two hours ahead that falls back to one hour at 1970-01-01 01:00 UTC: the wall shows
  02:00 to 03:00 twice. In the second of these hours \<open>next_at_or_after\<close> answers an instant of the
  first one, before the time it was asked about.\<close>

definition falling_back :: time_zone where
  "falling_back =
     ((\<lambda>t. if t < 3600000000 then t + 7200000000 else t + 3600000000),
      (\<lambda>w. if w < 10800000000 then w - 7200000000 else w - 3600000000))"

definition demo_cron :: cron_schedule where
  "demo_cron = \<lparr>cr_minutes = set (py_range 0 59 1), cr_hours = set (py_range 0 23 1),
     cr_days_of_month = set (py_range 1 31 1), cr_months = set (py_range 1 12 1),
     cr_days_of_week = set (py_range 0 6 1),
     cr_day_of_month_restricted = False, cr_day_of_week_restricted = False\<rparr>"


lemma next_after_at_once:
  "cron_matches c (first_candidate (fst zone t)) \<Longrightarrow>
   next_after c zone t = Inr (snd zone (first_candidate (fst zone t)))"
  by (simp add: next_after_def search_step search_limit_def)

lemma clocks_set_back_go_back:
  "next_at_or_after demo_cron falling_back 5400000000 = Inr 1860000000"
proof -
  have "cron_matches demo_cron (first_candidate (fst falling_back 5340000000))"
    "cron_matches demo_cron (first_candidate (fst falling_back 5400000000))" by code_simp+
  moreover have "snd falling_back (first_candidate (fst falling_back 5340000000)) = 1800000000"
    "snd falling_back (first_candidate (fst falling_back 5400000000)) = 1860000000" by code_simp+
  ultimately show ?thesis
    by (simp add: next_at_or_after_def next_after_at_once minute_us_def)
qed




end
