(* ===== verification/TriggerWebhook.thy ===== *)
theory TriggerWebhook
  imports CronSchedule
begin

text \<open>
  \<^verbatim>\<open>taroai/triggers/webhook.py\<close>: the verifier of signed webhook calls. HMAC-SHA256 and SHA-256
  (their hexadecimal digests) are parameters; header values and bodies are characters below 256.
  Which of its exceptions \<open>datetime.fromtimestamp\<close> raises on an instant out of range, and with
  which text, is not modelled: here it is one \<open>OverflowError\<close>.
\<close>

record webhook_verifier =
  wv_signing_secrets :: "string list"
  wv_tolerance_seconds :: int
  wv_allow_unsigned :: bool

record webhook_result =
  wr_verified :: bool
  wr_algorithm :: string
  wr_timestamp :: "datetime option"
  wr_body_sha256 :: string

text \<open>\<open>str.isdigit\<close> also holds of the superscripts two, three and one, which \<open>int\<close> refuses.\<close>

definition py_isdigit :: "string \<Rightarrow> bool" where
  "py_isdigit s \<longleftrightarrow> s \<noteq> [] \<and> (\<forall>c \<in> set s. is_digit c \<or> (of_char c :: nat) \<in> {178, 179, 185})"

definition last_second :: int where "last_second = 253402300799"

definition parse_timestamp :: "string \<Rightarrow> error + datetime" where
  "parse_timestamp v =
     (if \<not> py_isdigit (py_strip v) then Inl (TriggerWebhookSignatureError ''webhook timestamp is invalid'')
      else case py_int (py_strip v) of
        Inl e \<Rightarrow> Inl e
      | Inr n \<Rightarrow> if n > last_second then Inl (OverflowError ''timestamp out of range'') else Inr (n * 1000000))"

definition validate_timestamp :: "webhook_verifier \<Rightarrow> datetime \<Rightarrow> datetime \<Rightarrow> error + unit" where
  "validate_timestamp v timestamp now =
     (if \<bar>now - timestamp\<bar> > wv_tolerance_seconds v * 1000000
      then Inl (TriggerWebhookSignatureError ''webhook timestamp is outside tolerance'') else Inr ())"

definition ascii_lower :: "char \<Rightarrow> char" where
  "ascii_lower c = (let n = of_char c :: nat in if 65 \<le> n \<and> n \<le> 90 then char_of (n + 32) else c)"

definition is_hex :: "char \<Rightarrow> bool" where
  "is_hex c \<longleftrightarrow> (let n = of_char c :: nat in 48 \<le> n \<and> n \<le> 57 \<or> 65 \<le> n \<and> n \<le> 70 \<or> 97 \<le> n \<and> n \<le> 102)"

definition extract_signatures :: "string \<Rightarrow> string list" where
  "extract_signatures v =
     map (map ascii_lower) (filter (\<lambda>s. length s = 64 \<and> (\<forall>c \<in> set s. is_hex c))
       (map (\<lambda>part. removeprefix ''sha256='' (py_strip part)) (split_on CHR '','' v)))"

definition verify_webhook ::
  "(string \<Rightarrow> string \<Rightarrow> string) \<Rightarrow> (string \<Rightarrow> string) \<Rightarrow> webhook_verifier
   \<Rightarrow> string \<Rightarrow> string option \<Rightarrow> string option \<Rightarrow> datetime \<Rightarrow> error + webhook_result" where
  "verify_webhook hmac_sha256 sha256 v body timestamp_header signature_header now =
     (let signed = (\<lambda>timestamp. py_strip timestamp @ ''.'' @ body);
          invalid = Inl (TriggerWebhookSignatureError ''webhook signature is invalid'') in
      if wv_allow_unsigned v \<and> wv_signing_secrets v = []
      then Inr \<lparr>wr_verified = False, wr_algorithm = ''unsigned'', wr_timestamp = None, wr_body_sha256 = sha256 body\<rparr>
      else if wv_signing_secrets v = []
      then Inl (TriggerWebhookSignatureError ''webhook signing secret is not configured'')
      else if \<not> truthy timestamp_header \<or> \<not> truthy signature_header
      then Inl (TriggerWebhookSignatureError ''webhook signature header is missing'')
      else case parse_timestamp (the timestamp_header) of
        Inl e \<Rightarrow> Inl e
      | Inr timestamp \<Rightarrow>
          (case validate_timestamp v timestamp now of
             Inl e \<Rightarrow> Inl e
           | Inr _ \<Rightarrow>
               let provided = extract_signatures (the signature_header) in
               if provided = [] then invalid
               else if list_ex (\<lambda>secret. list_ex (\<lambda>p. hmac_sha256 secret (signed (the timestamp_header)) = p) provided)
                   (wv_signing_secrets v)
               then Inr \<lparr>wr_verified = True, wr_algorithm = ''hmac-sha256'', wr_timestamp = Some timestamp,
                         wr_body_sha256 = sha256 body\<rparr>
               else invalid))"

text \<open>A call is let through only with a signature one of the secrets made for its timestamp and body,
  and only while the timestamp is fresh, or, unverified, when no secret is configured and unsigned
  calls are allowed.\<close>

lemma webhook_accepted_only_if_signed:
  assumes "verify_webhook hmac_sha256 sha256 v body timestamp_header signature_header now = Inr res"
  shows "if wv_signing_secrets v = [] then wv_allow_unsigned v \<and> \<not> wr_verified res
    else wr_verified res \<and> (\<exists>secret \<in> set (wv_signing_secrets v). \<exists>t header.
      timestamp_header = Some header \<and> parse_timestamp header = Inr t
      \<and> \<bar>now - t\<bar> \<le> wv_tolerance_seconds v * 1000000 \<and> wr_timestamp res = Some t
      \<and> hmac_sha256 secret (py_strip header @ ''.'' @ body) \<in> set (extract_signatures (the signature_header)))"
  using assms
  by (auto simp: verify_webhook_def Let_def validate_timestamp_def truthy_def list_ex_iff not_less
      split: sum.splits if_splits)

text \<open>A timestamp header of one superscript digit is not refused as invalid: it raises a \<open>ValueError\<close>.\<close>

lemma superscript_timestamp_raises_value_error:
  "verify_webhook h d \<lparr>wv_signing_secrets = [''k''], wv_tolerance_seconds = 300, wv_allow_unsigned = False\<rparr>
     body (Some [char_of (178::nat)]) (Some ''x'') now
   = Inl (ValueError (''invalid literal for int() with base 10: '' @ repr_string [char_of (178::nat)]))"
proof -
  have "parse_timestamp [char_of (178::nat)]
      = Inl (ValueError (''invalid literal for int() with base 10: '' @ repr_string [char_of (178::nat)]))"
    by code_simp
  then show ?thesis by (simp add: verify_webhook_def truthy_def Let_def)
qed

end
