(* ===== verification/Entitlements.thy ===== *)
theory Entitlements
  imports StoreOps
begin

text \<open>
  The platform around the store: the mutable state of \<open>LicenseService\<close> and the settings of
  \<open>LicenseService\<close> and \<open>AuditService\<close>; and the decisions of \<^verbatim>\<open>taroai/licensing/service.py\<close> about
  licensed features. A feature is the value of its enumeration. Services that other services may
  lack (\<open>None\<close>) are flags of the settings.
\<close>

section \<open>The platform\<close>

record platform =
  pl_store :: store
  pl_last_status :: "(string, license_status) dict"
  pl_active_validation :: "(string, license_validation_result) dict"

text \<open>\<open>LicenseService\<close>: whether it enforces licenses at run time and has a validation store, an audit
  service. \<open>AuditService\<close>: whether it has a license service, and its fields.\<close>

record platform_settings =
  ps_runtime_enforcement_enabled :: bool
  ps_validation_store :: bool
  ps_license_audits :: bool
  ps_audit_licensed :: bool
  ps_retention_days :: int
  ps_redaction_value :: string
  ps_sensitive_metadata_keys :: "string list"

definition on_store :: "(store, 'a) op \<Rightarrow> ('b platform_scheme, 'a) op" where
  "on_store m = (\<lambda>p. case m (pl_store p) of (r, s) \<Rightarrow> (r, p\<lparr>pl_store := s\<rparr>))"

definition platform_now :: "datetime option \<Rightarrow> ('b platform_scheme, datetime) op" where
  "platform_now now = (case now of Some t \<Rightarrow> ret t | None \<Rightarrow> on_store utc_now)"

section \<open>Entitlements\<close>

record entitlement_decision =
  ed_feature :: string
  ed_allowed :: bool
  ed_requested_amount :: int
  ed_limit :: "int option"
  ed_reason :: string

fun license_status_value :: "license_status \<Rightarrow> string" where
  "license_status_value LS_ACTIVE = ''active''"
| "license_status_value LS_EXPIRED = ''expired''"
| "license_status_value LS_INVALID = ''invalid''"

text \<open>The constructor refuses a negative amount.\<close>

definition entitlement_decision ::
  "string \<Rightarrow> bool \<Rightarrow> int \<Rightarrow> int option \<Rightarrow> string \<Rightarrow> ('s, entitlement_decision) op" where
  "entitlement_decision feature allowed requested_amount limit reason =
     andThen (require (0 \<le> requested_amount) (ValidationError ''EntitlementDecision'')) (\<lambda>_.
     ret \<lparr>ed_feature = feature, ed_allowed = allowed, ed_requested_amount = requested_amount,
          ed_limit = limit, ed_reason = reason\<rparr>)"

definition find_entitlement :: "entitlement list \<Rightarrow> string \<Rightarrow> entitlement option" where
  "find_entitlement es feature = find (\<lambda>e. en_feature e = feature) es"

definition check_entitlement ::
  "license_validation_result \<Rightarrow> string \<Rightarrow> int \<Rightarrow> datetime option
   \<Rightarrow> ('b platform_scheme, entitlement_decision) op" where
  "check_entitlement validation feature requested_amount now =
     (if lv_status validation \<noteq> LS_ACTIVE
      then entitlement_decision feature False requested_amount None
        (''license status is '' @ license_status_value (lv_status validation))
      else case find_entitlement (lk_entitlements (lv_license validation)) feature of
        None \<Rightarrow> entitlement_decision feature False requested_amount None (''missing entitlement for '' @ feature)
      | Some e \<Rightarrow>
          if \<not> en_enabled e
          then entitlement_decision feature False requested_amount None (''missing entitlement for '' @ feature)
          else
            andThen (platform_now now) (\<lambda>checked_at.
            if (case en_expires_at e of None \<Rightarrow> False | Some x \<Rightarrow> checked_at \<ge> x)
            then entitlement_decision feature False requested_amount (en_limit e) (feature @ '' entitlement expired'')
            else if (case en_limit e of None \<Rightarrow> False | Some l \<Rightarrow> requested_amount > l)
            then entitlement_decision feature False requested_amount (en_limit e)
              (feature @ '' entitlement limit exceeded'')
            else entitlement_decision feature True requested_amount (en_limit e) []))"

definition activate_validation ::
  "platform_settings \<Rightarrow> license_validation_result \<Rightarrow> ('b platform_scheme, license_validation_result) op" where
  "activate_validation c v =
     andThen (modify (\<lambda>p. p\<lparr>pl_active_validation :=
       dict_set (lk_tenant_id (lv_license v)) v (pl_active_validation p)\<rparr>)) (\<lambda>_.
     andThen (if ps_validation_store c then void (on_store (save_license_validation v)) else ret ()) (\<lambda>_.
     ret v))"

definition get_active_validation ::
  "platform_settings \<Rightarrow> string \<Rightarrow> ('b platform_scheme, license_validation_result option) op" where
  "get_active_validation c tenant_id =
     andThen (gets (\<lambda>p. dict_get (pl_active_validation p) tenant_id)) (\<lambda>cached.
     case cached of
       Some v \<Rightarrow> ret (Some v)
     | None \<Rightarrow>
         if \<not> ps_validation_store c then ret None
         else
           andThen (on_store (get_active_license_validation tenant_id)) (\<lambda>stored.
           case stored of
             None \<Rightarrow> ret None
           | Some v \<Rightarrow>
               andThen (modify (\<lambda>p. p\<lparr>pl_active_validation := dict_set tenant_id v (pl_active_validation p)\<rparr>))
                 (\<lambda>_. ret (Some v))))"

definition opt_int :: "int option \<Rightarrow> json" where
  "opt_int v = (case v of None \<Rightarrow> JNull | Some i \<Rightarrow> JInt i)"

definition require_entitlement ::
  "platform_settings \<Rightarrow> string \<Rightarrow> string \<Rightarrow> int \<Rightarrow> datetime option
   \<Rightarrow> ('b platform_scheme, entitlement_decision) op" where
  "require_entitlement c tenant_id feature requested_amount now =
     (if \<not> ps_runtime_enforcement_enabled c
      then entitlement_decision feature True requested_amount None ''license runtime enforcement disabled''
      else
        andThen (get_active_validation c tenant_id) (\<lambda>found.
        case found of
          None \<Rightarrow> raise (LicenseEntitlementDeniedError (''active license is required for '' @ feature)
            [(''tenant_id'', JStr tenant_id), (''feature'', JStr feature),
             (''requested_amount'', JInt requested_amount)])
        | Some validation \<Rightarrow>
            andThen (check_entitlement validation feature requested_amount now) (\<lambda>decision.
            if ed_allowed decision then ret decision
            else raise (LicenseEntitlementDeniedError
              (if ed_reason decision \<noteq> [] then ed_reason decision
               else ''license entitlement denied for '' @ feature)
              [(''tenant_id'', JStr tenant_id), (''license_id'', JStr (lk_id (lv_license validation))),
               (''feature'', JStr feature), (''requested_amount'', JInt requested_amount),
               (''limit'', opt_int (ed_limit decision)), (''reason'', JStr (ed_reason decision))]))))"

section \<open>What a decision rests on\<close>

lemma on_store_eval: "on_store m p = (case m (pl_store p) of (r, s) \<Rightarrow> (r, p\<lparr>pl_store := s\<rparr>))"
  by (simp add: on_store_def)

lemma get_active_validation_store:
  "get_active_validation c t p = (Inr v, q) \<Longrightarrow> pl_store q = pl_store p"
  by (auto simp: get_active_validation_def op_simps on_store_eval get_active_license_validation_def
      split: option.splits if_splits)

text \<open>An entitlement that is granted while licenses are enforced rests on an active validation of
  the tenant, on an enabled entitlement that has not expired, and stays within its limit.\<close>

lemma granted_entitlement:
  assumes "require_entitlement c t feature n now p = (Inr d, q)" and "ps_runtime_enforcement_enabled c"
  shows "\<exists>v e. fst (get_active_validation c t p) = Inr (Some v) \<and> lv_status v = LS_ACTIVE
    \<and> e \<in> set (lk_entitlements (lv_license v)) \<and> en_feature e = feature \<and> en_enabled e
    \<and> (\<forall>l. en_limit e = Some l \<longrightarrow> n \<le> l)
    \<and> (\<forall>x u. en_expires_at e = Some x \<longrightarrow> now = Some u \<longrightarrow> u < x)"
proof -
  obtain v p1 where v: "get_active_validation c t p = (Inr (Some v), p1)"
      and check: "check_entitlement v feature n now p1 = (Inr d, q)" and allowed: "ed_allowed d"
    using assms
    by (auto simp: require_entitlement_def op_simps andThen_def raise_def ret_def
        split: sum.splits option.splits prod.splits if_splits)
  obtain e where e: "find_entitlement (lk_entitlements (lv_license v)) feature = Some e" "en_enabled e"
      "lv_status v = LS_ACTIVE"
      and lim: "\<not> (case en_limit e of None \<Rightarrow> False | Some l \<Rightarrow> n > l)"
      and exp: "\<And>u. now = Some u \<Longrightarrow> \<not> (case en_expires_at e of None \<Rightarrow> False | Some x \<Rightarrow> u \<ge> x)"
    using check allowed
    by (auto simp: check_entitlement_def entitlement_decision_def platform_now_def op_simps andThen_def
        require_def raise_def ret_def split: sum.splits option.splits prod.splits if_splits)
  have "e \<in> set (lk_entitlements (lv_license v))" "en_feature e = feature"
    using e(1) by (auto simp: find_entitlement_def find_Some_iff)
  then show ?thesis
    using v e lim exp by (intro exI [of _ v] exI [of _ e]) (auto split: option.splits)
qed

text \<open>The expiry of the license itself plays no role: it is compared with the clock only when the
  license is imported.\<close>

lemma check_ignores_license_expiry:
  "check_entitlement (v\<lparr>lv_license := lv_license v\<lparr>lk_expires_at := x\<rparr>\<rparr>) feature n now
     = check_entitlement v feature n now"
  by (simp add: check_entitlement_def)

end
