(* ===== verification/AuditTrail.thy ===== *)
theory AuditTrail
  imports Entitlements Calendar PyText
begin

text \<open>
  \<^verbatim>\<open>taroai/audit/service.py\<close> and \<^verbatim>\<open>audit/models.py\<close>: the service that redacts the metadata of an
  audit event, checks that the license covers the retention period and writes the event to the
  store; and the report on the coverage of required events.
\<close>

record audit_actor =
  aa_tenant_id :: string
  aa_user_id :: "string option"
  aa_actor_type :: string
  aa_ip_address :: "string option"
  aa_user_agent :: "string option"

record audit_event_create =
  ae_tenant_id :: string
  ae_workspace_id :: "string option"
  ae_user_id :: "string option"
  ae_run_id :: "string option"
  ae_event_type :: string
  ae_metadata :: json_obj
  ae_actor :: "audit_actor option"

section \<open>Redaction\<close>

definition default_sensitive_keys :: "string list" where
  "default_sensitive_keys =
     [''access_key'', ''access_key_id'', ''access_token'', ''api_key'', ''apikey'', ''authorization'',
      ''credential'', ''credentials'', ''password'', ''private_key'', ''secret'', ''secret_access_key'',
      ''signed_url'', ''token'']"

definition sensitive_suffixes :: "string list" where
  "sensitive_suffixes =
     [''_access_key'', ''_access_key_id'', ''_access_token'', ''_api_key'', ''_apikey'', ''_authorization'',
      ''_credential'', ''_credentials'', ''_password'', ''_private_key'', ''_secret'', ''_secret_access_key'',
      ''_signed_url'', ''_token'']"

definition normalized_key :: "string \<Rightarrow> string" where
  "normalized_key key = map (\<lambda>c. if c = CHR ''-'' then CHR ''_'' else c) (py_lower key)"

definition is_sensitive_key :: "platform_settings \<Rightarrow> string \<Rightarrow> bool" where
  "is_sensitive_key c key \<longleftrightarrow>
     (let normalized = normalized_key key in
      normalized \<in> set (ps_sensitive_metadata_keys c)
      \<or> list_ex (\<lambda>sfx. suffix sfx normalized) sensitive_suffixes)"

fun redact_value :: "platform_settings \<Rightarrow> json \<Rightarrow> json" where
  "redact_value c (JObj kvs) =
     JObj (map (\<lambda>kv. (fst kv, if is_sensitive_key c (fst kv) then JStr (ps_redaction_value c)
       else redact_value c (snd kv))) kvs)"
| "redact_value c (JArr xs) = JArr (map (redact_value c) xs)"
| "redact_value c v = v"

definition redact_metadata :: "platform_settings \<Rightarrow> json_obj \<Rightarrow> json_obj" where
  "redact_metadata c m = (case redact_value c (JObj m) of JObj m' \<Rightarrow> m' | _ \<Rightarrow> [])"

section \<open>Recording\<close>

definition opt_member :: "string \<Rightarrow> string option \<Rightarrow> json_obj" where
  "opt_member k v = (case v of None \<Rightarrow> [] | Some x \<Rightarrow> [(k, JStr x)])"

text \<open>\<open>model_dump(mode="json", exclude_none=True)\<close>\<close>

definition dump_actor :: "audit_actor \<Rightarrow> json" where
  "dump_actor a = JObj
     ([(''tenant_id'', JStr (aa_tenant_id a))] @ opt_member ''user_id'' (aa_user_id a)
      @ [(''actor_type'', JStr (aa_actor_type a))] @ opt_member ''ip_address'' (aa_ip_address a)
      @ opt_member ''user_agent'' (aa_user_agent a))"

definition enforce_retention_entitlement ::
  "platform_settings \<Rightarrow> audit_event_create \<Rightarrow> ('b platform_scheme, unit) op" where
  "enforce_retention_entitlement c event =
     (if \<not> ps_audit_licensed c \<or> prefix ''license.'' (ae_event_type event) then ret ()
      else void (require_entitlement c (ae_tenant_id event) ''audit_retention_days'' (ps_retention_days c) None))"

definition audit_metadata :: "platform_settings \<Rightarrow> audit_event_create \<Rightarrow> datetime \<Rightarrow> json_obj" where
  "audit_metadata c event now =
     (let metadata = redact_metadata c (ae_metadata event);
          metadata = dict_set ''audit_retention_days'' (JInt (ps_retention_days c)) metadata;
          metadata = dict_set ''audit_retention_expires_at''
            (JStr (isoformat (now + ps_retention_days c * day_us))) metadata in
      case ae_actor event of None \<Rightarrow> metadata | Some a \<Rightarrow> dict_set ''actor'' (dump_actor a) metadata)"

definition audit_record ::
  "platform_settings \<Rightarrow> audit_event_create \<Rightarrow> ('b platform_scheme, audit_event) op" where
  "audit_record c event =
     andThen (enforce_retention_entitlement c event) (\<lambda>_.
     andThen (on_store utc_now) (\<lambda>now.
     on_store (record_audit_event (ae_tenant_id event) (ae_workspace_id event) (ae_user_id event)
       (ae_run_id event) (ae_event_type event) (audit_metadata c event now))))"

definition audit_list_for_tenant :: "string \<Rightarrow> ('b platform_scheme, audit_event list) op" where
  "audit_list_for_tenant tenant_id = on_store (list_audit_events tenant_id)"

section \<open>Coverage\<close>

record audit_coverage_requirement =
  ar_area :: string
  ar_event_type :: string
  ar_required_metadata_keys :: "string list"

record audit_coverage_finding =
  af_area :: string
  af_event_type :: string
  af_missing_metadata_keys :: "string list"

record audit_coverage_report =
  cp_tenant_id :: string
  cp_total_requirements :: int
  cp_covered_event_types :: "string list"
  cp_missing_requirements :: "audit_coverage_finding list"
  cp_is_complete :: bool

definition lacks_key :: "audit_event \<Rightarrow> string \<Rightarrow> bool" where
  "lacks_key e key \<longleftrightarrow> dict_get (au_metadata e) key \<in> {None, Some JNull}"

text \<open>\<open>min(lists, key=len)\<close>: the first of the shortest ones.\<close>

fun shortest :: "'a list \<Rightarrow> 'a list list \<Rightarrow> 'a list" where
  "shortest best [] = best"
| "shortest best (xs # xss) = shortest (if length xs < length best then xs else best) xss"

definition missing_metadata_keys :: "audit_coverage_requirement \<Rightarrow> audit_event list \<Rightarrow> string list" where
  "missing_metadata_keys requirement events =
     (let required_keys = sort (remdups (ar_required_metadata_keys requirement)) in
      case events of
        [] \<Rightarrow> required_keys
      | e # es \<Rightarrow>
          if required_keys = [] then []
          else shortest (filter (lacks_key e) required_keys) (map (\<lambda>e. filter (lacks_key e) required_keys) es))"

fun coverage_of ::
  "audit_event list \<Rightarrow> audit_coverage_requirement list \<Rightarrow> string list \<times> audit_coverage_finding list" where
  "coverage_of events [] = ([], [])"
| "coverage_of events (r # rs) =
     (let missing = missing_metadata_keys r (filter (\<lambda>e. au_event_type e = ar_event_type r) events);
          (covered, findings) = coverage_of events rs in
      if missing \<noteq> []
      then (covered, \<lparr>af_area = ar_area r, af_event_type = ar_event_type r, af_missing_metadata_keys = missing\<rparr> # findings)
      else (ar_event_type r # covered, findings))"

definition check_coverage ::
  "string \<Rightarrow> audit_coverage_requirement list \<Rightarrow> ('b platform_scheme, audit_coverage_report) op" where
  "check_coverage tenant_id requirements =
     andThen (audit_list_for_tenant tenant_id) (\<lambda>events.
     let (covered, findings) = coverage_of events requirements in
     ret \<lparr>cp_tenant_id = tenant_id, cp_total_requirements = int (length requirements),
          cp_covered_event_types = covered, cp_missing_requirements = findings,
          cp_is_complete = (findings = [])\<rparr>)"

section \<open>What an audit event never holds\<close>

text \<open>A member named \<open>k\<close> with value \<open>v\<close> somewhere inside a value.\<close>

inductive member_at :: "json \<Rightarrow> string \<Rightarrow> json \<Rightarrow> bool" where
  member_here: "(k, v) \<in> set kvs \<Longrightarrow> member_at (JObj kvs) k v"
| member_inside: "(k', x) \<in> set kvs \<Longrightarrow> member_at x k v \<Longrightarrow> member_at (JObj kvs) k v"
| member_item: "x \<in> set xs \<Longrightarrow> member_at x k v \<Longrightarrow> member_at (JArr xs) k v"

inductive_simps member_at_simps:
  "member_at (JObj kvs) k v" "member_at (JArr xs) k v" "member_at (JStr s) k v" "member_at (JInt i) k v"

definition redacted :: "platform_settings \<Rightarrow> json \<Rightarrow> bool" where
  "redacted c j \<longleftrightarrow> (\<forall>k v. member_at j k v \<longrightarrow> is_sensitive_key c k \<longrightarrow> v = JStr (ps_redaction_value c))"

lemma redacted_object:
  "redacted c (JObj kvs) \<longleftrightarrow>
     (\<forall>(k, v) \<in> set kvs. redacted c v \<and> (is_sensitive_key c k \<longrightarrow> v = JStr (ps_redaction_value c)))"
  unfolding redacted_def member_at_simps by auto

lemma redacted_array: "redacted c (JArr xs) \<longleftrightarrow> (\<forall>x \<in> set xs. redacted c x)"
  by (fastforce simp: redacted_def member_at_simps)

lemma redacted_string [simp]: "redacted c (JStr s)" "redacted c (JInt i)"
  by (simp_all add: redacted_def member_at_simps)

lemma redact_value_redacted: "redacted c (redact_value c j)"
proof (induction c j rule: redact_value.induct)
  case (1 c kvs)
  then show ?case by (auto simp: redacted_object)
next
  case (2 c xs)
  then show ?case by (simp add: redacted_array)
qed (auto simp: redacted_def elim: member_at.cases)

lemma redacted_set:
  assumes "redacted c (JObj m)" "redacted c v" "\<not> is_sensitive_key c k"
  shows "redacted c (JObj (dict_set k v m))"
proof -
  have "set (dict_set k v m) \<subseteq> insert (k, v) (set m)"
    by (induction m) auto
  then show ?thesis using assms by (fastforce simp: redacted_object)
qed

lemma plain_keys:
  assumes "set (ps_sensitive_metadata_keys c) \<subseteq> set default_sensitive_keys"
  shows "\<not> is_sensitive_key c ''audit_retention_days''" "\<not> is_sensitive_key c ''audit_retention_expires_at''"
    "\<not> is_sensitive_key c ''actor''" "\<not> is_sensitive_key c ''tenant_id''" "\<not> is_sensitive_key c ''user_id''"
    "\<not> is_sensitive_key c ''actor_type''" "\<not> is_sensitive_key c ''ip_address''" "\<not> is_sensitive_key c ''user_agent''"
proof -
  have "\<not> is_sensitive_key c k" if "normalized_key k \<notin> set default_sensitive_keys"
    "\<not> list_ex (\<lambda>sfx. suffix sfx (normalized_key k)) sensitive_suffixes" for k
    using that assms by (auto simp: is_sensitive_key_def Let_def)
  moreover have "list_all (\<lambda>k. normalized_key k \<notin> set default_sensitive_keys
      \<and> \<not> list_ex (\<lambda>sfx. suffix sfx (normalized_key k)) sensitive_suffixes)
    [''audit_retention_days'', ''audit_retention_expires_at'', ''actor'', ''tenant_id'', ''user_id'',
     ''actor_type'', ''ip_address'', ''user_agent'']"
    by code_simp
  ultimately show "\<not> is_sensitive_key c ''audit_retention_days''" "\<not> is_sensitive_key c ''audit_retention_expires_at''"
    "\<not> is_sensitive_key c ''actor''" "\<not> is_sensitive_key c ''tenant_id''" "\<not> is_sensitive_key c ''user_id''"
    "\<not> is_sensitive_key c ''actor_type''" "\<not> is_sensitive_key c ''ip_address''" "\<not> is_sensitive_key c ''user_agent''"
    by (simp_all only: list.pred_inject HOL.simp_thms)
qed

lemma redacted_actor:
  "set (ps_sensitive_metadata_keys c) \<subseteq> set default_sensitive_keys \<Longrightarrow> redacted c (dump_actor a)"
  by (auto simp: dump_actor_def redacted_object opt_member_def plain_keys split: option.splits)

lemma redact_metadata_redacted: "redacted c (JObj (redact_metadata c m))"
  using redact_value_redacted [of c "JObj m"] by (simp add: redact_metadata_def)

lemma audit_metadata_redacted:
  assumes "set (ps_sensitive_metadata_keys c) \<subseteq> set default_sensitive_keys"
  shows "redacted c (JObj (audit_metadata c event now))"
proof -
  note plain = plain_keys [OF assms]
  have stamped: "redacted c (JObj (dict_set ''audit_retention_expires_at'' (JStr t)
      (dict_set ''audit_retention_days'' (JInt n) (redact_metadata c m))))" for t n m
    by (intro redacted_set plain redact_metadata_redacted redacted_string)
  show ?thesis
  proof (cases "ae_actor event")
    case None
    then show ?thesis by (simp add: audit_metadata_def Let_def stamped)
  next
    case (Some a)
    have "redacted c (JObj (dict_set ''actor'' (dump_actor a) m))" if "redacted c (JObj m)" for m
      by (intro redacted_set plain redacted_actor assms that)
    then show ?thesis by (simp add: audit_metadata_def Let_def Some stamped)
  qed
qed

lemma append_run_event_audits:
  "append_run_event r ty pl s = (res, s') \<Longrightarrow> audit_events s' = audit_events s"
  using preserves_append_run_event_free [of "\<lambda>s'. audit_events s' = audit_events s" r ty pl]
  by (auto simp: preserves_def)

lemma record_audit_event_appends:
  assumes "record_audit_event t w u r ty m s = (Inr e, s')"
  shows "au_metadata e = m \<and> au_tenant_id e = t \<and> au_event_type e = ty
    \<and> dict_get_list (audit_events s') t = dict_get_list (audit_events s) t @ [e]"
proof (cases r)
  case None
  then show ?thesis
    using assms by (auto simp: record_audit_event_def record_audit_event_internal_def op_simps new_id_def utc_now_def Let_def)
next
  case (Some rid)
  let ?s = "\<lambda>e. s\<lparr>tick := Suc (Suc (tick s)), audit_events := dict_append t e (audit_events s)\<rparr>"
  have "au_metadata e = m \<and> au_tenant_id e = t \<and> au_event_type e = ty
      \<and> (\<exists>rn pl v. append_run_event rn ''audit.recorded'' pl (?s e) = (Inr v, s'))"
    using assms
    by (auto simp: Some record_audit_event_def record_audit_event_internal_def op_simps new_id_def utc_now_def Let_def
        void_def get_run_def split: option.splits if_splits prod.splits sum.splits)
  then show ?thesis using append_run_event_audits by fastforce
qed

lemma redact_metadata_get:
  "dict_get (redact_metadata c m) k =
     map_option (\<lambda>v. if is_sensitive_key c k then JStr (ps_redaction_value c) else redact_value c v) (dict_get m k)"
  unfolding redact_metadata_def by (simp, induction m) auto

lemma audit_record_Inr:
  assumes "audit_record c event p = (Inr e, q)"
  shows "\<exists>now s s'. record_audit_event (ae_tenant_id event) (ae_workspace_id event) (ae_user_id event)
      (ae_run_id event) (ae_event_type event) (audit_metadata c event now) s = (Inr e, s') \<and> pl_store q = s'"
  using assms
  by (auto simp: audit_record_def on_store_eval andThen_def split: sum.splits prod.splits) blast

text \<open>C29: No credential reaches the audit log. With a sensitive-key set that adds nothing to the default
  one, whatever the caller puts into the metadata of an audit event, the recorded event holds
  nothing under a key that counts as sensitive, at any depth, but the redaction text; the event
  is the last of its tenant's log; and a top-level value under any other key is kept, redacted
  inside.\<close>

theorem credentials_never_recorded:
  assumes "set (ps_sensitive_metadata_keys c) \<subseteq> set default_sensitive_keys"
    and "audit_record c event p = (Inr e, q)"
  shows "(\<forall>k v. member_at (JObj (au_metadata e)) k v \<longrightarrow> is_sensitive_key c k \<longrightarrow> v = JStr (ps_redaction_value c))
    \<and> last (dict_get_list (audit_events (pl_store q)) (ae_tenant_id event)) = e
    \<and> (\<forall>k v. dict_get (ae_metadata event) k = Some v
      \<and> k \<notin> {''audit_retention_days'', ''audit_retention_expires_at'', ''actor''} \<and> \<not> is_sensitive_key c k
      \<longrightarrow> dict_get (au_metadata e) k = Some (redact_value c v))"
proof -
  obtain now s s' where r: "record_audit_event (ae_tenant_id event) (ae_workspace_id event) (ae_user_id event)
      (ae_run_id event) (ae_event_type event) (audit_metadata c event now) s = (Inr e, s')" "pl_store q = s'"
    using audit_record_Inr [OF assms(2)] by blast
  then have e: "au_metadata e = audit_metadata c event now"
    "dict_get_list (audit_events s') (ae_tenant_id event) = dict_get_list (audit_events s) (ae_tenant_id event) @ [e]"
    using record_audit_event_appends [OF r(1)] by simp_all
  have "dict_get (audit_metadata c event now) k = Some (redact_value c v)"
    if "dict_get (ae_metadata event) k = Some v" "\<not> is_sensitive_key c k"
      "k \<notin> {''audit_retention_days'', ''audit_retention_expires_at'', ''actor''}" for k v
    unfolding audit_metadata_def Let_def
    using that by (cases "ae_actor event") (auto simp: redact_metadata_get)
  then show ?thesis
    using audit_metadata_redacted [OF assms(1), of event now] e r(2) by (auto simp: redacted_def)
qed

definition demo_settings :: platform_settings where
  "demo_settings = \<lparr>ps_runtime_enforcement_enabled = False, ps_validation_store = False, ps_license_audits = True,
     ps_audit_licensed = True, ps_retention_days = 30, ps_redaction_value = ''[REDACTED]'',
     ps_sensitive_metadata_keys = default_sensitive_keys\<rparr>"

definition demo_platform :: platform where
  "demo_platform = \<lparr>pl_store = empty_store int (\<lambda>n. replicate n CHR ''x'') False, pl_last_status = [],
     pl_active_validation = []\<rparr>"

definition demo_audit_event :: audit_event_create where
  "demo_audit_event = \<lparr>ae_tenant_id = ''t'', ae_workspace_id = None, ae_user_id = None, ae_run_id = None,
     ae_event_type = ''x'', ae_metadata = [(''a'', JArr [JObj [(''db-Password'', JStr ''pw'')]])], ae_actor = None\<rparr>"

theorem credentials_never_recorded_witness:
  "\<exists>e q. audit_record demo_settings demo_audit_event demo_platform = (Inr e, q)
     \<and> dict_get (au_metadata e) ''a'' = Some (JArr [JObj [(''db-Password'', JStr ''[REDACTED]'')]])
     \<and> (\<forall>k v. member_at (JObj (au_metadata e)) k v \<longrightarrow> is_sensitive_key demo_settings k \<longrightarrow> v = JStr ''[REDACTED]'')"
proof -
  obtain e q where run: "audit_record demo_settings demo_audit_event demo_platform = (Inr e, q)"
    by (simp add: audit_record_def enforce_retention_entitlement_def require_entitlement_def demo_settings_def
        entitlement_decision_def void_def op_simps on_store_eval utc_now_def record_audit_event_def
        record_audit_event_internal_def new_id_def demo_audit_event_def Let_def)
  have keys: "set (ps_sensitive_metadata_keys demo_settings) \<subseteq> set default_sensitive_keys"
    by (simp add: demo_settings_def)
  have a: "dict_get (ae_metadata demo_audit_event) ''a'' = Some (JArr [JObj [(''db-Password'', JStr ''pw'')]])"
    by (simp add: demo_audit_event_def)
  have evals: "\<not> is_sensitive_key demo_settings ''a''"
    "redact_value demo_settings (JArr [JObj [(''db-Password'', JStr ''pw'')]]) = JArr [JObj [(''db-Password'', JStr ''[REDACTED]'')]]"
    "ps_redaction_value demo_settings = ''[REDACTED]''"
    "''a'' \<notin> {''audit_retention_days'', ''audit_retention_expires_at'', ''actor''}"
    by code_simp+
  show ?thesis
    using credentials_never_recorded [OF keys run] a evals run by metis
qed

section \<open>What a coverage report says\<close>

definition covers :: "audit_coverage_requirement \<Rightarrow> audit_event \<Rightarrow> bool" where
  "covers r e \<longleftrightarrow> au_event_type e = ar_event_type r \<and> (\<forall>k \<in> set (ar_required_metadata_keys r). \<not> lacks_key e k)"

lemma shortest_empty: "shortest best xss = [] \<longleftrightarrow> best = [] \<or> [] \<in> set xss"
  by (induction best xss rule: shortest.induct) auto

lemma missing_empty:
  "missing_metadata_keys r (filter (\<lambda>e. au_event_type e = ar_event_type r) events) = [] \<longleftrightarrow>
     ar_required_metadata_keys r = [] \<or> (\<exists>e \<in> set events. covers r e)"
proof -
  let ?es = "filter (\<lambda>e. au_event_type e = ar_event_type r) events"
  have keys: "sort (remdups ks) = [] \<longleftrightarrow> ks = []" for ks :: "string list"
    by (metis length_0_conv length_sort remdups_eq_nil_iff)
  have lacking: "filter (lacks_key e) (sort (remdups (ar_required_metadata_keys r))) = [] \<longleftrightarrow>
      (\<forall>k \<in> set (ar_required_metadata_keys r). \<not> lacks_key e k)" for e
    by (simp add: filter_empty_conv)
  then have lacking': "[] = filter (lacks_key e) (sort (remdups (ar_required_metadata_keys r))) \<longleftrightarrow>
      (\<forall>k \<in> set (ar_required_metadata_keys r). \<not> lacks_key e k)" for e
    by (metis)
  show ?thesis
  proof (cases "ar_required_metadata_keys r = []")
    case True
    then show ?thesis by (simp add: missing_metadata_keys_def split: list.split)
  next
    case False
    have "missing_metadata_keys r es = [] \<longleftrightarrow>
        (\<exists>e \<in> set es. \<forall>k \<in> set (ar_required_metadata_keys r). \<not> lacks_key e k)" for es
      using False by (cases es)
        (auto simp: missing_metadata_keys_def Let_def keys shortest_empty lacking lacking' image_iff)
    then show ?thesis using False by (auto simp: covers_def)
  qed
qed

lemma coverage_complete:
  "snd (coverage_of events rs) = [] \<longleftrightarrow>
     (\<forall>r \<in> set rs. ar_required_metadata_keys r = [] \<or> (\<exists>e \<in> set events. covers r e))"
  by (induction rs) (auto simp: Let_def missing_empty split: prod.splits)

text \<open>The coverage report. It is complete exactly when for each requirement that names a metadata
  key the tenant's log has one event of the type with every required key present and not null;
  a requirement without metadata keys counts as covered even if there is no such event.\<close>

theorem coverage_report_is_exact:
  "\<exists>report. check_coverage tenant_id requirements p = (Inr report, p)
     \<and> (cp_is_complete report \<longleftrightarrow>
         (\<forall>r \<in> set requirements. ar_required_metadata_keys r = [] \<or>
           (\<exists>e \<in> set (dict_get_list (audit_events (pl_store p)) tenant_id). covers r e)))"
proof -
  obtain covered findings where cov: "coverage_of (dict_get_list (audit_events (pl_store p)) tenant_id) requirements
      = (covered, findings)" by (cases "coverage_of (dict_get_list (audit_events (pl_store p)) tenant_id) requirements")
  then show ?thesis
    using coverage_complete [of "dict_get_list (audit_events (pl_store p)) tenant_id" requirements]
    by (simp add: check_coverage_def audit_list_for_tenant_def list_audit_events_def on_store_eval op_simps)
qed

theorem coverage_report_is_exact_witness:
  "\<exists>report. check_coverage ''t'' [\<lparr>ar_area = ''run'', ar_event_type = ''x'', ar_required_metadata_keys = [''k'']\<rparr>]
       demo_platform = (Inr report, demo_platform) \<and> \<not> cp_is_complete report"
proof -
  have "dict_get_list (audit_events (pl_store demo_platform)) ''t'' = []"
    by (simp add: demo_platform_def empty_store_def dict_get_list_def)
  then show ?thesis
    using coverage_report_is_exact [of "''t''"
        "[\<lparr>ar_area = ''run'', ar_event_type = ''x'', ar_required_metadata_keys = [''k'']\<rparr>]" demo_platform]
    by auto
qed

end
