(* ===== verification/Identity.thy ===== *)
theory Identity
  imports AuditTrail
begin

text \<open>
  \<^verbatim>\<open>taroai/identity/models.py\<close> and the in-memory service of \<^verbatim>\<open>identity/service.py\<close>: user accounts,
  password hashes, roles, assignments and the permission check, and the policy service over it
  (\<^verbatim>\<open>policy/service.py\<close>). PBKDF2 and the random salts are parameters of the settings.
\<close>

section \<open>Models\<close>

datatype account_status = US_ACTIVE | US_DISABLED | US_PENDING | US_DELETED

fun account_status_value :: "account_status \<Rightarrow> string" where
  "account_status_value US_ACTIVE = ''active''"
| "account_status_value US_DISABLED = ''disabled''"
| "account_status_value US_PENDING = ''pending''"
| "account_status_value US_DELETED = ''deleted''"

record user_account_create =
  uc_tenant_id :: string
  uc_email :: string
  uc_display_name :: string
  uc_password :: string

record user_account =
  ua_id :: string
  ua_tenant_id :: string
  ua_email :: string
  ua_display_name :: string
  ua_password_hash :: string
  ua_status :: account_status
  ua_created_at :: datetime

record permission =
  pm_action :: string
  pm_resource :: string

record role =
  ro_tenant_id :: string
  ro_id :: string
  ro_name :: string
  ro_permissions :: "permission list"

record role_assignment =
  ra_tenant_id :: string
  ra_user_id :: string
  ra_role_id :: string
  ra_created_at :: datetime

definition normalize_email :: "string \<Rightarrow> error + string" where
  "normalize_email v =
     (let normalized = py_lower (py_strip v) in
      if normalized = [] then Inl (ValueError ''email must not be empty'') else Inr normalized)"

text \<open>The constructor of \<open>UserAccountCreate\<close>.\<close>

definition user_account_create ::
  "string \<Rightarrow> string \<Rightarrow> string \<Rightarrow> string \<Rightarrow> error + user_account_create" where
  "user_account_create tenant_id email display_name password =
     (case normalize_email email of
        Inl _ \<Rightarrow> Inl (ValidationError ''email must not be empty'')
      | Inr normalized \<Rightarrow>
          if length password < 8 then Inl (ValidationError ''String should have at least 8 characters'')
          else Inr \<lparr>uc_tenant_id = tenant_id, uc_email = normalized, uc_display_name = display_name,
                    uc_password = password\<rparr>)"

definition permission_matches :: "permission \<Rightarrow> string \<Rightarrow> string \<Rightarrow> bool" where
  "permission_matches p action resource \<longleftrightarrow>
     (if pm_action p \<noteq> action then False
      else if pm_resource p = resource then True
      else if suffix ''*'' (pm_resource p) then prefix (butlast (pm_resource p)) resource
      else False)"

section \<open>Password hashes\<close>

record password_hasher =
  ph_algorithm :: string
  ph_iterations :: int
  ph_salt :: string
  ph_salt_bytes :: nat
  ph_pbkdf2_hex :: "string \<Rightarrow> string \<Rightarrow> int \<Rightarrow> string"

definition password_digest :: "password_hasher \<Rightarrow> string \<Rightarrow> string \<Rightarrow> int \<Rightarrow> bool \<Rightarrow> string" where
  "password_digest h password password_salt iterations include_pepper =
     ph_pbkdf2_hex h (utf8_encode password)
       (utf8_encode (if include_pepper then password_salt @ '':'' @ ph_salt h else password_salt)) iterations"

definition hash_password :: "password_hasher \<Rightarrow> string \<Rightarrow> string \<Rightarrow> string" where
  "hash_password h password_salt password =
     ph_algorithm h @ ''$'' @ show_int (ph_iterations h) @ ''$'' @ password_salt @ ''$''
     @ password_digest h password password_salt (ph_iterations h) True"

definition parse_password_hash :: "string \<Rightarrow> (string \<times> int \<times> string \<times> string) option" where
  "parse_password_hash password_hash =
     (case split_on CHR ''$'' password_hash of
        [algorithm, iterations_value, password_salt, digest] \<Rightarrow>
          (case py_int iterations_value of
             Inl _ \<Rightarrow> None
           | Inr iterations \<Rightarrow>
               if iterations \<le> 0 \<or> password_salt = [] \<or> digest = [] then None
               else Some (algorithm, iterations, password_salt, digest))
      | _ \<Rightarrow> None)"

definition verify_password_hash :: "password_hasher \<Rightarrow> string \<Rightarrow> string \<Rightarrow> error + bool" where
  "verify_password_hash h password password_hash =
     (case parse_password_hash password_hash of
        None \<Rightarrow> Inr False
      | Some (algorithm, iterations, password_salt, digest) \<Rightarrow>
          if algorithm \<noteq> ph_algorithm h then Inr False
          else case compare_digest (password_digest h password password_salt iterations True) digest of
            Inl e \<Rightarrow> Inl e
          | Inr True \<Rightarrow> Inr True
          | Inr False \<Rightarrow> compare_digest (password_digest h password password_salt iterations False) digest)"

section \<open>The service\<close>

record id_platform = platform +
  id_users :: "(string, user_account) dict"
  id_user_ids_by_tenant_email :: "(string, string) dict"
  id_roles :: "(string, role) dict"
  id_assignments :: "role_assignment list"

text \<open>\<open>token_urlsafe(n)\<close> draws random text; like the identifiers it is a stream the environment
  supplies, read at the tick of the store.\<close>

record identity_settings =
  is_platform :: platform_settings
  is_hasher :: password_hasher
  is_audits :: bool
  is_token_urlsafe :: "nat \<Rightarrow> nat \<Rightarrow> string"

definition draw_token :: "identity_settings \<Rightarrow> nat \<Rightarrow> ('b platform_scheme, string) op" where
  "draw_token c n = on_store (\<lambda>s. (Inr (is_token_urlsafe c n (tick s)), s\<lparr>tick := Suc (tick s)\<rparr>))"

definition tenant_email_key :: "string \<Rightarrow> string \<Rightarrow> error + string" where
  "tenant_email_key tenant_id email = map_sum id (\<lambda>e. tenant_id @ '':'' @ e) (normalize_email email)"

definition tenant_role_key :: "string \<Rightarrow> string \<Rightarrow> string" where
  "tenant_role_key tenant_id role_id = tenant_id @ '':'' @ role_id"

definition lift_error :: "error + 'a \<Rightarrow> ('s, 'a) op" where
  "lift_error r = (case r of Inl e \<Rightarrow> raise e | Inr x \<Rightarrow> ret x)"

definition identity_audit ::
  "identity_settings \<Rightarrow> string \<Rightarrow> string option \<Rightarrow> string \<Rightarrow> json_obj \<Rightarrow> ('b platform_scheme, unit) op" where
  "identity_audit c tenant_id user_id event_type metadata =
     whenever (is_audits c) (void (audit_record (is_platform c)
       \<lparr>ae_tenant_id = tenant_id, ae_workspace_id = None, ae_user_id = user_id, ae_run_id = None,
        ae_event_type = event_type, ae_metadata = metadata, ae_actor = None\<rparr>))"

definition get_user :: "string \<Rightarrow> string \<Rightarrow> ('b id_platform_scheme, user_account) op" where
  "get_user tenant_id user_id =
     andThen (gets (\<lambda>p. dict_get (id_users p) user_id)) (\<lambda>found.
     case found of
       None \<Rightarrow> raise (NotFoundError (''User not found: '' @ user_id))
     | Some account \<Rightarrow>
         andThen (require (ua_tenant_id account = tenant_id)
           (TenantAccessError (''User '' @ user_id @ '' is not in tenant '' @ tenant_id))) (\<lambda>_.
         ret account))"

definition get_user_by_email :: "string \<Rightarrow> string \<Rightarrow> ('b id_platform_scheme, user_account) op" where
  "get_user_by_email tenant_id email =
     andThen (lift_error (tenant_email_key tenant_id email)) (\<lambda>key.
     andThen (gets (\<lambda>p. dict_get (id_user_ids_by_tenant_email p) key)) (\<lambda>found.
     case found of
       None \<Rightarrow> raise (NotFoundError (''User not found: '' @ email))
     | Some user_id \<Rightarrow> get_user tenant_id user_id))"

definition put_user :: "user_account \<Rightarrow> ('b id_platform_scheme, unit) op" where
  "put_user account = modify (\<lambda>p. p\<lparr>id_users := dict_set (ua_id account) account (id_users p)\<rparr>)"

definition create_user ::
  "identity_settings \<Rightarrow> user_account_create \<Rightarrow> ('b id_platform_scheme, user_account) op" where
  "create_user c request =
     andThen (lift_error (tenant_email_key (uc_tenant_id request) (uc_email request))) (\<lambda>lookup_key.
     andThen (gets (\<lambda>p. dict_get (id_user_ids_by_tenant_email p) lookup_key)) (\<lambda>existing.
     andThen (require (existing = None) (ValueError (''User already exists: '' @ uc_email request))) (\<lambda>_.
     andThen (draw_token c (ph_salt_bytes (is_hasher c))) (\<lambda>password_salt.
     andThen (on_store (new_id ''user'')) (\<lambda>user_id.
     andThen (lift_error (normalize_email (uc_email request))) (\<lambda>email.
     andThen (on_store utc_now) (\<lambda>now.
     let account =
       \<lparr>ua_id = user_id, ua_tenant_id = uc_tenant_id request, ua_email = email,
        ua_display_name = uc_display_name request,
        ua_password_hash = hash_password (is_hasher c) password_salt (uc_password request),
        ua_status = US_ACTIVE, ua_created_at = now\<rparr> in
     andThen (put_user account) (\<lambda>_.
     andThen (modify (\<lambda>p. p\<lparr>id_user_ids_by_tenant_email :=
         dict_set lookup_key user_id (id_user_ids_by_tenant_email p)\<rparr>)) (\<lambda>_.
     andThen (identity_audit c (ua_tenant_id account) (Some user_id) ''identity.user.created''
       [(''user_id'', JStr user_id), (''email'', JStr email),
        (''display_name'', JStr (ua_display_name account)),
        (''status'', JStr (account_status_value US_ACTIVE))]) (\<lambda>_.
     ret account))))))))))"

definition verify_password ::
  "identity_settings \<Rightarrow> string \<Rightarrow> string \<Rightarrow> string \<Rightarrow> ('b id_platform_scheme, bool) op" where
  "verify_password c tenant_id email password =
     andThen (get_user_by_email tenant_id email) (\<lambda>account.
     lift_error (verify_password_hash (is_hasher c) password (ua_password_hash account)))"

definition update_password ::
  "identity_settings \<Rightarrow> string \<Rightarrow> string \<Rightarrow> string \<Rightarrow> ('b id_platform_scheme, user_account) op" where
  "update_password c tenant_id user_id password =
     andThen (get_user tenant_id user_id) (\<lambda>account.
     andThen (draw_token c (ph_salt_bytes (is_hasher c))) (\<lambda>password_salt.
     let updated = account\<lparr>ua_password_hash := hash_password (is_hasher c) password_salt password\<rparr> in
     andThen (modify (\<lambda>p. p\<lparr>id_users := dict_set user_id updated (id_users p)\<rparr>)) (\<lambda>_.
     andThen (identity_audit c tenant_id (Some user_id) ''identity.user.password_changed''
       [(''user_id'', JStr user_id)]) (\<lambda>_.
     ret updated))))"

definition set_user_status ::
  "identity_settings \<Rightarrow> string \<Rightarrow> string \<Rightarrow> account_status \<Rightarrow> string
   \<Rightarrow> ('b id_platform_scheme, user_account) op" where
  "set_user_status c tenant_id user_id status event_type =
     andThen (get_user tenant_id user_id) (\<lambda>account.
     let updated = account\<lparr>ua_status := status\<rparr> in
     andThen (modify (\<lambda>p. p\<lparr>id_users := dict_set user_id updated (id_users p)\<rparr>)) (\<lambda>_.
     andThen (identity_audit c tenant_id (Some user_id) event_type
       [(''user_id'', JStr user_id), (''status'', JStr (account_status_value status))]) (\<lambda>_.
     ret updated)))"

definition disable_user :: "identity_settings \<Rightarrow> string \<Rightarrow> string \<Rightarrow> ('b id_platform_scheme, user_account) op" where
  "disable_user c tenant_id user_id = set_user_status c tenant_id user_id US_DISABLED ''identity.user.disabled''"

definition mark_user_pending :: "identity_settings \<Rightarrow> string \<Rightarrow> string \<Rightarrow> ('b id_platform_scheme, user_account) op" where
  "mark_user_pending c tenant_id user_id = set_user_status c tenant_id user_id US_PENDING ''identity.user.pending''"

definition activate_user :: "identity_settings \<Rightarrow> string \<Rightarrow> string \<Rightarrow> ('b id_platform_scheme, user_account) op" where
  "activate_user c tenant_id user_id = set_user_status c tenant_id user_id US_ACTIVE ''identity.user.activated''"

definition delete_user :: "identity_settings \<Rightarrow> string \<Rightarrow> string \<Rightarrow> ('b id_platform_scheme, user_account) op" where
  "delete_user c tenant_id user_id = set_user_status c tenant_id user_id US_DELETED ''identity.user.deleted''"

text \<open>The address of every account is normalized already; normalizing it again cannot fail.\<close>

definition find_users_by_email :: "string \<Rightarrow> ('b id_platform_scheme, user_account list) op" where
  "find_users_by_email email =
     andThen (lift_error (normalize_email email)) (\<lambda>normalized_email.
     gets (\<lambda>p. sort_key (\<lambda>a. (ua_tenant_id a, ua_id a))
       (filter (\<lambda>a. normalize_email (ua_email a) = Inr normalized_email) (dict_values (id_users p)))))"

definition list_users :: "string \<Rightarrow> ('b id_platform_scheme, user_account list) op" where
  "list_users tenant_id =
     gets (\<lambda>p. sort_key (\<lambda>a. (ua_created_at a, ua_id a))
       (filter (\<lambda>a. ua_tenant_id a = tenant_id) (dict_values (id_users p))))"

definition create_role :: "identity_settings \<Rightarrow> role \<Rightarrow> ('b id_platform_scheme, role) op" where
  "create_role c r =
     andThen (modify (\<lambda>p. p\<lparr>id_roles := dict_set (tenant_role_key (ro_tenant_id r) (ro_id r)) r (id_roles p)\<rparr>)) (\<lambda>_.
     andThen (identity_audit c (ro_tenant_id r) None ''identity.role.created''
       [(''role_id'', JStr (ro_id r)), (''role_name'', JStr (ro_name r)),
        (''permissions_count'', JInt (int (length (ro_permissions r))))]) (\<lambda>_.
     ret r))"

definition get_role :: "string \<Rightarrow> string \<Rightarrow> ('b id_platform_scheme, role) op" where
  "get_role tenant_id role_id =
     andThen (gets (\<lambda>p. dict_get (id_roles p) (tenant_role_key tenant_id role_id))) (\<lambda>found.
     case found of
       None \<Rightarrow> raise (NotFoundError (''Role not found: '' @ role_id))
     | Some r \<Rightarrow> ret r)"

definition assign_role ::
  "identity_settings \<Rightarrow> string \<Rightarrow> string \<Rightarrow> string \<Rightarrow> ('b id_platform_scheme, role_assignment) op" where
  "assign_role c tenant_id user_id role_id =
     andThen (get_user tenant_id user_id) (\<lambda>_.
     andThen (get_role tenant_id role_id) (\<lambda>_.
     andThen (on_store utc_now) (\<lambda>now.
     let assignment = \<lparr>ra_tenant_id = tenant_id, ra_user_id = user_id, ra_role_id = role_id, ra_created_at = now\<rparr> in
     andThen (modify (\<lambda>p. p\<lparr>id_assignments := id_assignments p @ [assignment]\<rparr>)) (\<lambda>_.
     andThen (identity_audit c tenant_id (Some user_id) ''identity.role.assigned''
       [(''assigned_user_id'', JStr user_id), (''role_id'', JStr role_id)]) (\<lambda>_.
     ret assignment)))))"

definition list_role_ids_for_user :: "string \<Rightarrow> string \<Rightarrow> ('b id_platform_scheme, string list) op" where
  "list_role_ids_for_user tenant_id user_id =
     andThen (get_user tenant_id user_id) (\<lambda>_.
     gets (\<lambda>p. map ra_role_id (filter (\<lambda>a. ra_tenant_id a = tenant_id \<and> ra_user_id a = user_id) (id_assignments p))))"

fun get_roles :: "string \<Rightarrow> string list \<Rightarrow> ('b id_platform_scheme, role list) op" where
  "get_roles tenant_id [] = ret []"
| "get_roles tenant_id (i # is) =
     andThen (get_role tenant_id i) (\<lambda>r. andThen (get_roles tenant_id is) (\<lambda>rs. ret (r # rs)))"

definition has_permission :: "string \<Rightarrow> string \<Rightarrow> string \<Rightarrow> string \<Rightarrow> ('b id_platform_scheme, bool) op" where
  "has_permission tenant_id user_id action resource =
     andThen (get_user tenant_id user_id) (\<lambda>account.
     if ua_status account \<noteq> US_ACTIVE then ret False
     else
       andThen (list_role_ids_for_user tenant_id user_id) (\<lambda>assigned_role_ids.
       andThen (get_roles tenant_id assigned_role_ids) (\<lambda>rs.
       ret (list_ex (\<lambda>r. list_ex (\<lambda>p. permission_matches p action resource) (ro_permissions r)) rs))))"

text \<open>\<open>IdentityPolicyService.decide\<close> and the guard \<open>require_permission\<close> of the HTTP application.\<close>

definition require_permission :: "string \<Rightarrow> string \<Rightarrow> string \<Rightarrow> ('b id_platform_scheme, unit) op" where
  "require_permission tenant_id user_id action =
     (let resource = ''tenant:'' @ tenant_id in
      andThen (has_permission tenant_id user_id action resource) (\<lambda>allowed.
      require allowed (TenantAccessError (''Permission denied: '' @ action @ '' on '' @ resource))))"

section \<open>What the services leave alone\<close>

text \<open>Operations of the store that draw from its streams and never turn them back, and leave the
  invitations alone.\<close>

definition advances :: "(store, 'a) op \<Rightarrow> bool" where
  "advances m \<longleftrightarrow> (\<forall>u n iv. preserves (\<lambda>s. uuid4_hex s = u \<and> n \<le> tick s \<and> tenant_invitations s = iv) m)"

lemma advancesD: "advances m \<Longrightarrow> uuid4_hex (snd (m s)) = uuid4_hex s \<and> tick s \<le> tick (snd (m s))
    \<and> tenant_invitations (snd (m s)) = tenant_invitations s"
  by (auto simp: advances_def preserves_def)

lemma advances_utc_now: "advances utc_now"
  by (simp add: advances_def preserves_def utc_now_def)

lemma advances_new_id: "advances (new_id k)"
  by (simp add: advances_def preserves_def new_id_def)

lemma advances_gets: "advances (gets f)"
  by (simp add: advances_def preserves_gets)

lemma advances_append_run_event: "advances (append_run_event r ty pl)"
  unfolding advances_def by (auto intro!: preserves_append_run_event_free)

lemma advances_record_audit_event: "advances (record_audit_event t w u r ty m)"
proof -
  have "preserves (\<lambda>s :: store. uuid4_hex s = h \<and> n \<le> tick s \<and> tenant_invitations s = iv) (append_run_event rn k pl)" for h n iv rn k pl
    using advances_append_run_event by (simp add: advances_def)
  moreover have "preserves (\<lambda>s :: store. uuid4_hex s = h \<and> n \<le> tick s \<and> tenant_invitations s = iv) (new_id k)" for h n iv k
    using advances_new_id by (simp add: advances_def)
  moreover have "preserves (\<lambda>s :: store. uuid4_hex s = h \<and> n \<le> tick s \<and> tenant_invitations s = iv) utc_now" for h n iv
    using advances_utc_now by (simp add: advances_def)
  ultimately show ?thesis
    unfolding advances_def record_audit_event_def record_audit_event_internal_def get_run_def
    by (intro allI frame_rules preserves_modify; simp)
qed

text \<open>An invariant of the platform that does not speak of some parts is kept by the operations that
  write only these.\<close>

locale platform_frame =
  fixes I :: "'b platform_scheme \<Rightarrow> bool"
  assumes store: "I p \<Longrightarrow> uuid4_hex s = uuid4_hex (pl_store p) \<Longrightarrow> tick (pl_store p) \<le> tick s
      \<Longrightarrow> tenant_invitations s = tenant_invitations (pl_store p) \<Longrightarrow> I (p\<lparr>pl_store := s\<rparr>)"
    and active: "I p \<Longrightarrow> I (p\<lparr>pl_active_validation := av\<rparr>)"
begin

lemma on_store_frame: "advances m \<Longrightarrow> preserves I (on_store m)"
  using advancesD [of m] store by (auto simp: preserves_def on_store_eval split: prod.split) (metis snd_conv)

lemma now_frame: "preserves I (platform_now now)"
  unfolding platform_now_def by (intro frame_rules on_store_frame advances_utc_now)

lemma entitlement_frame: "preserves I (require_entitlement c t f n now)"
proof -
  have decision: "preserves I (entitlement_decision f b n l r)" for f b n l r
    unfolding entitlement_decision_def by (intro frame_rules)
  have check: "preserves I (check_entitlement v f n now)" for v
    unfolding check_entitlement_def by (intro frame_rules decision now_frame)
  have "preserves I (get_active_validation c t)"
    unfolding get_active_validation_def get_active_license_validation_def
    by (intro frame_rules preserves_modify on_store_frame advances_gets active)
  then show ?thesis
    unfolding require_entitlement_def by (intro frame_rules decision check)
qed

lemma audit_frame: "preserves I (audit_record c event)"
  unfolding audit_record_def enforce_retention_entitlement_def
  by (intro frame_rules entitlement_frame on_store_frame advances_utc_now advances_record_audit_event)

lemma identity_audit_frame: "preserves I (identity_audit c t u ty m)"
  unfolding identity_audit_def by (intro frame_rules audit_frame)

lemma draw_token_frame: "preserves I (draw_token c n)"
  unfolding draw_token_def by (intro on_store_frame) (simp add: advances_def preserves_def)

end

text \<open>One that does not speak of the accounts either is kept by the whole identity service.\<close>

locale identity_frame = platform_frame I
  for I :: "'b id_platform_scheme \<Rightarrow> bool" +
  assumes users: "I p \<Longrightarrow> I (p\<lparr>id_users := us\<rparr>)"
    and emails: "I p \<Longrightarrow> I (p\<lparr>id_user_ids_by_tenant_email := es\<rparr>)"
    and roles: "I p \<Longrightarrow> I (p\<lparr>id_roles := rs\<rparr>)"
    and assignments: "I p \<Longrightarrow> I (p\<lparr>id_assignments := as\<rparr>)"
begin

lemma lift_error_frame: "preserves I (lift_error r)"
  by (cases r) (simp_all add: lift_error_def frame_rules)

lemma get_user_frame: "preserves I (get_user t u)"
  unfolding get_user_def by (intro frame_rules)

lemma get_role_frame: "preserves I (get_role t r)"
  unfolding get_role_def by (intro frame_rules)

lemmas identity_rules = frame_rules lift_error_frame get_user_frame get_role_frame identity_audit_frame
  draw_token_frame on_store_frame now_frame advances_utc_now advances_new_id

lemma create_user_frame: "preserves I (create_user c request)"
  unfolding create_user_def put_user_def by (intro identity_rules preserves_modify; simp add: users emails)

lemma verify_password_frame: "preserves I (verify_password c t e pw)"
  unfolding verify_password_def get_user_by_email_def by (intro identity_rules)

lemma update_password_frame: "preserves I (update_password c t u pw)"
  unfolding update_password_def by (intro identity_rules preserves_modify; simp add: users)

lemma set_user_status_frame: "preserves I (set_user_status c t u st ty)"
  unfolding set_user_status_def by (intro identity_rules preserves_modify; simp add: users)

lemma find_users_frame: "preserves I (find_users_by_email e)"
  unfolding find_users_by_email_def by (intro identity_rules)

lemma create_role_frame: "preserves I (create_role c r)"
  unfolding create_role_def by (intro identity_rules preserves_modify; simp add: roles)

lemma assign_role_frame: "preserves I (assign_role c t u r)"
  unfolding assign_role_def by (intro identity_rules preserves_modify; simp add: assignments)

lemma list_role_ids_frame: "preserves I (list_role_ids_for_user t u)"
  unfolding list_role_ids_for_user_def by (intro identity_rules)

end

section \<open>What a granted permission rests on\<close>

lemma compare_digest_Inr: "compare_digest a b = Inr x \<Longrightarrow> x \<longleftrightarrow> a = b"
  by (auto simp: compare_digest_def split: if_splits)

lemma on_store_Inr:
  "on_store m p = (Inr x, q) \<longleftrightarrow> (\<exists>s. m (pl_store p) = (Inr x, s) \<and> q = p\<lparr>pl_store := s\<rparr>)"
  by (auto simp: on_store_eval split: prod.splits)

lemma lift_error_Inr: "lift_error r p = (Inr x, q) \<longleftrightarrow> r = Inr x \<and> q = p"
  by (auto simp: lift_error_def ret_def raise_def split: sum.splits)

lemma get_user_Inr:
  "get_user t u p = (Inr a, q) \<longleftrightarrow> q = p \<and> dict_get (id_users p) u = Some a \<and> ua_tenant_id a = t"
  by (auto simp: get_user_def op_simps split: option.splits if_splits)

lemma get_role_Inr: "get_role t i p = (Inr r, q) \<longleftrightarrow> q = p \<and> dict_get (id_roles p) (tenant_role_key t i) = Some r"
  by (auto simp: get_role_def op_simps split: option.splits)

lemma get_roles_Inr:
  "get_roles t is p = (Inr rs, q) \<Longrightarrow> q = p \<and> map Some rs = map (\<lambda>i. dict_get (id_roles p) (tenant_role_key t i)) is"
  by (induction "is" arbitrary: rs) (auto simp: ret_def andThen_Inr_iff get_role_Inr)

definition grants :: "'b id_platform_scheme \<Rightarrow> string \<Rightarrow> string \<Rightarrow> string \<Rightarrow> string \<Rightarrow> role \<Rightarrow> bool" where
  "grants p t u action resource r \<longleftrightarrow>
     (\<exists>a \<in> set (id_assignments p). ra_tenant_id a = t \<and> ra_user_id a = u
        \<and> dict_get (id_roles p) (tenant_role_key t (ra_role_id a)) = Some r)
     \<and> (\<exists>pm \<in> set (ro_permissions r). permission_matches pm action resource)"

lemma has_permission_Inr:
  assumes "has_permission t u action resource p = (Inr b, q)"
  shows "q = p \<and> (\<exists>a. dict_get (id_users p) u = Some a \<and> ua_tenant_id a = t
    \<and> (b \<longleftrightarrow> ua_status a = US_ACTIVE \<and> (\<exists>r. grants p t u action resource r)))"
proof -
  obtain a where a: "dict_get (id_users p) u = Some a" "ua_tenant_id a = t"
      and run: "(if ua_status a \<noteq> US_ACTIVE then ret False
        else andThen (list_role_ids_for_user t u) (\<lambda>ids. andThen (get_roles t ids) (\<lambda>rs.
          ret (list_ex (\<lambda>r. list_ex (\<lambda>p. permission_matches p action resource) (ro_permissions r)) rs)))) p = (Inr b, q)"
    using assms by (auto simp: has_permission_def andThen_Inr_iff get_user_Inr)
  show ?thesis
  proof (cases "ua_status a = US_ACTIVE")
    case False
    then show ?thesis using a run by (simp add: ret_def)
  next
    case True
    let ?ids = "map ra_role_id (filter (\<lambda>a. ra_tenant_id a = t \<and> ra_user_id a = u) (id_assignments p))"
    obtain rs where rs: "get_roles t ?ids p = (Inr rs, q)"
        "b = list_ex (\<lambda>r. list_ex (\<lambda>p. permission_matches p action resource) (ro_permissions r)) rs"
      using run True by (auto simp: list_role_ids_for_user_def andThen_Inr_iff get_user_Inr ret_def gets_def)
    then have "q = p" and "map Some rs = map (\<lambda>i. dict_get (id_roles p) (tenant_role_key t i)) ?ids"
      using get_roles_Inr by blast+
    then have mem: "r \<in> set rs \<longleftrightarrow> (\<exists>i \<in> set ?ids. dict_get (id_roles p) (tenant_role_key t i) = Some r)" for r
      by (metis (no_types, lifting) image_iff list.set_map option.inject)
    have "b \<longleftrightarrow> (\<exists>r. r \<in> set rs \<and> (\<exists>pm \<in> set (ro_permissions r). permission_matches pm action resource))"
      using rs(2) by (auto simp: list_ex_iff)
    also have "\<dots> \<longleftrightarrow> (\<exists>r. grants p t u action resource r)"
      unfolding grants_def by (rule ex_cong1) (auto simp: mem)
    finally show ?thesis using a True \<open>q = p\<close> by blast
  qed
qed

lemma role_keys_inject:
  "CHR '':'' \<notin> set t \<Longrightarrow> CHR '':'' \<notin> set t' \<Longrightarrow> tenant_role_key t i = tenant_role_key t' i' \<longleftrightarrow> t = t' \<and> i = i'"
proof -
  assume "CHR '':'' \<notin> set t" "CHR '':'' \<notin> set t'"
  then have "takeWhile ((\<noteq>) CHR '':'') (tenant_role_key t i) = t"
    "takeWhile ((\<noteq>) CHR '':'') (tenant_role_key t' i') = t'"
    by (auto simp: tenant_role_key_def takeWhile_append takeWhile_eq_all_conv)
  then show ?thesis by (auto simp: tenant_role_key_def)
qed

text \<open>With a colon in a tenant identifier the keys of two tenants' roles meet: the lookup answers the
  role of the other tenant.\<close>

lemma role_of_another_tenant:
  "get_role ''a'' ''b:c'' (p\<lparr>id_roles := [(tenant_role_key ''a:b'' ''c'', r)]\<rparr>)
     = (Inr r, p\<lparr>id_roles := [(tenant_role_key ''a:b'' ''c'', r)]\<rparr>)"
  by (simp add: get_role_Inr tenant_role_key_def)

end
