(* ===== verification/Auth.thy ===== *)
theory Auth
  imports Identity Base64
begin

text \<open>
  \<^verbatim>\<open>taroai/auth/service.py\<close> and the in-memory session store of \<^verbatim>\<open>auth/sessions.py\<close>: login, access
  tokens (signed claims), sessions and their revocation, and the signed action tokens of email
  verification and password reset. HMAC-SHA256, SHA-256, how pydantic prints a datetime and what
  it makes of the decoded text of a token, and the policy of the SSO registry are parameters.
  Sending mail is not modelled.
\<close>

section \<open>Sessions\<close>

record auth_session =
  se_id :: string
  se_tenant_id :: string
  se_user_id :: string
  se_issued_at :: datetime
  se_expires_at :: datetime
  se_revoked_at :: "datetime option"

record auth_platform = id_platform +
  au_sessions :: "(string, auth_session) dict"

definition create_session ::
  "string \<Rightarrow> string \<Rightarrow> datetime \<Rightarrow> datetime \<Rightarrow> (auth_platform, auth_session) op" where
  "create_session tenant_id user_id issued_at expires_at =
     andThen (on_store (new_id ''session'')) (\<lambda>i.
     let session = \<lparr>se_id = i, se_tenant_id = tenant_id, se_user_id = user_id, se_issued_at = issued_at,
       se_expires_at = expires_at, se_revoked_at = None\<rparr> in
     andThen (modify (\<lambda>p. p\<lparr>au_sessions := dict_set i session (au_sessions p)\<rparr>)) (\<lambda>_. ret session))"

definition get_session :: "string \<Rightarrow> string \<Rightarrow> (auth_platform, auth_session option) op" where
  "get_session tenant_id session_id =
     gets (\<lambda>p. case dict_get (au_sessions p) session_id of
        None \<Rightarrow> None | Some s \<Rightarrow> if se_tenant_id s \<noteq> tenant_id then None else Some s)"

definition revoke_session :: "string \<Rightarrow> string \<Rightarrow> datetime \<Rightarrow> (auth_platform, bool) op" where
  "revoke_session tenant_id session_id revoked_at =
     andThen (get_session tenant_id session_id) (\<lambda>found.
     case found of
       None \<Rightarrow> ret False
     | Some s \<Rightarrow>
         andThen (modify (\<lambda>p. p\<lparr>au_sessions :=
           dict_set session_id (s\<lparr>se_revoked_at := Some revoked_at\<rparr>) (au_sessions p)\<rparr>)) (\<lambda>_. ret True))"

definition open_session_of :: "string \<Rightarrow> string \<Rightarrow> auth_session \<Rightarrow> bool" where
  "open_session_of tenant_id user_id s \<longleftrightarrow>
     se_tenant_id s = tenant_id \<and> se_user_id s = user_id \<and> se_revoked_at s = None"

definition revoke_user_sessions :: "string \<Rightarrow> string \<Rightarrow> datetime \<Rightarrow> (auth_platform, int) op" where
  "revoke_user_sessions tenant_id user_id revoked_at =
     andThen (gets (\<lambda>p. filter (\<lambda>kv. open_session_of tenant_id user_id (snd kv)) (au_sessions p))) (\<lambda>opened.
     andThen (modify (\<lambda>p. p\<lparr>au_sessions :=
        map (\<lambda>kv. (fst kv, if open_session_of tenant_id user_id (snd kv)
          then (snd kv)\<lparr>se_revoked_at := Some revoked_at\<rparr> else snd kv)) (au_sessions p)\<rparr>)) (\<lambda>_.
     ret (int (length opened))))"

section \<open>Claims and tokens\<close>

record auth_token_claims =
  cl_session_id :: string
  cl_tenant_id :: string
  cl_user_id :: string
  cl_email :: string
  cl_display_name :: string
  cl_role_ids :: "string list"
  cl_issued_at :: datetime
  cl_expires_at :: datetime

datatype action_purpose = EMAIL_VERIFICATION | PASSWORD_RESET

record auth_action_claims =
  ac_purpose :: action_purpose
  ac_claim_tenant_id :: string
  ac_claim_user_id :: string
  ac_credential_fingerprint :: string
  ac_claim_expires_at :: datetime

record auth_login_result =
  lr_access_token :: string
  lr_session_id :: string
  lr_expires_at :: datetime
  lr_tenant_id :: string
  lr_user_id :: string
  lr_display_name :: string

text \<open>The last five fields are the parameters; a parser answers \<open>None\<close> where it raises a \<open>ValueError\<close>.\<close>

record auth_settings =
  as_identity :: identity_settings
  as_access_token_secret :: string
  as_access_token_ttl_seconds :: int
  as_remembered_access_token_ttl_seconds :: int
  as_hmac_sha256 :: "string \<Rightarrow> string \<Rightarrow> string"
  as_sha256_hex :: "string \<Rightarrow> string"
  as_dump_datetime :: "datetime \<Rightarrow> string"
  as_parse_claims :: "string \<Rightarrow> auth_token_claims option"
  as_parse_action_claims :: "string \<Rightarrow> auth_action_claims option"
  as_password_login_allowed :: "string \<Rightarrow> string \<Rightarrow> bool"

definition encode_json :: "json \<Rightarrow> string" where
  "encode_json v = encode_bytes (utf8_encode (json_dumps (\<lambda>_. []) True '','' '':'' (sort_keys v)))"

definition decode_text :: "string \<Rightarrow> string option" where
  "decode_text v = (if is_ascii v then decode_padded v else None)"

definition dump_claims :: "auth_settings \<Rightarrow> auth_token_claims \<Rightarrow> json" where
  "dump_claims c cl = JObj
     [(''session_id'', JStr (cl_session_id cl)), (''tenant_id'', JStr (cl_tenant_id cl)),
      (''user_id'', JStr (cl_user_id cl)), (''email'', JStr (cl_email cl)),
      (''display_name'', JStr (cl_display_name cl)), (''role_ids'', JArr (map JStr (cl_role_ids cl))),
      (''issued_at'', JStr (as_dump_datetime c (cl_issued_at cl))),
      (''expires_at'', JStr (as_dump_datetime c (cl_expires_at cl)))]"

fun purpose_value :: "action_purpose \<Rightarrow> string" where
  "purpose_value EMAIL_VERIFICATION = ''email_verification''"
| "purpose_value PASSWORD_RESET = ''password_reset''"

definition dump_action_claims :: "auth_settings \<Rightarrow> auth_action_claims \<Rightarrow> json" where
  "dump_action_claims c cl = JObj
     [(''purpose'', JStr (purpose_value (ac_purpose cl))), (''tenant_id'', JStr (ac_claim_tenant_id cl)),
      (''user_id'', JStr (ac_claim_user_id cl)),
      (''credential_fingerprint'', JStr (ac_credential_fingerprint cl)),
      (''expires_at'', JStr (as_dump_datetime c (ac_claim_expires_at cl)))]"

definition sign :: "auth_settings \<Rightarrow> string \<Rightarrow> string" where
  "sign c payload = encode_bytes (as_hmac_sha256 c (utf8_encode (as_access_token_secret c)) (utf8_encode payload))"

definition sign_action :: "auth_settings \<Rightarrow> string \<Rightarrow> user_account \<Rightarrow> string" where
  "sign_action c payload account =
     encode_bytes (as_hmac_sha256 c
       (utf8_encode (as_access_token_secret c @ [CHR 0x00] @ ua_password_hash account))
       (utf8_encode (''auth_action:'' @ payload)))"

definition credential_fingerprint :: "auth_settings \<Rightarrow> user_account \<Rightarrow> string" where
  "credential_fingerprint c account = as_sha256_hex c (utf8_encode (ua_password_hash account))"

definition issue_token :: "auth_settings \<Rightarrow> auth_token_claims \<Rightarrow> string" where
  "issue_token c cl = (let payload = encode_json (dump_claims c cl) in payload @ ''.'' @ sign c payload)"

text \<open>\<open>token.split(".", 1)\<close>; \<open>None\<close> if there is no dot.\<close>

definition split_token :: "string \<Rightarrow> (string \<times> string) option" where
  "split_token token = (if CHR ''.'' \<in> set token then Some (cut CHR ''.'' token) else None)"

section \<open>Logging in\<close>

fun filter_op :: "('a \<Rightarrow> ('s, bool) op) \<Rightarrow> 'a list \<Rightarrow> ('s, 'a list) op" where
  "filter_op f [] = ret []"
| "filter_op f (x # xs) =
     andThen (f x) (\<lambda>b. andThen (filter_op f xs) (\<lambda>ys. ret (if b then x # ys else ys)))"

definition auth_now :: "datetime option \<Rightarrow> (auth_platform, datetime) op" where
  "auth_now now = platform_now now"

definition claims_for_account ::
  "user_account \<Rightarrow> string \<Rightarrow> datetime \<Rightarrow> datetime \<Rightarrow> (auth_platform, auth_token_claims) op" where
  "claims_for_account account session_id issued_at expires_at =
     andThen (list_role_ids_for_user (ua_tenant_id account) (ua_id account)) (\<lambda>role_ids.
     ret \<lparr>cl_session_id = session_id, cl_tenant_id = ua_tenant_id account, cl_user_id = ua_id account,
          cl_email = ua_email account, cl_display_name = ua_display_name account, cl_role_ids = role_ids,
          cl_issued_at = issued_at, cl_expires_at = expires_at\<rparr>)"

definition login_candidate ::
  "auth_settings \<Rightarrow> string \<Rightarrow> user_account \<Rightarrow> (auth_platform, bool) op" where
  "login_candidate c password account =
     (if ua_status account = US_ACTIVE \<and> as_password_login_allowed c (ua_tenant_id account) (ua_email account)
      then verify_password (as_identity c) (ua_tenant_id account) (ua_email account) password
      else ret False)"

definition preferred_matches :: "string option \<Rightarrow> user_account list \<Rightarrow> user_account list" where
  "preferred_matches tenant_id matches =
     (let preferred = filter (\<lambda>a. Some (ua_tenant_id a) = tenant_id) matches in
      if length preferred = 1 then preferred else matches)"

definition login ::
  "auth_settings \<Rightarrow> string option \<Rightarrow> string \<Rightarrow> string \<Rightarrow> datetime option \<Rightarrow> bool
   \<Rightarrow> (auth_platform, auth_login_result) op" where
  "login c tenant_id email password now remember_me =
     andThen (find_users_by_email email) (\<lambda>accounts.
     andThen (filter_op (login_candidate c password) accounts) (\<lambda>found.
     case preferred_matches tenant_id found of
       [account] \<Rightarrow>
         andThen (auth_now now) (\<lambda>issued_at.
         let ttl_seconds = (if remember_me then as_remembered_access_token_ttl_seconds c
                            else as_access_token_ttl_seconds c);
             expires_at = issued_at + ttl_seconds * 1000000 in
         andThen (create_session (ua_tenant_id account) (ua_id account) issued_at expires_at) (\<lambda>session.
         andThen (claims_for_account account (se_id session) issued_at expires_at) (\<lambda>claims.
         ret \<lparr>lr_access_token = issue_token c claims, lr_session_id = se_id session,
              lr_expires_at = cl_expires_at claims, lr_tenant_id = cl_tenant_id claims,
              lr_user_id = cl_user_id claims, lr_display_name = cl_display_name claims\<rparr>)))
     | _ \<Rightarrow> raise (AuthInvalidCredentialsError ''invalid credentials'')))"

section \<open>Validating tokens\<close>

text \<open>\<open>get_user\<close> with the \<open>NotFoundError\<close> turned into another error.\<close>

definition get_user_or :: "error \<Rightarrow> string \<Rightarrow> string \<Rightarrow> (auth_platform, user_account) op" where
  "get_user_or e tenant_id user_id =
     (\<lambda>p. case get_user tenant_id user_id p of
        (Inl (NotFoundError _), q) \<Rightarrow> (Inl e, q)
      | r \<Rightarrow> r)"

definition check_session :: "auth_token_claims \<Rightarrow> datetime option \<Rightarrow> (auth_platform, unit) op" where
  "check_session claims now =
     andThen (get_session (cl_tenant_id claims) (cl_session_id claims)) (\<lambda>session.
     case session of
       None \<Rightarrow> raise (AuthRequiredError ''invalid access token'')
     | Some s \<Rightarrow>
         andThen (require (se_user_id s = cl_user_id claims) (AuthRequiredError ''invalid access token'')) (\<lambda>_.
         andThen (require (se_revoked_at s = None) (AuthRequiredError ''access token revoked'')) (\<lambda>_.
         andThen (auth_now now) (\<lambda>t.
         require (\<not> se_expires_at s \<le> t) (AuthRequiredError ''access token expired'')))))"

definition accept_claims ::
  "auth_token_claims \<Rightarrow> datetime option \<Rightarrow> (auth_platform, auth_token_claims) op" where
  "accept_claims claims now =
     andThen (auth_now now) (\<lambda>t.
     andThen (require (\<not> cl_expires_at claims \<le> t) (AuthRequiredError ''access token expired'')) (\<lambda>_.
     andThen (check_session claims now) (\<lambda>_.
     andThen (get_user_or (AuthRequiredError ''invalid access token'')
       (cl_tenant_id claims) (cl_user_id claims)) (\<lambda>account.
     andThen (require (ua_status account = US_ACTIVE) (AuthRequiredError ''access token revoked'')) (\<lambda>_.
     andThen (list_role_ids_for_user (ua_tenant_id account) (ua_id account)) (\<lambda>role_ids.
     ret (claims\<lparr>cl_email := ua_email account, cl_display_name := ua_display_name account,
                 cl_role_ids := role_ids\<rparr>)))))))"

definition validate_token ::
  "auth_settings \<Rightarrow> string \<Rightarrow> datetime option \<Rightarrow> (auth_platform, auth_token_claims) op" where
  "validate_token c token now =
     (case split_token token of
        None \<Rightarrow> raise (AuthRequiredError ''invalid access token'')
      | Some (payload, signature) \<Rightarrow>
          andThen (lift_error (compare_digest signature (sign c payload))) (\<lambda>same.
          andThen (require same (AuthRequiredError ''invalid access token'')) (\<lambda>_.
          case Option.bind (decode_text payload) (as_parse_claims c) of
            None \<Rightarrow> raise (AuthRequiredError ''invalid access token'')
          | Some claims \<Rightarrow> accept_claims claims now)))"

definition authenticate_authorization_header ::
  "auth_settings \<Rightarrow> string option \<Rightarrow> datetime option \<Rightarrow> (auth_platform, auth_token_claims) op" where
  "authenticate_authorization_header c authorization now =
     (case authorization of
        None \<Rightarrow> raise (AuthRequiredError ''authentication required'')
      | Some h \<Rightarrow>
          if \<not> prefix ''Bearer '' h then raise (AuthRequiredError ''authentication required'')
          else validate_token c (py_strip (removeprefix ''Bearer '' h)) now)"

definition logout_authorization_header ::
  "auth_settings \<Rightarrow> string option \<Rightarrow> datetime option \<Rightarrow> (auth_platform, bool) op" where
  "logout_authorization_header c authorization now =
     andThen (authenticate_authorization_header c authorization now) (\<lambda>claims.
     andThen (auth_now now) (\<lambda>t.
     revoke_session (cl_tenant_id claims) (cl_session_id claims) t))"

section \<open>Action tokens\<close>

definition issue_action_token ::
  "auth_settings \<Rightarrow> user_account \<Rightarrow> action_purpose \<Rightarrow> int \<Rightarrow> datetime option \<Rightarrow> (auth_platform, string) op" where
  "issue_action_token c account purpose ttl_seconds now =
     andThen (auth_now now) (\<lambda>t.
     let claims = \<lparr>ac_purpose = purpose, ac_claim_tenant_id = ua_tenant_id account,
           ac_claim_user_id = ua_id account, ac_credential_fingerprint = credential_fingerprint c account,
           ac_claim_expires_at = t + ttl_seconds * 1000000\<rparr>;
         payload = encode_json (dump_action_claims c claims) in
     ret (payload @ ''.'' @ sign_action c payload account))"

definition invalid_action_token :: error where
  "invalid_action_token = AuthActionTokenError ''invalid or expired auth action token''"

definition validate_action_token ::
  "auth_settings \<Rightarrow> string \<Rightarrow> action_purpose \<Rightarrow> datetime option \<Rightarrow> (auth_platform, user_account) op" where
  "validate_action_token c token purpose now =
     (case split_token token of
        None \<Rightarrow> raise invalid_action_token
      | Some (payload, signature) \<Rightarrow>
          (case Option.bind (decode_text payload) (as_parse_action_claims c) of
             None \<Rightarrow> raise invalid_action_token
           | Some claims \<Rightarrow>
               andThen (get_user_or invalid_action_token (ac_claim_tenant_id claims) (ac_claim_user_id claims))
                 (\<lambda>account.
               andThen (lift_error (compare_digest signature (sign_action c payload account))) (\<lambda>same.
               andThen (require (same \<and> ac_purpose claims = purpose
                   \<and> ac_credential_fingerprint claims = credential_fingerprint c account) invalid_action_token) (\<lambda>_.
               andThen (auth_now now) (\<lambda>t.
               andThen (require (\<not> ac_claim_expires_at claims \<le> t) invalid_action_token) (\<lambda>_.
               ret account)))))))"

definition verify_email_action ::
  "auth_settings \<Rightarrow> string \<Rightarrow> datetime option \<Rightarrow> (auth_platform, user_account) op" where
  "verify_email_action c token now =
     andThen (validate_action_token c token EMAIL_VERIFICATION now) (\<lambda>account.
     if ua_status account = US_ACTIVE then ret account
     else if ua_status account \<noteq> US_PENDING
     then raise (AuthActionTokenError ''invalid or expired email verification token'')
     else activate_user (as_identity c) (ua_tenant_id account) (ua_id account))"

definition reset_password_action ::
  "auth_settings \<Rightarrow> string \<Rightarrow> string \<Rightarrow> datetime option \<Rightarrow> (auth_platform, user_account) op" where
  "reset_password_action c token password now =
     andThen (auth_now now) (\<lambda>reset_at.
     andThen (validate_action_token c token PASSWORD_RESET (Some reset_at)) (\<lambda>account.
     if ua_status account \<noteq> US_ACTIVE
     then raise (AuthActionTokenError ''invalid or expired password reset token'')
     else
       andThen (update_password (as_identity c) (ua_tenant_id account) (ua_id account) password) (\<lambda>updated.
       andThen (revoke_user_sessions (ua_tenant_id account) (ua_id account) reset_at) (\<lambda>_.
       ret updated))))"

end
