(* ===== verification/AuthGuarantees.thy ===== *)
theory AuthGuarantees
  imports Auth
begin

text \<open>
  What the tokens of \<^verbatim>\<open>Auth\<close> guarantee: a login's token is accepted and names its bearer, an accepted
  token rests on a live session of an active account, a revoked session never comes back, and a
  password reset locks out the sessions before it.
\<close>

section \<open>What an accepted token rests on\<close>

text \<open>Reading the clock changes nothing but the tick of the store.\<close>

definition same_accounts :: "auth_platform \<Rightarrow> auth_platform \<Rightarrow> bool" where
  "same_accounts p q \<longleftrightarrow> au_sessions q = au_sessions p \<and> id_users q = id_users p
     \<and> id_assignments q = id_assignments p \<and> id_roles q = id_roles p"

lemma same_accounts_refl [simp]: "same_accounts p p"
  by (simp add: same_accounts_def)

lemma auth_now_Inr:
  "auth_now now p = (Inr t, q) \<Longrightarrow> same_accounts p q \<and> (\<forall>u. now = Some u \<longrightarrow> t = u)"
  by (auto simp: auth_now_def platform_now_def on_store_eval utc_now_def ret_def same_accounts_def
      split: option.splits)

lemma auth_now_Some: "auth_now (Some t) p = (Inr t, p)"
  by (simp add: auth_now_def platform_now_def ret_def)

definition live_session :: "auth_platform \<Rightarrow> auth_token_claims \<Rightarrow> datetime option \<Rightarrow> bool" where
  "live_session p cl now \<longleftrightarrow>
     (\<exists>s. dict_get (au_sessions p) (cl_session_id cl) = Some s \<and> se_tenant_id s = cl_tenant_id cl
        \<and> se_user_id s = cl_user_id cl \<and> se_revoked_at s = None \<and> (\<forall>t. now = Some t \<longrightarrow> t < se_expires_at s))"

lemma get_session_Inr:
  "get_session t i p = (Inr r, q) \<longleftrightarrow> q = p \<and> r = (case dict_get (au_sessions p) i of
     None \<Rightarrow> None | Some s \<Rightarrow> if se_tenant_id s \<noteq> t then None else Some s)"
  by (auto simp: get_session_def gets_Inr_iff)

lemma check_session_Inr:
  assumes "check_session cl now p = (Inr u, q)"
  shows "live_session p cl now \<and> same_accounts p q"
proof -
  obtain s t where s: "dict_get (au_sessions p) (cl_session_id cl) = Some s" "se_tenant_id s = cl_tenant_id cl"
      "se_user_id s = cl_user_id cl" "se_revoked_at s = None" "\<not> se_expires_at s \<le> t"
      and t: "auth_now now p = (Inr t, q)"
    using assms unfolding check_session_def
    by (elim andThen_Inr_E) (auto simp: get_session_Inr Inr_iffs split: option.splits if_splits)
  from auth_now_Inr [OF t] s show ?thesis by (auto simp: live_session_def)
qed

lemma get_user_or_Inr:
  "get_user_or e t u p = (Inr a, q) \<longleftrightarrow> q = p \<and> dict_get (id_users p) u = Some a \<and> ua_tenant_id a = t"
proof -
  have "get_user_or e t u p = (Inr a, q) \<longleftrightarrow> get_user t u p = (Inr a, q)"
    by (auto simp: get_user_or_def split: prod.splits sum.splits error.splits)
  then show ?thesis by (simp add: get_user_Inr)
qed

definition same_bearer :: "auth_token_claims \<Rightarrow> auth_token_claims \<Rightarrow> bool" where
  "same_bearer a b \<longleftrightarrow> cl_session_id a = cl_session_id b \<and> cl_tenant_id a = cl_tenant_id b
     \<and> cl_user_id a = cl_user_id b \<and> cl_expires_at a = cl_expires_at b"

lemma split_token_Some: "split_token token = Some (payload, signature) \<Longrightarrow> token = payload @ ''.'' @ signature"
proof -
  assume "split_token token = Some (payload, signature)"
  then have dot: "CHR ''.'' \<in> set token" and cut: "payload = takeWhile ((\<noteq>) CHR ''.'') token"
      "signature = tl (dropWhile ((\<noteq>) CHR ''.'') token)"
    by (auto simp: split_token_def cut_def split: if_splits)
  then obtain c rest where rest: "dropWhile ((\<noteq>) CHR ''.'') token = c # rest"
    by (cases "dropWhile ((\<noteq>) CHR ''.'') token") (auto simp: dropWhile_eq_Nil_conv)
  then have "c = CHR ''.''" using hd_dropWhile [of "(\<noteq>) CHR ''.''" token] by (auto simp: rest)
  then show ?thesis using takeWhile_dropWhile_id [of "(\<noteq>) CHR ''.''" token] cut rest by simp
qed

lemma accept_claims_Inr:
  assumes "accept_claims claims now p = (Inr cl, q)"
  shows "same_bearer claims cl \<and> (\<forall>t. now = Some t \<longrightarrow> t < cl_expires_at cl) \<and> live_session p cl now
    \<and> (\<exists>a. dict_get (id_users p) (cl_user_id cl) = Some a \<and> ua_tenant_id a = cl_tenant_id cl
        \<and> ua_status a = US_ACTIVE \<and> cl_email cl = ua_email a) \<and> same_accounts p q"
proof -
  obtain t p1 p2 a roles where t: "auth_now now p = (Inr t, p1)" "\<not> cl_expires_at claims \<le> t"
      and session: "check_session claims now p1 = (Inr (), p2)"
      and a: "dict_get (id_users p2) (cl_user_id claims) = Some a" "ua_tenant_id a = cl_tenant_id claims"
        "ua_status a = US_ACTIVE"
      and cl: "cl = claims\<lparr>cl_email := ua_email a, cl_display_name := ua_display_name a, cl_role_ids := roles\<rparr>"
      and q: "q = p2"
    using assms unfolding accept_claims_def list_role_ids_for_user_def
    by (elim andThen_Inr_E) (auto simp: Inr_iffs get_user_or_Inr get_user_Inr)
  have p1: "same_accounts p p1" "\<forall>u. now = Some u \<longrightarrow> t = u" using auth_now_Inr [OF t(1)] by auto
  have p2: "live_session p1 claims now" "same_accounts p1 p2" using check_session_Inr [OF session] by auto
  have "same_bearer claims cl" by (simp add: cl same_bearer_def)
  moreover have "live_session p cl now"
    using p2(1) p1(1) by (simp add: cl live_session_def same_accounts_def)
  moreover have "dict_get (id_users p) (cl_user_id cl) = Some a"
    using a(1) p1(1) p2(2) by (simp add: cl same_accounts_def)
  moreover have "\<forall>t. now = Some t \<longrightarrow> t < cl_expires_at cl"
    using t(2) p1(2) by (auto simp: cl)
  moreover have "same_accounts p q" using p1(1) p2(2) q by (simp add: same_accounts_def)
  ultimately show ?thesis using a(2,3) by (auto simp: cl)
qed

lemma validate_token_Inr:
  assumes "validate_token c token now p = (Inr cl, q)"
  obtains payload claims where "token = payload @ ''.'' @ sign c payload"
    and "Option.bind (decode_text payload) (as_parse_claims c) = Some claims"
    and "accept_claims claims now p = (Inr cl, q)"
proof -
  obtain payload signature claims where token: "split_token token = Some (payload, signature)"
      and same: "compare_digest signature (sign c payload) = Inr True"
      and claims: "Option.bind (decode_text payload) (as_parse_claims c) = Some claims"
      and rest: "accept_claims claims now p = (Inr cl, q)"
    using assms
    by (auto simp: validate_token_def andThen_Inr_iff lift_error_Inr require_Inr_iff raise_Inr_iff
        split: option.splits prod.splits)
  have "token = payload @ ''.'' @ sign c payload"
    using split_token_Some [OF token] compare_digest_Inr [OF same] by simp
  then show thesis using that claims rest by blast
qed

section \<open>Revocation is for ever\<close>

text \<open>What the authentication service keeps: an invariant its three writes of sessions keep, and the
  other services do not speak of.\<close>

locale session_frame = identity_frame I for I :: "auth_platform \<Rightarrow> bool" +
  assumes create: "preserves I (create_session t u from_time until)"
    and revoke: "preserves I (revoke_session t i r)"
    and revoke_user: "preserves I (revoke_user_sessions t u r)"
    and other: "I p \<Longrightarrow> uuid4_hex s = uuid4_hex (pl_store p) \<Longrightarrow> tick (pl_store p) \<le> tick s \<Longrightarrow> I (p\<lparr>pl_store := s\<rparr>)"
begin

lemma auth_now_frame: "preserves I (auth_now now)"
  unfolding auth_now_def by (rule now_frame)

lemma get_session_frame: "preserves I (get_session t i)"
  unfolding get_session_def by (intro frame_rules)

lemma get_user_or_frame: "preserves I (get_user_or e t u)"
proof -
  have "snd (get_user_or e t u p) = snd (get_user t u p)" for p :: auth_platform
    by (auto simp: get_user_or_def split: prod.splits sum.splits error.splits)
  then show ?thesis using get_user_frame [of t u] by (simp add: preserves_def)
qed

lemma filter_op_frame: "(\<And>x. preserves I (f x)) \<Longrightarrow> preserves I (filter_op f xs)"
  by (induction xs) (auto intro!: frame_rules)

lemmas session_rules = identity_rules create revoke revoke_user auth_now_frame get_session_frame
  get_user_or_frame list_role_ids_frame find_users_frame verify_password_frame update_password_frame

lemma login_candidate_frame: "preserves I (login_candidate c pw a)"
  unfolding login_candidate_def by (intro session_rules)

lemma login_frame: "preserves I (login c t e pw now remember)"
  unfolding login_def claims_for_account_def
  by (intro session_rules filter_op_frame login_candidate_frame preserves_case_list)

lemma accept_claims_frame: "preserves I (accept_claims cl now)"
  unfolding accept_claims_def check_session_def by (intro session_rules)

lemma validate_token_frame: "preserves I (validate_token c token now)"
  unfolding validate_token_def by (intro session_rules accept_claims_frame)

lemma authenticate_frame: "preserves I (authenticate_authorization_header c h now)"
  unfolding authenticate_authorization_header_def by (intro session_rules validate_token_frame)

lemma logout_frame: "preserves I (logout_authorization_header c h now)"
  unfolding logout_authorization_header_def by (intro session_rules authenticate_frame)

lemma validate_action_frame: "preserves I (validate_action_token c token purpose now)"
  unfolding validate_action_token_def by (intro session_rules)

lemma issue_action_frame: "preserves I (issue_action_token c a purpose ttl now)"
  unfolding issue_action_token_def by (intro session_rules)

lemma verify_email_frame: "preserves I (verify_email_action c token now)"
  unfolding verify_email_action_def activate_user_def
  by (intro session_rules validate_action_frame set_user_status_frame)

lemma reset_password_frame: "preserves I (reset_password_action c token pw now)"
  unfolding reset_password_action_def by (intro session_rules validate_action_frame)

end

text \<open>One call of a service: of authentication, of the identity service, or anything that leaves
  accounts and sessions alone.\<close>

inductive auth_step :: "auth_settings \<Rightarrow> auth_platform \<Rightarrow> auth_platform \<Rightarrow> bool" for c where
  login: "auth_step c p (snd (login c t e pw now remember p))"
| authenticate: "auth_step c p (snd (authenticate_authorization_header c h now p))"
| logout: "auth_step c p (snd (logout_authorization_header c h now p))"
| issue_action: "auth_step c p (snd (issue_action_token c a purpose ttl now p))"
| verify_email: "auth_step c p (snd (verify_email_action c token now p))"
| reset_password: "auth_step c p (snd (reset_password_action c token pw now p))"
| create_user: "auth_step c p (snd (create_user (as_identity c) request p))"
| update_password: "auth_step c p (snd (update_password (as_identity c) t u pw p))"
| set_status: "auth_step c p (snd (set_user_status (as_identity c) t u st ty p))"
| create_role: "auth_step c p (snd (create_role (as_identity c) r p))"
| assign_role: "auth_step c p (snd (assign_role (as_identity c) t u i p))"
| other_service: "uuid4_hex s = uuid4_hex (pl_store p) \<Longrightarrow> tick (pl_store p) \<le> tick s \<Longrightarrow> auth_step c p (p\<lparr>pl_store := s\<rparr>)"

inductive auth_steps :: "auth_settings \<Rightarrow> auth_platform \<Rightarrow> auth_platform \<Rightarrow> bool" for c where
  stop: "auth_steps c p p"
| step: "auth_steps c p q \<Longrightarrow> auth_step c q r \<Longrightarrow> auth_steps c p r"

context session_frame
begin

lemma step_frame: "auth_step c p q \<Longrightarrow> I p \<Longrightarrow> I q"
  by (induction rule: auth_step.induct)
    (auto intro: preserves_snd login_frame authenticate_frame logout_frame issue_action_frame verify_email_frame
      reset_password_frame create_user_frame update_password_frame set_user_status_frame create_role_frame
      assign_role_frame other)

lemma steps_frame: "auth_steps c p q \<Longrightarrow> I p \<Longrightarrow> I q"
  by (induction rule: auth_steps.induct) (auto intro: step_frame)

end

text \<open>Every session has an identifier the generator handed out, and those of a set stay revoked.\<close>

definition sessions_issued :: "auth_platform \<Rightarrow> bool" where
  "sessions_issued p \<longleftrightarrow> unique_uuids (pl_store p)
     \<and> (\<forall>i s. dict_get (au_sessions p) i = Some s \<longrightarrow> issued ''session'' (pl_store p) i \<and> se_id s = i)"

definition revoked_in :: "auth_platform \<Rightarrow> string \<Rightarrow> bool" where
  "revoked_in p i \<longleftrightarrow> (\<exists>s. dict_get (au_sessions p) i = Some s \<and> se_revoked_at s \<noteq> None)"

definition keeps_revoked :: "string set \<Rightarrow> auth_platform \<Rightarrow> bool" where
  "keeps_revoked S p \<longleftrightarrow> sessions_issued p \<and> (\<forall>i \<in> S. revoked_in p i)"

lemma dict_get_map_values: "dict_get (map (\<lambda>kv. (fst kv, f (snd kv))) d) k = map_option f (dict_get d k)"
  by (induction d) auto

lemma keeps_revoked_create: "preserves (keeps_revoked S) (create_session t u a b)"
proof (rule preservesI)
  fix p r q
  assume inv: "keeps_revoked S p" and run: "create_session t u a b p = (r, q)"
  let ?i = "''session'' @ ''_'' @ uuid4_hex (pl_store p) (tick (pl_store p))"
  have q: "q = p\<lparr>pl_store := (pl_store p)\<lparr>tick := Suc (tick (pl_store p))\<rparr>,
      au_sessions := dict_set ?i \<lparr>se_id = ?i, se_tenant_id = t, se_user_id = u, se_issued_at = a,
        se_expires_at = b, se_revoked_at = None\<rparr> (au_sessions p)\<rparr>"
    using run by (simp add: create_session_def Let_def on_store_eval new_id_def op_simps)
  have fresh: "\<not> issued ''session'' (pl_store p) ?i"
    using inv by (auto simp: keeps_revoked_def sessions_issued_def unique_uuids_def issued_def dest: injD)
  have old: "issued ''session'' (pl_store p) i \<Longrightarrow> issued ''session'' (pl_store q) i" for i
    by (rule issued_mono) (auto simp: q)
  have new: "issued ''session'' (pl_store q) ?i"
    by (auto simp: issued_def q)
  have "sessions_issued q"
    using inv old new by (auto simp: keeps_revoked_def sessions_issued_def q unique_uuids_def split: if_splits)
  moreover have "revoked_in q i" if "i \<in> S" for i
  proof -
    have "revoked_in p i" using inv that by (simp add: keeps_revoked_def)
    moreover from this have "i \<noteq> ?i"
      using fresh inv by (auto simp: keeps_revoked_def sessions_issued_def revoked_in_def)
    ultimately show ?thesis by (simp add: revoked_in_def q)
  qed
  ultimately show "keeps_revoked S q" by (simp add: keeps_revoked_def)
qed

lemma keeps_revoked_revoke: "preserves (keeps_revoked S) (revoke_session t i r)"
proof -
  have "keeps_revoked S (p\<lparr>au_sessions := dict_set i (s\<lparr>se_revoked_at := Some r\<rparr>) (au_sessions p)\<rparr>)"
    if "keeps_revoked S p" "dict_get (au_sessions p) i = Some s" for p s
    using that by (auto simp: keeps_revoked_def sessions_issued_def revoked_in_def)
  then show ?thesis
    by (auto simp: preserves_def revoke_session_def get_session_def op_simps split: option.splits)
qed

definition close_sessions :: "string \<Rightarrow> string \<Rightarrow> datetime \<Rightarrow> auth_session \<Rightarrow> auth_session" where
  "close_sessions t u r s = (if open_session_of t u s then s\<lparr>se_revoked_at := Some r\<rparr> else s)"

lemma revoke_user_eval:
  "snd (revoke_user_sessions t u r p)
     = p\<lparr>au_sessions := map (\<lambda>kv. (fst kv, close_sessions t u r (snd kv))) (au_sessions p)\<rparr>"
  by (simp add: revoke_user_sessions_def op_simps close_sessions_def)

lemma close_sessions_simps:
  "se_id (close_sessions t u r s) = se_id s" "se_tenant_id (close_sessions t u r s) = se_tenant_id s"
  "se_user_id (close_sessions t u r s) = se_user_id s"
  "se_revoked_at s \<noteq> None \<Longrightarrow> se_revoked_at (close_sessions t u r s) \<noteq> None"
  by (simp_all add: close_sessions_def)

lemma keeps_revoked_user: "preserves (keeps_revoked S) (revoke_user_sessions t u r)"
proof -
  have "revoked_in (snd (revoke_user_sessions t u r p)) i" if "revoked_in p i" for p i
    using that close_sessions_simps(4) by (fastforce simp: revoked_in_def revoke_user_eval dict_get_map_values)
  then show ?thesis
    by (auto simp: preserves_def keeps_revoked_def sessions_issued_def revoke_user_eval dict_get_map_values
        close_sessions_simps)
qed

lemma keeps_revoked_other:
  assumes "keeps_revoked S p" and "uuid4_hex s = uuid4_hex (pl_store p)" and "tick (pl_store p) \<le> tick s"
  shows "keeps_revoked S (p\<lparr>pl_store := s\<rparr>)"
  using assms
  by (auto simp: keeps_revoked_def sessions_issued_def revoked_in_def unique_uuids_def intro: issued_mono)

interpretation revoked: session_frame "keeps_revoked S" for S
  by unfold_locales
    (auto simp: keeps_revoked_other keeps_revoked_create keeps_revoked_revoke keeps_revoked_user,
     auto simp: keeps_revoked_def sessions_issued_def revoked_in_def)

lemma steps_keep_revoked:
  "auth_steps c p q \<Longrightarrow> sessions_issued p \<Longrightarrow> revoked_in p i \<Longrightarrow> revoked_in q i"
  using revoked.steps_frame [of c p q "{i}"] by (simp add: keeps_revoked_def)

lemma live_not_revoked: "live_session p cl now \<Longrightarrow> \<not> revoked_in p (cl_session_id cl)"
  by (auto simp: live_session_def revoked_in_def)

section \<open>The token of a login\<close>

definition claims_text :: "auth_settings \<Rightarrow> auth_token_claims \<Rightarrow> string" where
  "claims_text c cl = utf8_encode (json_dumps (\<lambda>_. []) True '','' '':'' (sort_keys (dump_claims c cl)))"

text \<open>What pydantic promises: reading the text of claims gives the claims back.\<close>

definition read_back :: "auth_settings \<Rightarrow> auth_token_claims \<Rightarrow> bool" where
  "read_back c cl \<longleftrightarrow> as_parse_claims c (claims_text c cl) = Some cl"

lemma url_safe_is_ascii: "url_safe s \<Longrightarrow> is_ascii s"
  using url_safe_ascii by (auto simp: is_ascii_def)

lemma split_payload:
  assumes "CHR ''.'' \<notin> set payload"
  shows "split_token (payload @ ''.'' @ signature) = Some (payload, signature)"
proof -
  have "takeWhile ((\<noteq>) CHR ''.'') (payload @ ''.'' @ signature) = payload"
    using assms by (auto simp: takeWhile_append takeWhile_eq_all_conv)
  moreover have "dropWhile ((\<noteq>) CHR ''.'') (payload @ ''.'' @ signature) = ''.'' @ signature"
    using assms by (auto simp: dropWhile_append dropWhile_eq_Nil_conv)
  ultimately show ?thesis by (simp add: split_token_def cut_def)
qed

lemma validate_issued_token:
  assumes "read_back c cl"
  shows "validate_token c (issue_token c cl) now = accept_claims cl now"
proof -
  let ?payload = "encode_bytes (claims_text c cl)"
  have token: "issue_token c cl = ?payload @ ''.'' @ sign c ?payload"
    by (simp add: issue_token_def encode_json_def claims_text_def Let_def)
  have "compare_digest (sign c ?payload) (sign c ?payload) = Inr True"
    using url_safe_is_ascii [OF encode_bytes_url_safe] by (simp add: compare_digest_def sign_def)
  moreover have "Option.bind (decode_text ?payload) (as_parse_claims c) = Some cl"
    using url_safe_is_ascii [OF encode_bytes_url_safe, of "claims_text c cl"] assms
    by (simp add: decode_text_def decode_encode_bytes read_back_def)
  moreover have "split_token (issue_token c cl) = Some (?payload, sign c ?payload)"
    unfolding token using url_safe_no_dot [OF encode_bytes_url_safe] by (rule split_payload)
  ultimately show ?thesis
    by (simp add: validate_token_def lift_error_def fun_eq_iff op_simps)
qed

lemma readonly_lift_error: "readonly (lift_error r)"
  by (cases r) (simp_all add: lift_error_def readonly_rules)

lemma readonly_get_user: "readonly (get_user t u)"
  unfolding get_user_def by (intro readonly_rules)

lemma readonly_login_candidate: "readonly (login_candidate c pw a)"
  unfolding login_candidate_def verify_password_def get_user_by_email_def
  by (intro readonly_rules readonly_lift_error readonly_get_user)

lemma filter_op_Inr:
  assumes "\<And>x. readonly (f x)"
  shows "filter_op f xs p = (Inr ys, q) \<Longrightarrow> q = p \<and> set ys = {x \<in> set xs. f x p = (Inr True, p)}"
proof (induction xs arbitrary: ys)
  case Nil
  then show ?case by (auto simp: ret_def)
next
  case (Cons x xs)
  then obtain b p1 zs where x: "f x p = (Inr b, p1)" and zs: "filter_op f xs p1 = (Inr zs, q)"
      and ys: "ys = (if b then x # zs else zs)"
    by (auto simp: andThen_Inr_iff ret_Inr_iff)
  have "p1 = p" using readonlyD [OF assms x] .
  note x = x [unfolded this] and zs = zs [unfolded this]
  have "q = p" and mem: "set zs = {x \<in> set xs. f x p = (Inr True, p)}" using Cons.IH [OF zs] by simp_all
  moreover have "f x p = (Inr True, p) \<longleftrightarrow> b" by (simp add: x)
  ultimately show ?case by (cases b) (simp_all add: ys, blast+)
qed

lemma preferred_subset: "set (preferred_matches t xs) \<subseteq> set xs"
  by (auto simp: preferred_matches_def Let_def)

lemma dict_valuesD: "dict_ok d \<Longrightarrow> v \<in> set (dict_values d) \<Longrightarrow> \<exists>k. dict_get d k = Some v"
  by (simp add: dict_values_get)

definition login_claims ::
  "auth_platform \<Rightarrow> user_account \<Rightarrow> string \<Rightarrow> datetime \<Rightarrow> datetime \<Rightarrow> auth_token_claims" where
  "login_claims p a i from_time until =
     \<lparr>cl_session_id = i, cl_tenant_id = ua_tenant_id a, cl_user_id = ua_id a, cl_email = ua_email a,
      cl_display_name = ua_display_name a,
      cl_role_ids = map ra_role_id (filter (\<lambda>r. ra_tenant_id r = ua_tenant_id a \<and> ra_user_id r = ua_id a) (id_assignments p)),
      cl_issued_at = from_time, cl_expires_at = until\<rparr>"

definition login_session :: "user_account \<Rightarrow> string \<Rightarrow> datetime \<Rightarrow> datetime \<Rightarrow> auth_session" where
  "login_session a i from_time until =
     \<lparr>se_id = i, se_tenant_id = ua_tenant_id a, se_user_id = ua_id a, se_issued_at = from_time,
      se_expires_at = until, se_revoked_at = None\<rparr>"

lemma find_users_Inr: "find_users_by_email e p = (Inr us, q) \<Longrightarrow> q = p \<and> set us \<subseteq> set (dict_values (id_users p))"
  by (auto simp: find_users_by_email_def Inr_iffs lift_error_Inr)

lemma create_session_Inr:
  assumes "create_session t u a b p = (Inr s, q)"
  shows "dict_get (au_sessions q) (se_id s) = Some s \<and> s = \<lparr>se_id = se_id s, se_tenant_id = t, se_user_id = u,
      se_issued_at = a, se_expires_at = b, se_revoked_at = None\<rparr>
    \<and> id_users q = id_users p \<and> id_assignments q = id_assignments p"
proof -
  obtain i st where "on_store (new_id ''session'') p = (Inr i, p\<lparr>pl_store := st\<rparr>)"
    by (simp add: on_store_eval new_id_def)
  then show ?thesis
    using assms by (auto simp: create_session_def Let_def op_simps)
qed

lemma login_Inr:
  assumes "login c tenant email pw (Some t0) remember p = (Inr r, q)"
  obtains a i until where "a \<in> set (dict_values (id_users p))" and "ua_status a = US_ACTIVE"
    and "login_candidate c pw a p = (Inr True, p)"
    and "r = \<lparr>lr_access_token = issue_token c (login_claims p a i t0 until), lr_session_id = i,
      lr_expires_at = until, lr_tenant_id = ua_tenant_id a, lr_user_id = ua_id a, lr_display_name = ua_display_name a\<rparr>"
    and "dict_get (au_sessions q) i = Some (login_session a i t0 until)"
    and "id_users q = id_users p" and "id_assignments q = id_assignments p"
    and "dict_get (id_users p) (ua_id a) \<noteq> None"
    and "until = t0 + (if remember then as_remembered_access_token_ttl_seconds c else as_access_token_ttl_seconds c) * 1000000"
proof -
  let ?until = "t0 + (if remember then as_remembered_access_token_ttl_seconds c
    else as_access_token_ttl_seconds c) * 1000000"
  obtain us found p1 p2 a where us: "find_users_by_email email p = (Inr us, p1)"
      and found: "filter_op (login_candidate c pw) us p1 = (Inr found, p2)"
      and a: "preferred_matches tenant found = [a]"
      and rest: "andThen (auth_now (Some t0)) (\<lambda>issued_at.
         let ttl_seconds = (if remember then as_remembered_access_token_ttl_seconds c
                            else as_access_token_ttl_seconds c);
             expires_at = issued_at + ttl_seconds * 1000000 in
         andThen (create_session (ua_tenant_id a) (ua_id a) issued_at expires_at) (\<lambda>session.
         andThen (claims_for_account a (se_id session) issued_at expires_at) (\<lambda>claims.
         ret \<lparr>lr_access_token = issue_token c claims, lr_session_id = se_id session,
              lr_expires_at = cl_expires_at claims, lr_tenant_id = cl_tenant_id claims,
              lr_user_id = cl_user_id claims, lr_display_name = cl_display_name claims\<rparr>))) p2 = (Inr r, q)"
    using assms unfolding login_def
    by (elim andThen_Inr_E) (auto simp: raise_Inr_iff split: list.splits)
  have p1: "p1 = p" "set us \<subseteq> set (dict_values (id_users p))" using find_users_Inr [OF us] by auto
  have p2: "p2 = p" and "set found = {x \<in> set us. login_candidate c pw x p = (Inr True, p)}"
    using filter_op_Inr [OF readonly_login_candidate found] p1 by auto
  then have mem: "a \<in> set us" "login_candidate c pw a p = (Inr True, p)"
    using preferred_subset [of tenant found] a by auto
  then have active: "ua_status a = US_ACTIVE"
    by (auto simp: login_candidate_def ret_def split: if_splits)
  obtain s p3 where s: "create_session (ua_tenant_id a) (ua_id a) t0 ?until p = (Inr s, p3)"
      and claims: "andThen (claims_for_account a (se_id s) t0 ?until) (\<lambda>claims.
         ret \<lparr>lr_access_token = issue_token c claims, lr_session_id = se_id s,
              lr_expires_at = cl_expires_at claims, lr_tenant_id = cl_tenant_id claims,
              lr_user_id = cl_user_id claims, lr_display_name = cl_display_name claims\<rparr>) p3 = (Inr r, q)"
    using rest p2 by (auto simp: Let_def andThen_Inr_iff auth_now_Some)
  note new = create_session_Inr [OF s]
  have "q = p3" "dict_get (id_users p) (ua_id a) \<noteq> None"
      "r = \<lparr>lr_access_token = issue_token c (login_claims p a (se_id s) t0 ?until), lr_session_id = se_id s,
        lr_expires_at = ?until, lr_tenant_id = ua_tenant_id a, lr_user_id = ua_id a,
        lr_display_name = ua_display_name a\<rparr>"
    using claims new
    by (auto simp: claims_for_account_def list_role_ids_for_user_def Inr_iffs get_user_Inr login_claims_def)
  then show thesis
    using that [of a "se_id s" ?until] mem active new p1 by (auto simp: login_session_def)
qed

lemma accept_login_claims:
  assumes "dict_get (au_sessions p) i = Some (login_session a i t0 until)"
    and "dict_get (id_users p) (ua_id a) = Some a" and "ua_status a = US_ACTIVE" and "t < until"
  shows "accept_claims (login_claims p a i t0 until) (Some t) p = (Inr (login_claims p a i t0 until), p)"
  using assms
  by (simp add: accept_claims_def check_session_def get_session_def login_claims_def login_session_def
      auth_now_Some get_user_or_def get_user_def list_role_ids_for_user_def op_simps)

section \<open>Properties\<close>

text \<open>C30: a bearer token is accepted only if it is the payload some claims are read from followed by
  the signature of that payload, the claims have not expired, and the session they name exists, is of
  the same tenant and user, is neither revoked nor expired, and the account exists in that tenant and is
  active; the address answered is the account's.\<close>

theorem accepted_tokens_are_live:
  assumes "validate_token c token (Some now) p = (Inr cl, q)"
  shows "(\<exists>payload claims. token = payload @ ''.'' @ sign c payload
      \<and> Option.bind (decode_text payload) (as_parse_claims c) = Some claims \<and> same_bearer claims cl)
    \<and> now < cl_expires_at cl
    \<and> (\<exists>s. dict_get (au_sessions p) (cl_session_id cl) = Some s \<and> se_tenant_id s = cl_tenant_id cl
        \<and> se_user_id s = cl_user_id cl \<and> se_revoked_at s = None \<and> now < se_expires_at s)
    \<and> (\<exists>a. dict_get (id_users p) (cl_user_id cl) = Some a \<and> ua_tenant_id a = cl_tenant_id cl
        \<and> ua_status a = US_ACTIVE \<and> cl_email cl = ua_email a)"
proof -
  obtain payload claims where token: "token = payload @ ''.'' @ sign c payload"
      "Option.bind (decode_text payload) (as_parse_claims c) = Some claims"
      and run: "accept_claims claims (Some now) p = (Inr cl, q)"
    using assms by (rule validate_token_Inr)
  from accept_claims_Inr [OF run] token show ?thesis by (auto simp: live_session_def)
qed

text \<open>C31: once a session is revoked, no sequence of calls of the services makes any token of that
  session valid again.\<close>

theorem revoked_sessions_stay_out:
  assumes "sessions_issued p" and "revoked_in p i" and "auth_steps c p q"
  shows "\<forall>token now cl r. validate_token c token now q = (Inr cl, r) \<longrightarrow> cl_session_id cl \<noteq> i"
proof (intro allI impI)
  fix token now cl r
  assume "validate_token c token now q = (Inr cl, r)"
  then obtain claims where "accept_claims claims now q = (Inr cl, r)" by (rule validate_token_Inr)
  then have "\<not> revoked_in q (cl_session_id cl)" using accept_claims_Inr live_not_revoked by blast
  then show "cl_session_id cl \<noteq> i" using steps_keep_revoked assms by blast
qed

definition accounts_keyed :: "auth_platform \<Rightarrow> bool" where
  "accounts_keyed p \<longleftrightarrow> dict_ok (id_users p) \<and> (\<forall>k a. dict_get (id_users p) k = Some a \<longrightarrow> ua_id a = k)"

definition belongs_to :: "auth_session \<Rightarrow> user_account \<Rightarrow> bool" where
  "belongs_to s a \<longleftrightarrow> se_tenant_id s = ua_tenant_id a \<and> se_user_id s = ua_id a"

lemma revoke_user_closes:
  assumes "revoke_user_sessions t u r p = (x, q)" and "dict_get (au_sessions q) i = Some s"
    and "se_tenant_id s = t" and "se_user_id s = u"
  shows "revoked_in q i"
proof -
  have q: "q = snd (revoke_user_sessions t u r p)" using assms(1) by simp
  obtain s0 where "s = close_sessions t u r s0"
    using assms(2) by (auto simp: q revoke_user_eval dict_get_map_values)
  then have "se_revoked_at s \<noteq> None"
    using assms(3,4) by (auto simp: close_sessions_def open_session_of_def split: if_splits)
  then show ?thesis using assms(2) by (simp add: revoked_in_def)
qed

lemma validate_action_Inr:
  assumes "validate_action_token c token purpose (Some now) p = (Inr a, q)"
  shows "q = p \<and> (\<exists>k. dict_get (id_users p) k = Some a) \<and> (\<exists>payload claims.
      token = payload @ ''.'' @ sign_action c payload a
      \<and> Option.bind (decode_text payload) (as_parse_action_claims c) = Some claims
      \<and> ac_purpose claims = purpose \<and> ac_credential_fingerprint claims = credential_fingerprint c a
      \<and> now < ac_claim_expires_at claims)"
proof -
  obtain payload signature claims where token: "split_token token = Some (payload, signature)"
      and claims: "Option.bind (decode_text payload) (as_parse_action_claims c) = Some claims"
      and same: "compare_digest signature (sign_action c payload a) = Inr True"
      and rest: "q = p" "dict_get (id_users p) (ac_claim_user_id claims) = Some a" "ac_purpose claims = purpose"
        "ac_credential_fingerprint claims = credential_fingerprint c a" "\<not> ac_claim_expires_at claims \<le> now"
    using assms unfolding validate_action_token_def
    by (auto simp: Inr_iffs lift_error_Inr get_user_or_Inr auth_now_Some split: option.splits prod.splits)
  have "token = payload @ ''.'' @ sign_action c payload a"
    using split_token_Some [OF token] compare_digest_Inr [OF same] by simp
  with claims rest show ?thesis by auto
qed

lemma update_password_users:
  assumes "update_password i t u pw p = (Inr a, q)"
  shows "\<exists>a0. dict_get (id_users p) u = Some a0 \<and> ua_tenant_id a0 = t \<and> ua_id a = ua_id a0 \<and> ua_tenant_id a = t"
  using assms unfolding update_password_def Let_def
  by (elim andThen_Inr_E) (auto simp: Inr_iffs get_user_Inr)

lemma reset_password_Inr:
  assumes "reset_password_action c token pw now p = (Inr a, q)" and "accounts_keyed p"
  obtains r p3 x where "revoke_user_sessions (ua_tenant_id a) (ua_id a) r p3 = (x, q)"
proof -
  obtain t p1 b p2 p3 r where now: "auth_now now p = (Inr t, p1)"
      and action: "validate_action_token c token PASSWORD_RESET (Some t) p1 = (Inr b, p2)"
      and upd: "update_password (as_identity c) (ua_tenant_id b) (ua_id b) pw p2 = (Inr a, p3)"
      and revoke: "revoke_user_sessions (ua_tenant_id b) (ua_id b) t p3 = (r, q)"
    using assms(1) unfolding reset_password_action_def
    by (elim andThen_Inr_E) (auto simp: Inr_iffs split: if_splits)
  have "accounts_keyed p2"
    using assms(2) auth_now_Inr [OF now] validate_action_Inr [OF action]
    by (simp add: accounts_keyed_def same_accounts_def)
  then have "ua_id a = ua_id b" "ua_tenant_id a = ua_tenant_id b"
    using update_password_users [OF upd] by (auto simp: accounts_keyed_def)
  then show thesis using that revoke by simp
qed

text \<open>C32: after a password was reset, no sequence of calls of the services makes a token of a session
  the account had at that moment valid again.\<close>

theorem reset_locks_out_old_sessions:
  assumes "reset_password_action c token pw now p = (Inr a, q)" and "accounts_keyed p" and "sessions_issued p"
    and "dict_get (au_sessions q) i = Some s" and "belongs_to s a" and "auth_steps c q r"
  shows "\<forall>token now cl t. validate_token c token now r = (Inr cl, t) \<longrightarrow> cl_session_id cl \<noteq> i"
proof -
  obtain at0 p3 x where "revoke_user_sessions (ua_tenant_id a) (ua_id a) at0 p3 = (x, q)"
    using assms(1,2) by (rule reset_password_Inr)
  then have "revoked_in q i"
    using revoke_user_closes assms(4,5) by (simp add: belongs_to_def)
  moreover have "sessions_issued q"
    using preservesD [OF revoked.reset_password_frame [of "{}"] _ assms(1)] assms(3) by (simp add: keeps_revoked_def)
  ultimately have "revoked_in r i" using steps_keep_revoked assms(6) by blast
  then show ?thesis
    by (metis accept_claims_Inr live_not_revoked validate_token_Inr)
qed

text \<open>The claims of the bearer of a login, as the platform after the login has them.\<close>

definition bearer_claims :: "auth_platform \<Rightarrow> auth_login_result \<Rightarrow> datetime \<Rightarrow> auth_token_claims" where
  "bearer_claims q r from_time =
     \<lparr>cl_session_id = lr_session_id r, cl_tenant_id = lr_tenant_id r, cl_user_id = lr_user_id r,
      cl_email = (case dict_get (id_users q) (lr_user_id r) of None \<Rightarrow> [] | Some a \<Rightarrow> ua_email a),
      cl_display_name = lr_display_name r,
      cl_role_ids = map ra_role_id (filter (\<lambda>a. ra_tenant_id a = lr_tenant_id r \<and> ra_user_id a = lr_user_id r)
        (id_assignments q)),
      cl_issued_at = from_time, cl_expires_at = lr_expires_at r\<rparr>"

text \<open>C33: the access token of a login is accepted until it expires, if pydantic reads the text of its
  claims back, and gives the session, tenant, account, address and roles of the login.\<close>

theorem login_tokens_are_accepted:
  assumes "login c tenant email pw (Some t0) remember p = (Inr r, q)" and "accounts_keyed p"
    and "read_back c (bearer_claims q r t0)" and "t < lr_expires_at r"
  shows "validate_token c (lr_access_token r) (Some t) q = (Inr (bearer_claims q r t0), q)"
proof -
  obtain a i until where a: "a \<in> set (dict_values (id_users p))" "ua_status a = US_ACTIVE"
      and r: "r = \<lparr>lr_access_token = issue_token c (login_claims p a i t0 until), lr_session_id = i,
        lr_expires_at = until, lr_tenant_id = ua_tenant_id a, lr_user_id = ua_id a,
        lr_display_name = ua_display_name a\<rparr>"
      and q: "dict_get (au_sessions q) i = Some (login_session a i t0 until)" "id_users q = id_users p"
        "id_assignments q = id_assignments p"
    using assms(1) by (rule login_Inr)
  obtain k where "dict_get (id_users p) k = Some a"
    using dict_valuesD [OF _ a(1)] assms(2) by (auto simp: accounts_keyed_def)
  then have user: "dict_get (id_users q) (ua_id a) = Some a"
    using assms(2) q(2) by (auto simp: accounts_keyed_def)
  have claims: "login_claims p a i t0 until = bearer_claims q r t0" "login_claims q a i t0 until = bearer_claims q r t0"
    using user by (simp_all add: login_claims_def bearer_claims_def r q(3))
  have "accept_claims (login_claims q a i t0 until) (Some t) q = (Inr (login_claims q a i t0 until), q)"
    using q(1) user a(2) assms(4) by (intro accept_login_claims) (simp_all add: r)
  moreover have "lr_access_token r = issue_token c (bearer_claims q r t0)"
    unfolding claims(1) [symmetric] by (simp add: r)
  ultimately show ?thesis
    using validate_issued_token [OF assms(3)] by (simp add: claims(2))
qed

section \<open>The token of a reset\<close>

definition action_text :: "auth_settings \<Rightarrow> auth_action_claims \<Rightarrow> string" where
  "action_text c cl = utf8_encode (json_dumps (\<lambda>_. []) True '','' '':'' (sort_keys (dump_action_claims c cl)))"

definition action_claims :: "auth_settings \<Rightarrow> user_account \<Rightarrow> action_purpose \<Rightarrow> datetime \<Rightarrow> auth_action_claims" where
  "action_claims c a purpose until = \<lparr>ac_purpose = purpose, ac_claim_tenant_id = ua_tenant_id a,
     ac_claim_user_id = ua_id a, ac_credential_fingerprint = credential_fingerprint c a,
     ac_claim_expires_at = until\<rparr>"

lemma issued_action_token:
  assumes "issue_action_token c a purpose ttl (Some t0) p = (Inr token, q)"
    and "dict_get (id_users p) (ua_id a) = Some a" and "now < t0 + ttl * 1000000"
    and "as_parse_action_claims c (action_text c (action_claims c a purpose (t0 + ttl * 1000000)))
      = Some (action_claims c a purpose (t0 + ttl * 1000000))"
  shows "validate_action_token c token purpose (Some now) p = (Inr a, p)"
proof -
  let ?cl = "action_claims c a purpose (t0 + ttl * 1000000)"
  let ?payload = "encode_bytes (action_text c ?cl)"
  have token: "token = ?payload @ ''.'' @ sign_action c ?payload a"
    using assms(1)
    by (simp add: issue_action_token_def auth_now_Some op_simps Let_def encode_json_def action_text_def action_claims_def)
  have "compare_digest (sign_action c ?payload a) (sign_action c ?payload a) = Inr True"
    using url_safe_is_ascii [OF encode_bytes_url_safe] by (simp add: compare_digest_def sign_action_def)
  moreover have "Option.bind (decode_text ?payload) (as_parse_action_claims c) = Some ?cl"
    using url_safe_is_ascii [OF encode_bytes_url_safe, of "action_text c ?cl"] assms(4)
    by (simp add: decode_text_def decode_encode_bytes)
  moreover have "split_token token = Some (?payload, sign_action c ?payload a)"
    unfolding token using url_safe_no_dot [OF encode_bytes_url_safe] by (rule split_payload)
  ultimately show ?thesis
    using assms(2,3)
    by (simp add: validate_action_token_def lift_error_def op_simps action_claims_def get_user_or_def get_user_def
        auth_now_Some)
qed

section \<open>A login, a reset\<close>

definition demo_hasher :: password_hasher where
  "demo_hasher = \<lparr>ph_algorithm = ''h'', ph_iterations = 1, ph_salt = ''p'', ph_salt_bytes = 2,
     ph_pbkdf2_hex = (\<lambda>pw salt n. salt @ pw)\<rparr>"

definition demo_account :: user_account where
  "demo_account = \<lparr>ua_id = ''u1'', ua_tenant_id = ''t'', ua_email = ''a@b'', ua_display_name = ''A'',
     ua_password_hash = ''h$1$s$s:psecret'', ua_status = US_ACTIVE, ua_created_at = 0\<rparr>"

definition demo_auth_platform :: auth_platform where
  "demo_auth_platform = \<lparr>pl_store = empty_store int (\<lambda>n. replicate n CHR ''x'') False, pl_last_status = [],
     pl_active_validation = [], id_users = [(''u1'', demo_account)],
     id_user_ids_by_tenant_email = [(''t:a@b'', ''u1'')], id_roles = [], id_assignments = [], au_sessions = []\<rparr>"

definition demo_claims :: auth_token_claims where
  "demo_claims = \<lparr>cl_session_id = ''session_'', cl_tenant_id = ''t'', cl_user_id = ''u1'', cl_email = ''a@b'',
     cl_display_name = ''A'', cl_role_ids = [], cl_issued_at = 5, cl_expires_at = 3000005\<rparr>"

text \<open>The parsers of the example know one token each; the others are refused.\<close>

definition demo_auth_base :: auth_settings where
  "demo_auth_base = \<lparr>as_identity = \<lparr>is_platform = demo_settings, is_hasher = demo_hasher, is_audits = False,
       is_token_urlsafe = (\<lambda>n k. ''s'')\<rparr>,
     as_access_token_secret = ''k'', as_access_token_ttl_seconds = 3, as_remembered_access_token_ttl_seconds = 9,
     as_hmac_sha256 = (\<lambda>k m. take 1 k @ take 3 m), as_sha256_hex = take 3, as_dump_datetime = show_int,
     as_parse_claims = (\<lambda>text. None), as_parse_action_claims = (\<lambda>text. None),
     as_password_login_allowed = (\<lambda>_ _. True)\<rparr>"

definition demo_action_claims :: auth_action_claims where
  "demo_action_claims = action_claims demo_auth_base demo_account PASSWORD_RESET 9000000"

definition demo_auth :: auth_settings where
  "demo_auth = demo_auth_base\<lparr>
     as_parse_claims := (\<lambda>text. if text = claims_text demo_auth_base demo_claims then Some demo_claims else None),
     as_parse_action_claims := (\<lambda>text. if text = action_text demo_auth_base demo_action_claims
       then Some demo_action_claims else None)\<rparr>"

definition demo_login :: "auth_login_result" where
  "demo_login = \<lparr>lr_access_token = issue_token demo_auth demo_claims, lr_session_id = ''session_'',
     lr_expires_at = 3000005, lr_tenant_id = ''t'', lr_user_id = ''u1'', lr_display_name = ''A''\<rparr>"

lemma demo_fields:
  "ua_id demo_account = ''u1''" "ua_tenant_id demo_account = ''t''" "ua_email demo_account = ''a@b''"
  "ua_display_name demo_account = ''A''" "ua_status demo_account = US_ACTIVE"
  "is_hasher (as_identity demo_auth) = demo_hasher" "\<not> is_audits (as_identity demo_auth)"
  "as_password_login_allowed demo_auth t e"
  "as_access_token_ttl_seconds demo_auth = 3" "id_users demo_auth_platform = [(''u1'', demo_account)]"
  "id_user_ids_by_tenant_email demo_auth_platform = [(''t:a@b'', ''u1'')]"
  "id_assignments demo_auth_platform = []" "au_sessions demo_auth_platform = []"
  "pl_store demo_auth_platform = empty_store int (\<lambda>n. replicate n CHR ''x'') False"
  by (simp_all add: demo_account_def demo_auth_def demo_auth_base_def demo_auth_platform_def)

lemma demo_reads_back: "read_back demo_auth demo_claims"
  by (simp add: read_back_def demo_auth_def claims_text_def dump_claims_def)

lemma demo_action_reads_back:
  "as_parse_action_claims demo_auth (action_text demo_auth (action_claims demo_auth demo_account PASSWORD_RESET 9000000))
     = Some (action_claims demo_auth demo_account PASSWORD_RESET 9000000)"
proof -
  have "action_claims demo_auth demo_account PASSWORD_RESET 9000000 = demo_action_claims"
    by (simp add: demo_action_claims_def action_claims_def credential_fingerprint_def demo_auth_def)
  then show ?thesis
    by (simp add: demo_auth_def action_text_def dump_action_claims_def)
qed

lemma demo_found: "find_users_by_email ''A@b '' demo_auth_platform = (Inr [demo_account], demo_auth_platform)"
proof -
  have "normalize_email ''A@b '' = Inr ''a@b''" "normalize_email ''a@b'' = Inr ''a@b''" by code_simp+
  then show ?thesis
    by (simp add: find_users_by_email_def lift_error_def op_simps demo_fields dict_values_def)
qed

lemma demo_candidate: "login_candidate demo_auth ''secret'' demo_account demo_auth_platform = (Inr True, demo_auth_platform)"
proof -
  have "tenant_email_key ''t'' ''a@b'' = Inr ''t:a@b''" by code_simp
  moreover have "verify_password_hash demo_hasher ''secret'' (ua_password_hash demo_account) = Inr True" by code_simp
  ultimately show ?thesis
    by (simp add: login_candidate_def verify_password_def get_user_by_email_def get_user_def lift_error_def op_simps
        demo_fields)
qed

lemma demo_logs_in:
  "\<exists>q. login demo_auth None ''A@b '' ''secret'' (Some 5) False demo_auth_platform = (Inr demo_login, q)
    \<and> id_users q = [(''u1'', demo_account)] \<and> id_assignments q = []
    \<and> au_sessions q = [(''session_'', login_session demo_account ''session_'' 5 3000005)]"
  by (simp add: login_def demo_found demo_candidate preferred_matches_def op_simps auth_now_Some Let_def
     create_session_def on_store_eval new_id_def claims_for_account_def list_role_ids_for_user_def get_user_def
     demo_fields empty_store_def demo_login_def demo_claims_def login_session_def)

lemma login_tokens_are_accepted_witness:
  "\<exists>q. validate_token demo_auth (lr_access_token demo_login) (Some 7) q = (Inr demo_claims, q)
     \<and> validate_token demo_auth (lr_access_token demo_login) (Some 3000005) q
       = (Inl (AuthRequiredError ''access token expired''), q)"
proof -
  obtain q where run: "login demo_auth None ''A@b '' ''secret'' (Some 5) False demo_auth_platform = (Inr demo_login, q)"
      and q: "id_users q = [(''u1'', demo_account)]" "id_assignments q = []"
    using demo_logs_in by blast
  have bearer: "bearer_claims q demo_login 5 = demo_claims"
    by (simp add: bearer_claims_def demo_login_def demo_claims_def q demo_fields)
  have keyed: "accounts_keyed demo_auth_platform"
    by (simp add: accounts_keyed_def demo_fields dict_ok_def)
  have until: "lr_expires_at demo_login = 3000005" "lr_access_token demo_login = issue_token demo_auth demo_claims"
    by (simp_all add: demo_login_def)
  have "validate_token demo_auth (lr_access_token demo_login) (Some 7) q = (Inr demo_claims, q)"
    using login_tokens_are_accepted [OF run keyed, of 7] demo_reads_back by (simp add: bearer until)
  moreover have "validate_token demo_auth (lr_access_token demo_login) (Some 3000005) q
      = accept_claims demo_claims (Some 3000005) q"
    using validate_issued_token [OF demo_reads_back] by (simp add: until)
  moreover have "accept_claims demo_claims (Some 3000005) q = (Inl (AuthRequiredError ''access token expired''), q)"
    by (simp add: accept_claims_def auth_now_Some op_simps demo_claims_def)
  ultimately show ?thesis by auto
qed

text \<open>A platform on which the session of that login is open, and one on which it is revoked.\<close>

definition demo_session_platform :: "datetime option \<Rightarrow> auth_platform" where
  "demo_session_platform revoked = demo_auth_platform\<lparr>
     pl_store := (pl_store demo_auth_platform)\<lparr>tick := 1\<rparr>,
     au_sessions := [(''session_'', (login_session demo_account ''session_'' 5 3000005)\<lparr>se_revoked_at := revoked\<rparr>)]\<rparr>"

lemma demo_session_ok: "sessions_issued (demo_session_platform r)" "accounts_keyed (demo_session_platform r)"
  by (simp_all add: sessions_issued_def demo_session_platform_def demo_fields accounts_keyed_def dict_ok_def
      unique_uuids_def inj_def issued_def empty_store_def login_session_def)

lemma demo_accepts:
  "validate_token demo_auth (issue_token demo_auth demo_claims) (Some 7) (demo_session_platform None)
     = (Inr demo_claims, demo_session_platform None)"
proof -
  let ?p = "demo_session_platform None"
  have claims: "login_claims ?p demo_account ''session_'' 5 3000005 = demo_claims"
    by (simp add: login_claims_def demo_claims_def demo_fields demo_session_platform_def)
  have "accept_claims (login_claims ?p demo_account ''session_'' 5 3000005) (Some 7) ?p
      = (Inr (login_claims ?p demo_account ''session_'' 5 3000005), ?p)"
    by (rule accept_login_claims) (simp_all add: demo_session_platform_def demo_fields login_session_def)
  then show ?thesis
    using validate_issued_token [OF demo_reads_back] by (simp add: claims)
qed

lemma accepted_tokens_are_live_witness:
  "\<exists>s a. dict_get (au_sessions (demo_session_platform None)) ''session_'' = Some s \<and> se_revoked_at s = None
     \<and> dict_get (id_users (demo_session_platform None)) ''u1'' = Some a \<and> ua_status a = US_ACTIVE \<and> ua_email a = ''a@b''"
  using accepted_tokens_are_live [OF demo_accepts] by (auto simp: demo_claims_def)

lemma revoked_sessions_stay_out_witness:
  "\<not> (\<exists>token now cl r. validate_token demo_auth token now
      (snd (login demo_auth None ''A@b '' ''secret'' (Some 5) False (demo_session_platform (Some 6)))) = (Inr cl, r)
    \<and> cl_session_id cl = ''session_'')"
proof -
  let ?p = "demo_session_platform (Some 6)"
  have "revoked_in ?p ''session_''"
    by (simp add: revoked_in_def demo_session_platform_def)
  moreover have "auth_steps demo_auth ?p (snd (login demo_auth None ''A@b '' ''secret'' (Some 5) False ?p))"
    by (rule auth_steps.step [OF auth_steps.stop auth_step.login])
  ultimately show ?thesis
    using revoked_sessions_stay_out [OF demo_session_ok(1)] by blast
qed

lemma demo_resets:
  "\<exists>token a q. reset_password_action demo_auth token ''changed!'' (Some 7) (demo_session_platform None) = (Inr a, q)
    \<and> ua_id a = ''u1'' \<and> ua_tenant_id a = ''t''
    \<and> au_sessions q = [(''session_'', (login_session demo_account ''session_'' 5 3000005)\<lparr>se_revoked_at := Some 7\<rparr>)]"
proof -
  let ?p = "demo_session_platform None"
  obtain token q where "issue_action_token demo_auth demo_account PASSWORD_RESET 9 (Some 0) ?p = (Inr token, q)"
    by (simp add: issue_action_token_def auth_now_Some op_simps Let_def)
  then have "validate_action_token demo_auth token PASSWORD_RESET (Some 7) ?p = (Inr demo_account, ?p)"
    using demo_action_reads_back issued_action_token [of demo_auth demo_account PASSWORD_RESET 9 0 ?p token q 7]
    by (simp add: demo_session_platform_def demo_fields)
  then show ?thesis
    by (intro exI [of _ token])
      (simp add: reset_password_action_def auth_now_Some op_simps demo_fields update_password_def get_user_def
        draw_token_def on_store_eval identity_audit_def Let_def revoke_user_sessions_def open_session_of_def
        demo_session_platform_def login_session_def)
qed

lemma reset_locks_out_old_sessions_witness:
  "\<exists>token q. ua_id (projr (fst (reset_password_action demo_auth token ''changed!'' (Some 7) (demo_session_platform None)))) = ''u1''
     \<and> q = snd (reset_password_action demo_auth token ''changed!'' (Some 7) (demo_session_platform None))
     \<and> (\<forall>token now cl t. validate_token demo_auth token now q = (Inr cl, t) \<longrightarrow> cl_session_id cl \<noteq> ''session_'')"
proof -
  obtain token a q where run:
      "reset_password_action demo_auth token ''changed!'' (Some 7) (demo_session_platform None) = (Inr a, q)"
      and a: "ua_id a = ''u1''" "ua_tenant_id a = ''t''"
      and q: "au_sessions q = [(''session_'', (login_session demo_account ''session_'' 5 3000005)\<lparr>se_revoked_at := Some 7\<rparr>)]"
    using demo_resets by blast
  have "\<forall>token now cl t. validate_token demo_auth token now q = (Inr cl, t) \<longrightarrow> cl_session_id cl \<noteq> ''session_''"
    using reset_locks_out_old_sessions [OF run demo_session_ok(2,1) _ _ auth_steps.stop, of "''session_''"] a
    by (simp add: q belongs_to_def login_session_def demo_fields)
  then show ?thesis
    using run a by (intro exI [of _ token] exI [of _ q]) simp
qed

section \<open>Permissions\<close>







end
