(* ===== verification/Organization.thy ===== *)
theory Organization
  imports Identity
begin

text \<open>
  \<^verbatim>\<open>TenantOrganizationService\<close> of \<^verbatim>\<open>taroai/tenancy.py\<close> over the in-memory store and identity service: the
  names of tenants and workspaces, invitations and the members of a tenant, every operation with the
  audit event it records. The HMAC of an invitation token is a parameter of the settings.
\<close>

section \<open>The service\<close>

record org_settings =
  og_identity :: identity_settings
  og_token_secret :: string
  og_hmac_sha256_hex :: "string \<Rightarrow> string \<Rightarrow> string"

record tenant_member =
  tm_id :: string
  tm_email :: string
  tm_display_name :: string
  tm_status :: account_status
  tm_role_ids :: "string list"
  tm_is_owner :: bool

record tenant_summary =
  ts_tenant :: tenant_info
  ts_workspaces :: "workspace_info list"
  ts_members :: "tenant_member list"
  ts_invitations :: "tenant_invitation list"
  ts_permissions :: "string list"
  ts_can_manage :: bool

record tenant_invitation_created =
  tc_invitation :: tenant_invitation
  tc_token :: string

record tenant_invitation_accept =
  ta_tenant_id :: string
  ta_token :: string
  ta_display_name :: string
  ta_password :: string

definition tenant_member_actions :: "string list" where
  "tenant_member_actions =
     [''skills.read'', ''skills.invoke'', ''connectors.read'', ''connectors.invoke'', ''triggers.read'',
      ''triggers.invoke'', ''storage.read'', ''storage.write'', ''memory.read'', ''memory.write'',
      ''memory.review'', ''knowledge.read'', ''knowledge.write'', ''sandbox.create'', ''sandbox.execute'',
      ''browser.act'', ''model_policy.read'', ''model_providers.read'', ''solution_packs.read'',
      ''sharing.read'', ''sharing.manage'', ''customer_success.feedback'']"

definition tenant_member_permissions :: "string \<Rightarrow> permission list" where
  "tenant_member_permissions tenant_id =
     map (\<lambda>a. \<lparr>pm_action = a, pm_resource = ''tenant:'' @ tenant_id\<rparr>) tenant_member_actions"

definition tenant_member_role :: "string \<Rightarrow> role" where
  "tenant_member_role tenant_id = \<lparr>ro_tenant_id = tenant_id, ro_id = ''tenant_member'', ro_name = ''Tenant Member'',
     ro_permissions = tenant_member_permissions tenant_id\<rparr>"

text \<open>\<open>try: m / except E: h\<close>.\<close>

definition catching :: "(error \<Rightarrow> bool) \<Rightarrow> ('s, 'a) op \<Rightarrow> ('s, 'a) op \<Rightarrow> ('s, 'a) op" where
  "catching caught m h = (\<lambda>s. case m s of
     (Inl e, t) \<Rightarrow> if caught e then h t else (Inl e, t)
   | (Inr x, t) \<Rightarrow> (Inr x, t))"

fun is_not_found :: "error \<Rightarrow> bool" where
  "is_not_found (NotFoundError _) = True"
| "is_not_found _ = False"

definition ensure_tenant_member_role :: "org_settings \<Rightarrow> string \<Rightarrow> ('b id_platform_scheme, role) op" where
  "ensure_tenant_member_role c tenant_id =
     catching is_not_found (get_role tenant_id ''tenant_member'')
       (create_role (og_identity c) (tenant_member_role tenant_id))"

definition org_token_hash :: "org_settings \<Rightarrow> string \<Rightarrow> string \<Rightarrow> string" where
  "org_token_hash c tenant_id token =
     og_hmac_sha256_hex c (utf8_encode (og_token_secret c))
       (utf8_encode (''tenant-invitation:v1:'' @ tenant_id @ '':'' @ token))"

definition org_audit ::
  "org_settings \<Rightarrow> string \<Rightarrow> string \<Rightarrow> string \<Rightarrow> json_obj \<Rightarrow> string option \<Rightarrow> ('b platform_scheme, unit) op" where
  "org_audit c tenant_id user_id event_type metadata workspace_id =
     void (audit_record (is_platform (og_identity c))
       \<lparr>ae_tenant_id = tenant_id, ae_workspace_id = workspace_id, ae_user_id = Some user_id, ae_run_id = None,
        ae_event_type = event_type, ae_metadata = metadata, ae_actor = None\<rparr>)"

section \<open>The summary\<close>

definition member_of :: "user_account \<Rightarrow> string list \<Rightarrow> bool \<Rightarrow> tenant_member" where
  "member_of a role_ids is_owner =
     \<lparr>tm_id = ua_id a, tm_email = ua_email a, tm_display_name = ua_display_name a, tm_status = ua_status a,
      tm_role_ids = role_ids, tm_is_owner = is_owner\<rparr>"

fun members_of :: "string \<Rightarrow> user_account list \<Rightarrow> ('b id_platform_scheme, tenant_member list) op" where
  "members_of tenant_id [] = ret []"
| "members_of tenant_id (a # as) =
     andThen (list_role_ids_for_user tenant_id (ua_id a)) (\<lambda>role_ids.
     andThen (members_of tenant_id as) (\<lambda>ms.
     ret (member_of a role_ids (''tenant_owner'' \<in> set role_ids) # ms)))"

text \<open>\<open>invitation.public()\<close> reads the clock anew for every invitation.\<close>

fun public_invitations :: "tenant_invitation_record list \<Rightarrow> ('b platform_scheme, tenant_invitation list) op" where
  "public_invitations [] = ret []"
| "public_invitations (i # is) =
     andThen (on_store utc_now) (\<lambda>now.
     andThen (public_invitations is) (\<lambda>ps. ret (invitation_public i now # ps)))"

definition org_summary :: "string \<Rightarrow> string \<Rightarrow> ('b id_platform_scheme, tenant_summary) op" where
  "org_summary tenant_id current_user_id =
     andThen (list_users tenant_id) (\<lambda>accounts.
     andThen (members_of tenant_id accounts) (\<lambda>members.
     andThen (list_role_ids_for_user tenant_id current_user_id) (\<lambda>role_ids.
     andThen (get_roles tenant_id role_ids) (\<lambda>roles.
     let permissions = sort (remdups (concat (map (\<lambda>r. map pm_action (ro_permissions r)) roles)));
         can_manage = ''organization.manage'' \<in> set permissions in
     andThen (on_store (get_tenant tenant_id)) (\<lambda>tenant.
     andThen (on_store (list_workspaces tenant_id)) (\<lambda>workspaces.
     andThen (if can_manage
              then andThen (on_store (list_tenant_invitations tenant_id)) public_invitations
              else ret []) (\<lambda>invitations.
     ret \<lparr>ts_tenant = tenant, ts_workspaces = workspaces, ts_members = members, ts_invitations = invitations,
          ts_permissions = permissions, ts_can_manage = can_manage\<rparr>)))))))"

section \<open>Tenants and workspaces\<close>

definition org_rename_tenant ::
  "org_settings \<Rightarrow> string \<Rightarrow> string \<Rightarrow> string \<Rightarrow> ('b platform_scheme, tenant_info) op" where
  "org_rename_tenant c tenant_id actor_user_id name =
     andThen (on_store (rename_tenant tenant_id (py_strip name))) (\<lambda>tenant.
     andThen (org_audit c tenant_id actor_user_id ''organization.renamed'' [(''name'', JStr (ti_name tenant))] None) (\<lambda>_.
     ret tenant))"

definition org_create_workspace ::
  "org_settings \<Rightarrow> string \<Rightarrow> string \<Rightarrow> string \<Rightarrow> ('b platform_scheme, workspace_info) op" where
  "org_create_workspace c tenant_id actor_user_id name =
     andThen (on_store (new_id ''workspace'')) (\<lambda>i.
     andThen (on_store (create_workspace tenant_id i actor_user_id (py_strip name))) (\<lambda>workspace.
     andThen (org_audit c tenant_id actor_user_id ''workspace.created''
       [(''workspace_id'', JStr (wi_id workspace)), (''name'', JStr (wi_name workspace))] (Some (wi_id workspace))) (\<lambda>_.
     ret workspace)))"

definition org_rename_workspace ::
  "org_settings \<Rightarrow> string \<Rightarrow> string \<Rightarrow> string \<Rightarrow> string \<Rightarrow> ('b platform_scheme, workspace_info) op" where
  "org_rename_workspace c tenant_id actor_user_id workspace_id name =
     andThen (on_store (rename_workspace tenant_id workspace_id (py_strip name))) (\<lambda>workspace.
     andThen (org_audit c tenant_id actor_user_id ''workspace.renamed''
       [(''workspace_id'', JStr (wi_id workspace)), (''name'', JStr (wi_name workspace))] (Some (wi_id workspace))) (\<lambda>_.
     ret workspace))"

section \<open>Invitations\<close>

definition tenant_invitation_ttl :: int where
  "tenant_invitation_ttl = 72 * 60 * 60 * 1000000"

definition already_member :: "string \<Rightarrow> string \<Rightarrow> ('b id_platform_scheme, bool) op" where
  "already_member tenant_id email =
     catching is_not_found (andThen (get_user_by_email tenant_id email) (\<lambda>_. ret True)) (ret False)"

definition new_invitation ::
  "string \<Rightarrow> string \<Rightarrow> string \<Rightarrow> string \<Rightarrow> datetime \<Rightarrow> ('b platform_scheme, tenant_invitation_record) op" where
  "new_invitation tenant_id email token_hash actor_user_id current =
     andThen (on_store (new_id ''invitation'')) (\<lambda>i.
     on_store (create_tenant_invitation
       \<lparr>in_id = i, in_tenant_id = tenant_id, in_email = email, in_token_hash = token_hash,
        in_invited_by_user_id = actor_user_id, in_created_at = current,
        in_expires_at = current + tenant_invitation_ttl, in_accepted_at = None, in_revoked_at = None,
        in_accepted_by_user_id = None\<rparr>))"

definition org_invite ::
  "org_settings \<Rightarrow> string \<Rightarrow> string \<Rightarrow> string \<Rightarrow> datetime option
   \<Rightarrow> ('b id_platform_scheme, tenant_invitation_created) op" where
  "org_invite c tenant_id actor_user_id email now =
     andThen (lift_error (normalize_email email)) (\<lambda>normalized_email.
     andThen (already_member tenant_id normalized_email) (\<lambda>member.
     andThen (require (\<not> member) (ValueError ''User is already a tenant member'')) (\<lambda>_.
     andThen (platform_now now) (\<lambda>current.
     andThen (on_store (list_tenant_invitations tenant_id)) (\<lambda>existing.
     andThen (require (\<not> list_ex (\<lambda>i. in_email i = normalized_email
         \<and> iv_status (invitation_public i current) = IN_PENDING) existing)
       (ValueError ''A pending invitation already exists for this email'')) (\<lambda>_.
     andThen (draw_token (og_identity c) 32) (\<lambda>token.
     andThen (new_invitation tenant_id normalized_email (org_token_hash c tenant_id token) actor_user_id current)
       (\<lambda>invitation.
     andThen (org_audit c tenant_id actor_user_id ''organization.invitation.created''
       [(''invitation_id'', JStr (in_id invitation)), (''email'', JStr (in_email invitation))] None) (\<lambda>_.
     ret \<lparr>tc_invitation = invitation_public invitation current, tc_token = token\<rparr>)))))))))"

definition org_revoke_invitation ::
  "org_settings \<Rightarrow> string \<Rightarrow> string \<Rightarrow> string \<Rightarrow> ('b platform_scheme, tenant_invitation) op" where
  "org_revoke_invitation c tenant_id actor_user_id invitation_id =
     andThen (on_store utc_now) (\<lambda>now.
     andThen (on_store (revoke_tenant_invitation tenant_id invitation_id now)) (\<lambda>invitation.
     andThen (org_audit c tenant_id actor_user_id ''organization.invitation.revoked''
       [(''invitation_id'', JStr (in_id invitation)), (''email'', JStr (in_email invitation))] None) (\<lambda>_.
     andThen (on_store utc_now) (\<lambda>current.
     ret (invitation_public invitation current)))))"

text \<open>The account of an accepted invitation: a new one, or the one its address has, if it is active
  and the password is right.\<close>

definition existing_account ::
  "org_settings \<Rightarrow> string \<Rightarrow> string \<Rightarrow> string \<Rightarrow> ('b id_platform_scheme, user_account) op" where
  "existing_account c tenant_id email password =
     andThen (get_user_by_email tenant_id email) (\<lambda>account.
     andThen (if ua_status account \<noteq> US_ACTIVE then ret False
              else verify_password (og_identity c) tenant_id email password) (\<lambda>same.
     andThen (require same (ValueError ''Tenant invitation acceptance credentials do not match'')) (\<lambda>_.
     ret account)))"

definition accepting_account ::
  "org_settings \<Rightarrow> tenant_invitation_accept \<Rightarrow> string \<Rightarrow> ('b id_platform_scheme, user_account) op" where
  "accepting_account c request email =
     catching is_value_error
       (andThen (lift_error (user_account_create (ta_tenant_id request) email
          (py_strip (ta_display_name request)) (ta_password request))) (create_user (og_identity c)))
       (existing_account c (ta_tenant_id request) email (ta_password request))"

definition org_accept_invitation ::
  "org_settings \<Rightarrow> tenant_invitation_accept \<Rightarrow> ('b id_platform_scheme, tenant_member) op" where
  "org_accept_invitation c request =
     andThen (on_store (get_tenant_invitation_by_token_hash (ta_tenant_id request)
       (org_token_hash c (ta_tenant_id request) (ta_token request)))) (\<lambda>invitation.
     andThen (on_store utc_now) (\<lambda>now.
     andThen (require (iv_status (invitation_public invitation now) = IN_PENDING)
       (ValueError ''Tenant invitation is no longer valid'')) (\<lambda>_.
     andThen (accepting_account c request (in_email invitation)) (\<lambda>account.
     andThen (ensure_tenant_member_role c (ta_tenant_id request)) (\<lambda>role.
     andThen (list_role_ids_for_user (ta_tenant_id request) (ua_id account)) (\<lambda>role_ids.
     andThen (whenever (ro_id role \<notin> set role_ids)
       (void (assign_role (og_identity c) (ta_tenant_id request) (ua_id account) (ro_id role)))) (\<lambda>_.
     andThen (on_store utc_now) (\<lambda>accepted_at.
     andThen (on_store (accept_tenant_invitation (ta_tenant_id request) (in_id invitation) (ua_id account)
       accepted_at)) (\<lambda>accepted.
     andThen (org_audit c (ta_tenant_id request) (ua_id account) ''organization.invitation.accepted''
       [(''invitation_id'', JStr (in_id accepted)), (''member_user_id'', JStr (ua_id account))] None) (\<lambda>_.
     ret (member_of account [ro_id role] False)))))))))))"

section \<open>Members\<close>

definition org_remove_member ::
  "org_settings \<Rightarrow> string \<Rightarrow> string \<Rightarrow> string \<Rightarrow> ('b id_platform_scheme, tenant_member) op" where
  "org_remove_member c tenant_id actor_user_id user_id =
     andThen (require (user_id \<noteq> actor_user_id) (ValueError ''You cannot remove yourself'')) (\<lambda>_.
     andThen (list_role_ids_for_user tenant_id user_id) (\<lambda>role_ids.
     andThen (require (''tenant_owner'' \<notin> set role_ids) (ValueError ''Tenant owners cannot be removed'')) (\<lambda>_.
     andThen (disable_user (og_identity c) tenant_id user_id) (\<lambda>account.
     andThen (org_audit c tenant_id actor_user_id ''organization.member.removed''
       [(''member_user_id'', JStr user_id)] None) (\<lambda>_.
     ret (member_of account role_ids False))))))"

definition org_restore_member ::
  "org_settings \<Rightarrow> string \<Rightarrow> string \<Rightarrow> string \<Rightarrow> ('b id_platform_scheme, tenant_member) op" where
  "org_restore_member c tenant_id actor_user_id user_id =
     andThen (activate_user (og_identity c) tenant_id user_id) (\<lambda>account.
     andThen (list_role_ids_for_user tenant_id user_id) (\<lambda>role_ids.
     andThen (org_audit c tenant_id actor_user_id ''organization.member.restored''
       [(''member_user_id'', JStr user_id)] None) (\<lambda>_.
     ret (member_of account role_ids (''tenant_owner'' \<in> set role_ids)))))"

section \<open>What the service leaves alone\<close>

lemma preserves_catching:
  "preserves I m \<Longrightarrow> preserves I h \<Longrightarrow> preserves I (catching b m h)"
  unfolding preserves_def catching_def by (auto split: prod.split sum.split)


lemma advances_readonly: "readonly m \<Longrightarrow> advances m"
  by (simp add: advances_def readonly_preserves)

lemma readonly_invitation_reads:
  "readonly (get_tenant t)" "readonly (list_workspaces t)" "readonly (list_tenant_invitations t)"
  "readonly (get_tenant_invitation_by_token_hash t h)" "readonly (get_tenant_invitation t i)"
  unfolding get_tenant_def list_workspaces_def list_workspace_ids_def list_tenant_invitations_def
    get_tenant_invitation_by_token_hash_def get_tenant_invitation_def
  by (intro readonly_rules)+

lemma advances_names:
  "advances (rename_tenant t n)" "advances (rename_workspace t w n)" "advances (create_workspace t w u n)"
  unfolding advances_def rename_tenant_def rename_workspace_def create_workspace_def get_tenant_def
    register_workspace_def validate_context_ownership_def register_context_def
  by (intro allI frame_rules preserves_modify; simp)+

locale org_frame = identity_frame I for I :: "id_platform \<Rightarrow> bool" +
  assumes invited: "preserves I (new_invitation t e h a current)"
    and revoked: "preserves I (on_store (revoke_tenant_invitation t i at_time))"
    and accepted: "preserves I (on_store (accept_tenant_invitation t i u at_time))"
begin

lemma org_audit_frame: "preserves I (org_audit c t u ty m w)"
  unfolding org_audit_def by (intro frame_rules audit_frame)

lemmas org_rules = identity_rules preserves_catching org_audit_frame invited revoked accepted
  advances_readonly readonly_invitation_reads advances_names list_role_ids_frame

lemma get_roles_frame: "preserves I (get_roles t is)"
  by (induction "is") (auto intro!: identity_rules)

lemma members_of_frame: "preserves I (members_of t as)"
  by (induction as) (auto intro!: identity_rules list_role_ids_frame)

lemma public_invitations_frame: "preserves I (public_invitations is)"
  by (induction "is") (auto intro!: identity_rules)

lemma summary_frame: "preserves I (org_summary t u)"
  unfolding org_summary_def list_users_def
  by (intro org_rules get_roles_frame members_of_frame public_invitations_frame)

lemma rename_tenant_frame: "preserves I (org_rename_tenant c t u n)"
  unfolding org_rename_tenant_def by (intro org_rules)

lemma create_workspace_frame: "preserves I (org_create_workspace c t u n)"
  unfolding org_create_workspace_def by (intro org_rules)

lemma rename_workspace_frame: "preserves I (org_rename_workspace c t u w n)"
  unfolding org_rename_workspace_def by (intro org_rules)

lemma get_user_by_email_frame: "preserves I (get_user_by_email t e)"
  unfolding get_user_by_email_def by (intro identity_rules)

lemma invite_frame: "preserves I (org_invite c t u e now)"
  unfolding org_invite_def already_member_def by (intro org_rules get_user_by_email_frame)

lemma revoke_invitation_frame: "preserves I (org_revoke_invitation c t u i)"
  unfolding org_revoke_invitation_def by (intro org_rules)

lemma accepting_account_frame: "preserves I (accepting_account c request e)"
  unfolding accepting_account_def existing_account_def
  by (intro org_rules get_user_by_email_frame verify_password_frame create_user_frame)

lemma member_role_frame: "preserves I (ensure_tenant_member_role c t)"
  unfolding ensure_tenant_member_role_def by (intro org_rules create_role_frame)

lemma accept_frame: "preserves I (org_accept_invitation c request)"
  unfolding org_accept_invitation_def
  by (intro org_rules accepting_account_frame member_role_frame assign_role_frame)

lemma remove_member_frame: "preserves I (org_remove_member c t a u)"
  unfolding org_remove_member_def disable_user_def by (intro org_rules set_user_status_frame)

lemma restore_member_frame: "preserves I (org_restore_member c t a u)"
  unfolding org_restore_member_def activate_user_def by (intro org_rules set_user_status_frame)

end

text \<open>One call of the organization service, of the identity service, or of a service that leaves accounts
  and invitations alone.\<close>

inductive org_step :: "org_settings \<Rightarrow> id_platform \<Rightarrow> id_platform \<Rightarrow> bool" for c where
  summary: "org_step c p (snd (org_summary t u p))"
| rename_tenant: "org_step c p (snd (org_rename_tenant c t u n p))"
| create_workspace: "org_step c p (snd (org_create_workspace c t u n p))"
| rename_workspace: "org_step c p (snd (org_rename_workspace c t u w n p))"
| invite: "org_step c p (snd (org_invite c t u e now p))"
| revoke: "org_step c p (snd (org_revoke_invitation c t u i p))"
| accept: "org_step c p (snd (org_accept_invitation c request p))"
| remove: "org_step c p (snd (org_remove_member c t a u p))"
| restore: "org_step c p (snd (org_restore_member c t a u p))"
| create_user: "org_step c p (snd (create_user (og_identity c) user p))"
| update_password: "org_step c p (snd (update_password (og_identity c) t u pw p))"
| set_status: "org_step c p (snd (set_user_status (og_identity c) t u st ty p))"
| create_role: "org_step c p (snd (create_role (og_identity c) r p))"
| assign_role: "org_step c p (snd (assign_role (og_identity c) t u i p))"
| other_service: "uuid4_hex s = uuid4_hex (pl_store p) \<Longrightarrow> tick (pl_store p) \<le> tick s
    \<Longrightarrow> tenant_invitations s = tenant_invitations (pl_store p) \<Longrightarrow> org_step c p (p\<lparr>pl_store := s\<rparr>)"

inductive org_steps :: "org_settings \<Rightarrow> id_platform \<Rightarrow> id_platform \<Rightarrow> bool" for c where
  stop: "org_steps c p p"
| step: "org_steps c p q \<Longrightarrow> org_step c q r \<Longrightarrow> org_steps c p r"

context org_frame
begin

lemma step_frame: "org_step c p q \<Longrightarrow> I p \<Longrightarrow> I q"
  by (induction rule: org_step.induct)
    (auto intro: preserves_snd summary_frame rename_tenant_frame create_workspace_frame rename_workspace_frame
      invite_frame revoke_invitation_frame accept_frame remove_member_frame restore_member_frame create_user_frame
      update_password_frame set_user_status_frame create_role_frame assign_role_frame store)

lemma steps_frame: "org_steps c p q \<Longrightarrow> I p \<Longrightarrow> I q"
  by (induction rule: org_steps.induct) (auto intro: step_frame)

end

section \<open>Invitations are settled once\<close>

definition settled :: "tenant_invitation_record \<Rightarrow> bool" where
  "settled i \<longleftrightarrow> in_accepted_at i \<noteq> None \<or> in_revoked_at i \<noteq> None"

definition invitations_issued :: "'b platform_scheme \<Rightarrow> bool" where
  "invitations_issued p \<longleftrightarrow> unique_uuids (pl_store p) \<and> dict_ok (tenant_invitations (pl_store p))
     \<and> (\<forall>k i. dict_get (tenant_invitations (pl_store p)) k = Some i \<longrightarrow>
          in_id i = k \<and> issued ''invitation'' (pl_store p) k)"

definition keeps_settled :: "tenant_invitation_record set \<Rightarrow> 'b platform_scheme \<Rightarrow> bool" where
  "keeps_settled K p \<longleftrightarrow> invitations_issued p
     \<and> (\<forall>i \<in> K. settled i \<and> dict_get (tenant_invitations (pl_store p)) (in_id i) = Some i)"

lemma pending_not_settled: "iv_status (invitation_public i now) = IN_PENDING \<longleftrightarrow> \<not> settled i \<and> now < in_expires_at i"
  by (auto simp: invitation_public_def settled_def)

lemma issued_invitations [simp]: "issued x (s\<lparr>tenant_invitations := is\<rparr>) k \<longleftrightarrow> issued x (s :: store) k"
  "unique_uuids (s\<lparr>tenant_invitations := is\<rparr>) \<longleftrightarrow> unique_uuids (s :: store)"
  by (simp_all add: issued_def unique_uuids_def)

lemma keeps_settled_put:
  assumes "keeps_settled K p" and "dict_get (tenant_invitations (pl_store p)) (in_id i) = None \<or>
      (\<exists>j. dict_get (tenant_invitations (pl_store p)) (in_id i) = Some j \<and> \<not> settled j)"
    and "issued ''invitation'' (pl_store p) (in_id i)"
  shows "keeps_settled K (p\<lparr>pl_store := (pl_store p)\<lparr>tenant_invitations :=
    dict_set (in_id i) i (tenant_invitations (pl_store p))\<rparr>\<rparr>)"
proof -
  have "invitations_issued (p\<lparr>pl_store := (pl_store p)\<lparr>tenant_invitations :=
      dict_set (in_id i) i (tenant_invitations (pl_store p))\<rparr>\<rparr>)"
    using assms(1,3) by (auto simp: keeps_settled_def invitations_issued_def dict_ok_set split: if_splits)
  moreover have "in_id j \<noteq> in_id i" if "j \<in> K" for j
    using assms(1,2) that by (force simp: keeps_settled_def)
  ultimately show ?thesis using assms(1) by (simp add: keeps_settled_def)
qed

lemma settle_cases:
  assumes "andThen (get_tenant_invitation t i) (\<lambda>j. andThen (require (iv_status (invitation_public j r) = IN_PENDING) e)
      (\<lambda>_. put_invitation (f j))) s = (x, s')"
  shows "s' = s \<or> (\<exists>j. dict_get (tenant_invitations s) i = Some j \<and> \<not> settled j
      \<and> s' = s\<lparr>tenant_invitations := dict_set (in_id (f j)) (f j) (tenant_invitations s)\<rparr>)"
proof (cases "dict_get (tenant_invitations s) i")
  case None
  with assms show ?thesis by (simp add: get_tenant_invitation_def op_simps)
next
  case (Some j)
  show ?thesis
  proof (cases "in_tenant_id j = t \<and> \<not> settled j \<and> r < in_expires_at j")
    case True
    with assms Some show ?thesis
      by (simp add: get_tenant_invitation_def put_invitation_def op_simps pending_not_settled)
  next
    case False
    with assms Some have "s' = s"
      by (cases "in_tenant_id j = t"; cases "settled j"; cases "r < in_expires_at j")
        (simp_all add: get_tenant_invitation_def op_simps pending_not_settled)
    then show ?thesis ..
  qed
qed

lemma keeps_settled_settle:
  assumes m: "m = andThen (get_tenant_invitation t i) (\<lambda>j. andThen (require (iv_status (invitation_public j r) = IN_PENDING) e)
      (\<lambda>_. put_invitation (f j)))" and f: "\<And>j. in_id (f j) = in_id j"
  shows "preserves (keeps_settled K) (on_store m)"
proof (rule preservesI)
  fix p x q
  assume inv: "keeps_settled K p" and run: "on_store m p = (x, q)"
  then obtain s where s: "m (pl_store p) = (x, s)" and q: "q = p\<lparr>pl_store := s\<rparr>"
    by (auto simp: on_store_eval split: prod.splits)
  from settle_cases [OF s [unfolded m]] show "keeps_settled K q"
  proof (elim disjE exE conjE)
    assume "s = pl_store p"
    with q inv show ?thesis by simp
  next
    fix j assume j: "dict_get (tenant_invitations (pl_store p)) i = Some j" "\<not> settled j"
      and s: "s = (pl_store p)\<lparr>tenant_invitations := dict_set (in_id (f j)) (f j) (tenant_invitations (pl_store p))\<rparr>"
    have "in_id (f j) = i" "issued ''invitation'' (pl_store p) i"
      using inv j(1) by (simp_all add: keeps_settled_def invitations_issued_def f)
    with j show ?thesis
      unfolding q s using keeps_settled_put [OF inv, of "f j"] by simp
  qed
qed

lemma keeps_settled_revoke: "preserves (keeps_settled K) (on_store (revoke_tenant_invitation t i r))"
  by (rule keeps_settled_settle [OF revoke_tenant_invitation_def]) simp

lemma keeps_settled_accept: "preserves (keeps_settled K) (on_store (accept_tenant_invitation t i u r))"
  by (rule keeps_settled_settle [OF accept_tenant_invitation_def]) simp

lemma keeps_settled_store:
  assumes "keeps_settled K p" and "uuid4_hex s = uuid4_hex (pl_store p)" and "tick (pl_store p) \<le> tick s"
    and "tenant_invitations s = tenant_invitations (pl_store p)"
  shows "keeps_settled K (p\<lparr>pl_store := s\<rparr>)"
  using assms by (auto simp: keeps_settled_def invitations_issued_def unique_uuids_def intro: issued_mono)

lemma keeps_settled_invited: "preserves (keeps_settled K) (new_invitation t e h a current)"
proof (rule preservesI)
  fix p x q
  assume inv: "keeps_settled K p" and run: "new_invitation t e h a current p = (x, q)"
  define s where "s = (pl_store p)\<lparr>tick := Suc (tick (pl_store p))\<rparr>"
  define k where "k = ''invitation'' @ ''_'' @ uuid4_hex (pl_store p) (tick (pl_store p))"
  define i where "i = \<lparr>in_id = k, in_tenant_id = t, in_email = e, in_token_hash = h,
     in_invited_by_user_id = a, in_created_at = current, in_expires_at = current + tenant_invitation_ttl,
     in_accepted_at = None, in_revoked_at = None, in_accepted_by_user_id = None\<rparr>"
  have kept: "keeps_settled K (p\<lparr>pl_store := s\<rparr>)"
    by (rule keeps_settled_store [OF inv]) (simp_all add: s_def)
  have new: "keeps_settled K (p\<lparr>pl_store := s\<lparr>tenant_invitations := dict_set k i (tenant_invitations s)\<rparr>\<rparr>)"
  proof -
    have "\<not> issued ''invitation'' (pl_store p) k"
      using inv by (auto simp: k_def keeps_settled_def invitations_issued_def unique_uuids_def issued_def dest: injD)
    then have "dict_get (tenant_invitations s) k = None"
      using inv by (cases "dict_get (tenant_invitations s) k")
        (auto simp: keeps_settled_def invitations_issued_def s_def)
    moreover have "issued ''invitation'' s k" by (auto simp: issued_def s_def k_def)
    ultimately show ?thesis
      using keeps_settled_put [OF kept, of i] by (simp add: i_def)
  qed
  have "on_store (new_id ''invitation'') p = (Inr k, p\<lparr>pl_store := s\<rparr>)"
    by (simp add: on_store_eval new_id_def k_def s_def)
  then have create: "on_store (create_tenant_invitation i) (p\<lparr>pl_store := s\<rparr>) = (x, q)"
    using run unfolding new_invitation_def by (simp add: andThen_def i_def)
  obtain r s1 where get: "get_tenant t s = (r, s1)" by (cases "get_tenant t s")
  then have "s1 = s" using readonlyD [OF readonly_invitation_reads(1)] by blast
  with get create have "q = p\<lparr>pl_store := s\<rparr> \<or>
      q = p\<lparr>pl_store := s\<lparr>tenant_invitations := dict_set k i (tenant_invitations s)\<rparr>\<rparr>"
    by (cases r) (auto simp: on_store_eval create_tenant_invitation_def put_invitation_def andThen_apply op_simps i_def)
  with kept new show "keeps_settled K q" by blast
qed

interpretation settled: org_frame "keeps_settled K" for K
  by unfold_locales
    (auto simp: keeps_settled_store keeps_settled_invited keeps_settled_revoke keeps_settled_accept,
     auto simp: keeps_settled_def invitations_issued_def)

section \<open>What an acceptance does\<close>
















section \<open>Properties\<close>

text \<open>C36: an invitation that was accepted or revoked never changes again, whatever calls of the
  organization service, the identity service and the services beside them follow.\<close>

theorem settled_invitations_are_final:
  assumes "invitations_issued p" and "dict_get (tenant_invitations (pl_store p)) k = Some i" and "settled i"
    and "org_steps c p q"
  shows "dict_get (tenant_invitations (pl_store q)) k = Some i"
proof -
  have "keeps_settled {i} p" using assms(1-3) by (auto simp: keeps_settled_def invitations_issued_def)
  then have "keeps_settled {i} q" using settled.steps_frame assms(4) by blast
  moreover have "in_id i = k" using assms(1,2) by (simp add: invitations_issued_def)
  ultimately show ?thesis by (simp add: keeps_settled_def)
qed


section \<open>An invitation and its acceptance\<close>

definition demo_org :: org_settings where
  "demo_org = \<lparr>og_identity = \<lparr>is_platform = demo_settings, is_hasher =
       \<lparr>ph_algorithm = ''h'', ph_iterations = 1, ph_salt = ''p'', ph_salt_bytes = 2,
        ph_pbkdf2_hex = (\<lambda>pw salt n. salt @ pw)\<rparr>, is_audits = False, is_token_urlsafe = (\<lambda>n k. ''s'')\<rparr>,
     og_token_secret = ''k'', og_hmac_sha256_hex = (\<lambda>k m. rev m)\<rparr>"

definition demo_invite :: tenant_invitation_record where
  "demo_invite = \<lparr>in_id = ''invitation_'', in_tenant_id = ''t'', in_email = ''a@b'',
     in_token_hash = org_token_hash demo_org ''t'' ''x'', in_invited_by_user_id = ''o'', in_created_at = 0,
     in_expires_at = 1000, in_accepted_at = None, in_revoked_at = None, in_accepted_by_user_id = None\<rparr>"

definition demo_invited :: "tenant_invitation_record \<Rightarrow> id_platform" where
  "demo_invited i = \<lparr>pl_store = (empty_store int (\<lambda>n. replicate n CHR ''x'') False)\<lparr>tick := 1,
       tenant_names := [(''t'', ''T'')], tenant_invitations := [(''invitation_'', i)]\<rparr>,
     pl_last_status = [], pl_active_validation = [], id_users = [], id_user_ids_by_tenant_email = [],
     id_roles = [], id_assignments = []\<rparr>"


lemma demo_invited_issued: "in_id i = ''invitation_'' \<Longrightarrow> invitations_issued (demo_invited i)"
  by (auto simp: invitations_issued_def demo_invited_def dict_ok_def unique_uuids_def inj_def issued_def empty_store_def)

lemma settled_invitations_are_final_witness:
  "dict_get (tenant_invitations (pl_store (snd (org_revoke_invitation demo_org ''t'' ''o'' ''invitation_''
      (demo_invited (demo_invite\<lparr>in_accepted_at := Some 5\<rparr>)))))) ''invitation_''
    = Some (demo_invite\<lparr>in_accepted_at := Some 5\<rparr>)"
proof (rule settled_invitations_are_final)
  let ?p = "demo_invited (demo_invite\<lparr>in_accepted_at := Some 5\<rparr>)"
  show "invitations_issued ?p" by (rule demo_invited_issued) (simp add: demo_invite_def)
  show "dict_get (tenant_invitations (pl_store ?p)) ''invitation_'' = Some (demo_invite\<lparr>in_accepted_at := Some 5\<rparr>)"
    by (simp add: demo_invited_def)
  show "settled (demo_invite\<lparr>in_accepted_at := Some 5\<rparr>)" by (simp add: settled_def)
  show "org_steps demo_org ?p (snd (org_revoke_invitation demo_org ''t'' ''o'' ''invitation_'' ?p))"
    by (rule org_steps.step [OF org_steps.stop org_step.revoke])
qed



end
