(* ===== verification/Licensing.thy ===== *)
theory Licensing
  imports Identity Base64
begin

text \<open>
  \<^verbatim>\<open>taroai/licensing/signing.py\<close>, the validation and activation of licenses of \<^verbatim>\<open>licensing/service.py\<close>, and
  the import of a license by the HTTP application (\<^verbatim>\<open>app.py\<close>). Ed25519, how a float prints and what
  pydantic makes of the payload of a license are parameters; files are given by what was read of them.
\<close>

section \<open>Signed licenses\<close>

record signed_license_envelope =
  sl_key_id :: string
  sl_payload :: json_obj
  sl_signature :: string

text \<open>\<open>LicenseSignatureVerifier\<close> with the functions it calls: does \<open>from_public_bytes\<close> accept these bytes,
  does \<open>verify\<close> accept this signature of that message.\<close>

record license_verifier =
  vf_trusted_public_keys :: "(string, string) dict"
  vf_public_bytes_ok :: "string \<Rightarrow> bool"
  vf_ed25519_verify :: "string \<Rightarrow> string \<Rightarrow> string \<Rightarrow> bool"
  vf_show_float :: "rat \<Rightarrow> string"
  vf_parse_license_key :: "json_obj \<Rightarrow> error + license_key"

text \<open>\<open>binascii.a2b_base64\<close> in strict mode: a character outside the alphabet is an error, so is one after
  padding has begun or a text that goes on after a complete padding.\<close>

definition std_b64_value :: "char \<Rightarrow> nat option" where
  "std_b64_value c = (if c \<in> {CHR ''-'', CHR ''_''} then None else b64_value c)"

fun a2b_strict :: "nat \<Rightarrow> nat \<Rightarrow> nat \<Rightarrow> bool \<Rightarrow> string \<Rightarrow> string option" where
  "a2b_strict quad_pos leftchar pads started [] = (if quad_pos \<noteq> 0 then None else Some [])"
| "a2b_strict quad_pos leftchar pads started (ch # chs) =
     (if ch = CHR ''='' then
        (if 2 \<le> quad_pos then
           (if 4 \<le> quad_pos + pads + 1 then (if chs \<noteq> [] then None else Some [])
            else a2b_strict quad_pos leftchar (pads + 1) True chs)
         else a2b_strict quad_pos leftchar pads True chs)
      else case std_b64_value ch of
        None \<Rightarrow> None
      | Some v \<Rightarrow>
          if started then None
          else if quad_pos = 0 then a2b_strict 1 v 0 started chs
          else if quad_pos = 1 then
            map_option ((#) (char_of (leftchar * 4 + v div 16))) (a2b_strict 2 (v mod 16) 0 started chs)
          else if quad_pos = 2 then
            map_option ((#) (char_of (leftchar * 16 + v div 4))) (a2b_strict 3 (v mod 4) 0 started chs)
          else map_option ((#) (char_of (leftchar * 64 + v))) (a2b_strict 0 0 0 started chs))"

definition license_decode_base64 :: "string \<Rightarrow> string \<Rightarrow> error + string" where
  "license_decode_base64 v error_message =
     (if \<not> is_ascii v \<or> prefix ''='' v then Inl (LicenseSignatureVerificationError error_message)
      else case a2b_strict 0 0 0 False v of
        None \<Rightarrow> Inl (LicenseSignatureVerificationError error_message)
      | Some bytes \<Rightarrow> Inr bytes)"

definition public_key_from_value :: "license_verifier \<Rightarrow> string \<Rightarrow> error + string" where
  "public_key_from_value vf v =
     (case license_decode_base64 v ''trusted license signing key is invalid'' of
        Inl e \<Rightarrow> Inl e
      | Inr bytes \<Rightarrow>
          if vf_public_bytes_ok vf bytes then Inr bytes
          else Inl (LicenseSignatureVerificationError ''trusted license signing key is invalid''))"

definition canonical_payload :: "license_verifier \<Rightarrow> json_obj \<Rightarrow> string" where
  "canonical_payload vf payload =
     utf8_encode (json_dumps (vf_show_float vf) False '','' '':'' (sort_keys (JObj payload)))"

definition verify_envelope :: "license_verifier \<Rightarrow> signed_license_envelope \<Rightarrow> error + license_key" where
  "verify_envelope vf envelope =
     (case dict_get (vf_trusted_public_keys vf) (sl_key_id envelope) of
        None \<Rightarrow> Inl (LicenseSignatureVerificationError ''license signing key is not trusted'')
      | Some key_value \<Rightarrow>
          (case public_key_from_value vf key_value of
             Inl e \<Rightarrow> Inl e
           | Inr key \<Rightarrow>
               (case license_decode_base64 (sl_signature envelope) ''license signature material is invalid'' of
                  Inl e \<Rightarrow> Inl e
                | Inr signature \<Rightarrow>
                    if \<not> vf_ed25519_verify vf key signature (canonical_payload vf (sl_payload envelope))
                    then Inl (LicenseSignatureVerificationError ''license signature verification failed'')
                    else vf_parse_license_key vf (sl_payload envelope))))"

section \<open>Validation\<close>

record license_settings =
  li_platform :: platform_settings
  li_signature_verifier :: "license_verifier option"

definition license_audit :: "license_settings \<Rightarrow> audit_event_create \<Rightarrow> ('b platform_scheme, unit) op" where
  "license_audit c event = whenever (ps_license_audits (li_platform c)) (void (audit_record (li_platform c) event))"

definition record_status_change ::
  "license_settings \<Rightarrow> license_validation_result \<Rightarrow> ('b platform_scheme, unit) op" where
  "record_status_change c v =
     andThen (gets (\<lambda>p. dict_get (pl_last_status p) (lk_id (lv_license v)))) (\<lambda>previous_status.
     if previous_status = Some (lv_status v) then ret ()
     else
       andThen (modify (\<lambda>p. p\<lparr>pl_last_status := dict_set (lk_id (lv_license v)) (lv_status v) (pl_last_status p)\<rparr>)) (\<lambda>_.
       license_audit c
         \<lparr>ae_tenant_id = lk_tenant_id (lv_license v), ae_workspace_id = None, ae_user_id = None, ae_run_id = None,
          ae_event_type = ''license.status_changed'',
          ae_metadata =
            [(''license_id'', JStr (lk_id (lv_license v))),
             (''customer_name'', JStr (lk_customer_name (lv_license v))),
             (''previous_status'', opt_str (map_option license_status_value previous_status)),
             (''status'', JStr (license_status_value (lv_status v))),
             (''deployment_mode'', JStr (lv_deployment_mode v)), (''source'', JStr (lv_source v)),
             (''reason'', JStr (lv_reason v)),
             (''entitlements_count'', JInt (int (length (lk_entitlements (lv_license v)))))],
          ae_actor = None\<rparr>))"

definition validate_license ::
  "license_settings \<Rightarrow> license_key \<Rightarrow> string \<Rightarrow> datetime option \<Rightarrow> string
   \<Rightarrow> ('b platform_scheme, license_validation_result) op" where
  "validate_license c k deployment_mode now source =
     andThen (platform_now now) (\<lambda>checked_at.
     let (status, reason) =
           (if deployment_mode \<notin> set (lk_deployment_modes k)
            then (LS_INVALID, ''license does not allow '' @ deployment_mode @ '' deployment'')
            else if checked_at \<ge> lk_expires_at k then (LS_EXPIRED, ''license expired'')
            else (LS_ACTIVE, []));
         v = \<lparr>lv_license = k, lv_status = status, lv_deployment_mode = deployment_mode, lv_source = source,
              lv_reason = reason\<rparr> in
     andThen (record_status_change c v) (\<lambda>_. ret v))"

text \<open>\<open>validate_offline_file\<close> after the file was read, and \<open>validate_signed_offline_license_key\<close>.\<close>

definition validate_offline_key ::
  "string \<Rightarrow> license_settings \<Rightarrow> license_key \<Rightarrow> string \<Rightarrow> datetime option
   \<Rightarrow> ('b platform_scheme, license_validation_result) op" where
  "validate_offline_key source c k deployment_mode now =
     (if \<not> lk_offline_validation_allowed k then
        let v = \<lparr>lv_license = k, lv_status = LS_INVALID, lv_deployment_mode = deployment_mode, lv_source = source,
                 lv_reason = ''license does not allow offline validation''\<rparr> in
        andThen (record_status_change c v) (\<lambda>_. ret v)
      else validate_license c k deployment_mode now source)"

definition validate_offline_file ::
  "license_settings \<Rightarrow> license_key \<Rightarrow> string \<Rightarrow> datetime option \<Rightarrow> ('b platform_scheme, license_validation_result) op" where
  "validate_offline_file = validate_offline_key ''offline_file''"

definition validate_signed_offline_license_key ::
  "license_settings \<Rightarrow> license_key \<Rightarrow> string \<Rightarrow> datetime option \<Rightarrow> ('b platform_scheme, license_validation_result) op" where
  "validate_signed_offline_license_key = validate_offline_key ''signed_offline_file''"

definition verify_signed_offline_envelope ::
  "license_settings \<Rightarrow> signed_license_envelope \<Rightarrow> error + license_key" where
  "verify_signed_offline_envelope c envelope =
     (case li_signature_verifier c of
        None \<Rightarrow> Inl (LicenseSignatureVerificationError ''license signature verifier is not configured'')
      | Some vf \<Rightarrow> verify_envelope vf envelope)"

definition validate_signed_offline_envelope ::
  "license_settings \<Rightarrow> signed_license_envelope \<Rightarrow> string \<Rightarrow> datetime option
   \<Rightarrow> ('b platform_scheme, license_validation_result) op" where
  "validate_signed_offline_envelope c envelope deployment_mode now =
     andThen (lift_error (verify_signed_offline_envelope c envelope)) (\<lambda>k.
     validate_signed_offline_license_key c k deployment_mode now)"

section \<open>Import\<close>

text \<open>The handler of \<open>POST /api/licenses/import\<close>; the actor is read off the request.\<close>

definition import_license ::
  "license_settings \<Rightarrow> string \<Rightarrow> string \<Rightarrow> audit_actor option \<Rightarrow> signed_license_envelope \<Rightarrow> string
   \<Rightarrow> ('b id_platform_scheme, license_validation_result) op" where
  "import_license c tenant_id user_id actor envelope deployment_mode =
     andThen (require_permission tenant_id user_id ''licenses.manage'') (\<lambda>_.
     andThen (lift_error (verify_signed_offline_envelope c envelope)) (\<lambda>k.
     andThen (require (lk_tenant_id k = tenant_id)
       (TenantAccessError ''License tenant does not match request tenant'')) (\<lambda>_.
     andThen (validate_signed_offline_license_key c k deployment_mode None) (\<lambda>v.
     andThen (require (lv_status v = LS_ACTIVE)
       (ValueError (if lv_reason v \<noteq> [] then lv_reason v else ''license import rejected''))) (\<lambda>_.
     andThen (activate_validation (li_platform c) v) (\<lambda>_.
     andThen (void (audit_record (li_platform c)
       \<lparr>ae_tenant_id = tenant_id, ae_workspace_id = None, ae_user_id = Some user_id, ae_run_id = None,
        ae_event_type = ''license.imported'',
        ae_metadata =
          [(''license_id'', JStr (lk_id (lv_license v))),
           (''customer_name'', JStr (lk_customer_name (lv_license v))),
           (''status'', JStr (license_status_value (lv_status v))),
           (''deployment_mode'', JStr (lv_deployment_mode v)), (''source'', JStr (lv_source v)),
           (''entitlements_count'', JInt (int (length (lk_entitlements (lv_license v)))))],
        ae_actor = actor\<rparr>)) (\<lambda>_.
     ret v)))))))"

section \<open>What an import rests on\<close>

lemma license_decode_Inr: "license_decode_base64 v m = Inr bytes \<Longrightarrow> a2b_strict 0 0 0 False v = Some bytes"
  by (auto simp: license_decode_base64_def split: if_splits option.splits)

text \<open>The envelope is signed by the trusted key it names.\<close>

definition genuine :: "license_verifier \<Rightarrow> signed_license_envelope \<Rightarrow> bool" where
  "genuine vf envelope \<longleftrightarrow> (\<exists>key_value key signature.
     dict_get (vf_trusted_public_keys vf) (sl_key_id envelope) = Some key_value
     \<and> a2b_strict 0 0 0 False key_value = Some key
     \<and> a2b_strict 0 0 0 False (sl_signature envelope) = Some signature
     \<and> vf_ed25519_verify vf key signature (canonical_payload vf (sl_payload envelope)))"

lemma verify_envelope_Inr:
  "verify_envelope vf envelope = Inr k \<Longrightarrow> genuine vf envelope \<and> vf_parse_license_key vf (sl_payload envelope) = Inr k"
  by (auto simp: verify_envelope_def public_key_from_value_def genuine_def split: option.splits sum.splits if_splits
      dest!: license_decode_Inr)

lemma validate_signed_Inr:
  assumes "validate_signed_offline_license_key c k mode now p = (Inr v, q)" and "lv_status v = LS_ACTIVE"
  shows "lv_license v = k \<and> lk_offline_validation_allowed k \<and> mode \<in> set (lk_deployment_modes k)
    \<and> (\<exists>t p1. platform_now now p = (Inr t, p1) \<and> t < lk_expires_at k)"
proof (cases "lk_offline_validation_allowed k")
  case False
  with assms show ?thesis
    by (auto simp: validate_signed_offline_license_key_def validate_offline_key_def Let_def Inr_iffs)
next
  case True
  then obtain t p1 where now: "platform_now now p = (Inr t, p1)" and v: "lv_license v = k"
      "lv_status v = (if mode \<notin> set (lk_deployment_modes k) then LS_INVALID
        else if t \<ge> lk_expires_at k then LS_EXPIRED else LS_ACTIVE)"
    using assms(1)
    by (auto simp: validate_signed_offline_license_key_def validate_offline_key_def validate_license_def Let_def Inr_iffs
        split: if_splits)
  show ?thesis using True now v assms(2) by (auto split: if_splits)
qed

lemma get_active_keeps: "preserves (\<lambda>p. dict_get (pl_active_validation p) t = Some v) (get_active_validation c t')"
  unfolding preserves_def get_active_validation_def
  by (auto simp: andThen_apply op_simps on_store_eval split: option.split prod.split sum.split)

lemma audit_keeps_active:
  "preserves (\<lambda>p :: 'p platform_scheme. dict_get (pl_active_validation p) t = Some v) (audit_record c event)"
proof -
  let ?I = "\<lambda>p :: 'p platform_scheme. dict_get (pl_active_validation p) t = Some v"
  have store: "preserves ?I (on_store m)" for m :: "(store, 'c) op"
    by (auto simp: preserves_def on_store_eval split: prod.split)
  have "preserves ?I (entitlement_decision f b n l r)" for f b n l r
    unfolding entitlement_decision_def by (intro frame_rules)
  moreover have "preserves ?I (platform_now now)" for now
    unfolding platform_now_def by (intro frame_rules store)
  ultimately have "preserves ?I (require_entitlement pc t' f n now)" for pc t' f n now
    unfolding require_entitlement_def check_entitlement_def by (intro frame_rules get_active_keeps)
  then show ?thesis
    unfolding audit_record_def enforce_retention_entitlement_def by (intro frame_rules store)
qed

lemma activate_Inr:
  "activate_validation c v p = (Inr u, q) \<Longrightarrow> dict_get (pl_active_validation q) (lk_tenant_id (lv_license v)) = Some v"
  by (auto simp: activate_validation_def Inr_iffs void_def on_store_eval split: if_splits prod.splits)

text \<open>C37: what an import activates is the license of an envelope signed by the trusted key it names, of
  the importing tenant, which allows offline validation and the deployment mode and has not expired; the
  importer has the permission for it.\<close>

theorem imported_licenses_are_genuine:
  assumes "import_license c t u actor envelope mode p = (Inr v, q)"
  shows "(\<exists>vf. li_signature_verifier c = Some vf \<and> genuine vf envelope
      \<and> vf_parse_license_key vf (sl_payload envelope) = Inr (lv_license v))
    \<and> lk_tenant_id (lv_license v) = t \<and> lk_offline_validation_allowed (lv_license v)
    \<and> mode \<in> set (lk_deployment_modes (lv_license v))
    \<and> clock (pl_store p) (tick (pl_store p)) < lk_expires_at (lv_license v)
    \<and> lv_status v = LS_ACTIVE \<and> dict_get (pl_active_validation q) t = Some v
    \<and> require_permission t u ''licenses.manage'' p = (Inr (), p)"
proof -
  obtain k p1 p2 p3 x y event where permission: "require_permission t u ''licenses.manage'' p = (Inr (), p1)"
      and k: "verify_signed_offline_envelope c envelope = Inr k" "lk_tenant_id k = t"
      and valid: "validate_signed_offline_license_key c k mode None p1 = (Inr v, p2)" "lv_status v = LS_ACTIVE"
      and active: "activate_validation (li_platform c) v p2 = (Inr x, p3)"
      and audit: "void (audit_record (li_platform c) event) p3 = (Inr y, q)"
    using assms unfolding import_license_def
    by (elim andThen_Inr_E) (auto simp: ret_Inr_iff require_Inr_iff lift_error_Inr)
  have p1: "p1 = p"
    using permission by (auto simp: require_permission_def Let_def Inr_iffs dest: has_permission_Inr)
  obtain vf where vf: "li_signature_verifier c = Some vf" "verify_envelope vf envelope = Inr k"
    using k(1) by (auto simp: verify_signed_offline_envelope_def split: option.splits)
  note v = validate_signed_Inr [OF valid]
  have "clock (pl_store p) (tick (pl_store p)) < lk_expires_at k"
    using v p1 by (auto simp: platform_now_def on_store_eval utc_now_def)
  moreover have "dict_get (pl_active_validation p3) t = Some v"
    using activate_Inr [OF active] v k(2) by simp
  then have "dict_get (pl_active_validation q) t = Some v"
    using audit preservesD [OF audit_keeps_active] by (auto simp: void_def Inr_iffs)
  ultimately show ?thesis
    using vf verify_envelope_Inr [OF vf(2)] v k(2) valid(2) permission p1 by auto
qed

section \<open>An import\<close>

definition demo_license :: license_key where
  "demo_license = \<lparr>lk_id = ''l'', lk_tenant_id = ''t'', lk_customer_name = ''C'', lk_issued_at = 0,
     lk_expires_at = 1000, lk_deployment_modes = [''private''], lk_entitlements = [],
     lk_offline_validation_allowed = True\<rparr>"

text \<open>The example's signatures are \<open>sig\<close> after the key.\<close>

definition demo_verifier :: license_verifier where
  "demo_verifier = \<lparr>vf_trusted_public_keys = [(''k1'', ''QUI='')], vf_public_bytes_ok = (\<lambda>b. length b = 2),
     vf_ed25519_verify = (\<lambda>key signature message. signature = key @ take 3 message), vf_show_float = (\<lambda>_. []),
     vf_parse_license_key = (\<lambda>payload. if map fst payload = [''id''] then Inr demo_license
       else Inl (ValidationError ''LicenseKey''))\<rparr>"

definition demo_license_settings :: license_settings where
  "demo_license_settings = \<lparr>li_platform = demo_settings, li_signature_verifier = Some demo_verifier\<rparr>"

text \<open>\<open>QUJ7Imk\<close> is \<open>AB\<close> and the first three characters of the payload.\<close>

definition demo_envelope :: signed_license_envelope where
  "demo_envelope = \<lparr>sl_key_id = ''k1'', sl_payload = [(''id'', JStr ''l'')], sl_signature = ''QUJ7Imk=''\<rparr>"

definition demo_license_platform :: id_platform where
  "demo_license_platform = \<lparr>pl_store = empty_store int (\<lambda>n. replicate n CHR ''x'') False, pl_last_status = [],
     pl_active_validation = [],
     id_users = [(''u'', \<lparr>ua_id = ''u'', ua_tenant_id = ''t'', ua_email = ''a@b'', ua_display_name = ''A'',
       ua_password_hash = ''h'', ua_status = US_ACTIVE, ua_created_at = 0\<rparr>)],
     id_user_ids_by_tenant_email = [],
     id_roles = [(''t:r'', \<lparr>ro_tenant_id = ''t'', ro_id = ''r'', ro_name = ''R'',
       ro_permissions = [\<lparr>pm_action = ''licenses.manage'', pm_resource = ''tenant:t''\<rparr>]\<rparr>)],
     id_assignments = [\<lparr>ra_tenant_id = ''t'', ra_user_id = ''u'', ra_role_id = ''r'', ra_created_at = 0\<rparr>]\<rparr>"

lemma demo_imports:
  "fst (import_license demo_license_settings ''t'' ''u'' None demo_envelope ''private'' demo_license_platform)
     = Inr \<lparr>lv_license = demo_license, lv_status = LS_ACTIVE, lv_deployment_mode = ''private'',
         lv_source = ''signed_offline_file'', lv_reason = []\<rparr>"
  by code_simp

lemma imported_licenses_are_genuine_witness:
  "genuine demo_verifier demo_envelope
    \<and> (\<exists>v. dict_get (pl_active_validation (snd (import_license demo_license_settings ''t'' ''u'' None demo_envelope
          ''private'' demo_license_platform))) ''t'' = Some v \<and> lv_license v = demo_license)"
proof -
  obtain q where run: "import_license demo_license_settings ''t'' ''u'' None demo_envelope ''private'' demo_license_platform
      = (Inr \<lparr>lv_license = demo_license, lv_status = LS_ACTIVE, lv_deployment_mode = ''private'',
         lv_source = ''signed_offline_file'', lv_reason = []\<rparr>, q)"
    using demo_imports by (metis prod.collapse)
  have "li_signature_verifier demo_license_settings = Some demo_verifier"
    by (simp add: demo_license_settings_def)
  with imported_licenses_are_genuine [OF run] show ?thesis by (auto simp: run)
qed

end
