(* ===== verification/Sharing.thy ===== *)
theory Sharing
  imports Identity
begin

text \<open>
  \<^verbatim>\<open>taroai/sharing\<close>: share grants, their validation and the in-memory grant store (\<^verbatim>\<open>models.py\<close>,
  \<^verbatim>\<open>repository.py\<close>), and the public links to threads (\<^verbatim>\<open>thread_links.py\<close>) over the threads, messages, runs
  and artifacts of the control plane store. HMAC-SHA256 is a parameter, and so is the dump of a resource
  reference.
\<close>

section \<open>Grants\<close>

datatype share_resource_type =
  SR_RUN | SR_ARTIFACT | SR_SKILL | SR_KNOWLEDGE_SPACE | SR_MEMORY_CANDIDATE | SR_WORKSPACE | SR_AGENT_TEMPLATE

datatype share_subject_type = SS_USER | SS_GROUP | SS_WORKSPACE | SS_TENANT | SS_EXTERNAL_LINK

datatype share_permission = SP_VIEW | SP_COMMENT | SP_USE | SP_COPY | SP_EDIT | SP_PUBLISH | SP_ADMIN

datatype share_grant_status = SG_ACTIVE | SG_REVOKED

fun share_permission_value :: "share_permission \<Rightarrow> string" where
  "share_permission_value SP_VIEW = ''view''"
| "share_permission_value SP_COMMENT = ''comment''"
| "share_permission_value SP_USE = ''use''"
| "share_permission_value SP_COPY = ''copy''"
| "share_permission_value SP_EDIT = ''edit''"
| "share_permission_value SP_PUBLISH = ''publish''"
| "share_permission_value SP_ADMIN = ''admin''"

fun share_resource_type_value :: "share_resource_type \<Rightarrow> string" where
  "share_resource_type_value SR_RUN = ''run''"
| "share_resource_type_value SR_ARTIFACT = ''artifact''"
| "share_resource_type_value SR_SKILL = ''skill''"
| "share_resource_type_value SR_KNOWLEDGE_SPACE = ''knowledge_space''"
| "share_resource_type_value SR_MEMORY_CANDIDATE = ''memory_candidate''"
| "share_resource_type_value SR_WORKSPACE = ''workspace''"
| "share_resource_type_value SR_AGENT_TEMPLATE = ''agent_template''"

fun share_subject_type_value :: "share_subject_type \<Rightarrow> string" where
  "share_subject_type_value SS_USER = ''user''"
| "share_subject_type_value SS_GROUP = ''group''"
| "share_subject_type_value SS_WORKSPACE = ''workspace''"
| "share_subject_type_value SS_TENANT = ''tenant''"
| "share_subject_type_value SS_EXTERNAL_LINK = ''external_link''"

fun share_grant_status_value :: "share_grant_status \<Rightarrow> string" where
  "share_grant_status_value SG_ACTIVE = ''active''"
| "share_grant_status_value SG_REVOKED = ''revoked''"

text \<open>\<open>RESOURCE_PERMISSION_MATRIX\<close>\<close>

fun resource_permissions :: "share_resource_type \<Rightarrow> share_permission list" where
  "resource_permissions SR_RUN = [SP_VIEW, SP_COMMENT, SP_EDIT, SP_ADMIN]"
| "resource_permissions SR_ARTIFACT = [SP_VIEW, SP_COMMENT, SP_COPY, SP_EDIT, SP_ADMIN]"
| "resource_permissions SR_SKILL = [SP_VIEW, SP_USE, SP_COPY, SP_EDIT, SP_PUBLISH, SP_ADMIN]"
| "resource_permissions SR_KNOWLEDGE_SPACE = [SP_VIEW, SP_USE, SP_EDIT, SP_ADMIN]"
| "resource_permissions SR_MEMORY_CANDIDATE = [SP_VIEW, SP_EDIT, SP_ADMIN]"
| "resource_permissions SR_WORKSPACE = [SP_VIEW, SP_COMMENT, SP_ADMIN]"
| "resource_permissions SR_AGENT_TEMPLATE = [SP_VIEW, SP_USE, SP_COPY, SP_EDIT, SP_PUBLISH, SP_ADMIN]"

definition external_link_token_min_length :: nat where
  "external_link_token_min_length = 32"

record share_grant_create =
  gc_tenant_id :: string
  gc_resource_type :: share_resource_type
  gc_resource_id :: string
  gc_subject_type :: share_subject_type
  gc_subject_id :: string
  gc_permission :: share_permission
  gc_created_by_user_id :: string
  gc_reason :: "string option"
  gc_expires_at :: "datetime option"

record share_grant =
  sg_id :: string
  sg_tenant_id :: string
  sg_resource_type :: share_resource_type
  sg_resource_id :: string
  sg_subject_type :: share_subject_type
  sg_subject_id :: string
  sg_permission :: share_permission
  sg_status :: share_grant_status
  sg_reason :: "string option"
  sg_expires_at :: "datetime option"
  sg_created_by_user_id :: string
  sg_created_at :: datetime
  sg_revoked_by_user_id :: "string option"
  sg_revoked_at :: "datetime option"

text \<open>The validators answer the message of the \<open>ValueError\<close> they raise.\<close>

definition validate_external_link_subject_id :: "share_subject_type \<Rightarrow> string \<Rightarrow> string option" where
  "validate_external_link_subject_id subject_type subject_id =
     (if subject_type \<noteq> SS_EXTERNAL_LINK then None
      else if prefix ''hmac-sha256:'' subject_id then None
      else if length subject_id < external_link_token_min_length
      then Some (''external_link subject_id must be at least ''
        @ show_int (int external_link_token_min_length) @ '' characters'')
      else None)"

definition validate_external_link_permission :: "share_subject_type \<Rightarrow> share_permission \<Rightarrow> string option" where
  "validate_external_link_permission subject_type perm =
     (if subject_type = SS_EXTERNAL_LINK \<and> perm \<noteq> SP_VIEW
      then Some ''external_link grants only support view permission'' else None)"

definition validate_external_link_resource :: "share_subject_type \<Rightarrow> share_resource_type \<Rightarrow> string option" where
  "validate_external_link_resource subject_type resource_type =
     (if subject_type = SS_EXTERNAL_LINK \<and> resource_type \<noteq> SR_ARTIFACT
      then Some ''external_link grants only support artifact resources'' else None)"

fun first_message :: "string option list \<Rightarrow> string option" where
  "first_message [] = None"
| "first_message (None # ms) = first_message ms"
| "first_message (Some m # ms) = Some m"

definition grant_semantics :: "share_grant_create \<Rightarrow> string option" where
  "grant_semantics g = first_message
     [if gc_subject_type g = SS_EXTERNAL_LINK \<and> gc_expires_at g = None
      then Some ''external_link grants require expires_at'' else None,
      validate_external_link_subject_id (gc_subject_type g) (gc_subject_id g),
      validate_external_link_permission (gc_subject_type g) (gc_permission g),
      validate_external_link_resource (gc_subject_type g) (gc_resource_type g),
      if gc_permission g \<notin> set (resource_permissions (gc_resource_type g))
      then Some (share_permission_value (gc_permission g) @ '' is not supported for ''
        @ share_resource_type_value (gc_resource_type g)) else None]"

text \<open>The constructor \<open>ShareGrantCreate\<close>, as \<open>to_create\<close> calls it.\<close>

definition make_share_grant_create :: "share_grant_create \<Rightarrow> error + share_grant_create" where
  "make_share_grant_create g =
     (if gc_tenant_id g = [] \<or> gc_resource_id g = [] \<or> gc_subject_id g = [] \<or> gc_created_by_user_id g = []
      then Inl (ValidationError ''String should have at least 1 character'')
      else if (case gc_reason g of None \<Rightarrow> False | Some r \<Rightarrow> 1000 < length r)
      then Inl (ValidationError ''String should have at most 1000 characters'')
      else case grant_semantics g of Some m \<Rightarrow> Inl (ValidationError m) | None \<Rightarrow> Inr g)"

definition grant_is_active :: "share_grant \<Rightarrow> datetime \<Rightarrow> bool" where
  "grant_is_active g effective_now =
     (if sg_status g \<noteq> SG_ACTIVE then False
      else if (case sg_expires_at g of None \<Rightarrow> False | Some x \<Rightarrow> x \<le> effective_now) then False
      else True)"

definition grants_permission :: "share_grant \<Rightarrow> share_permission \<Rightarrow> bool" where
  "grants_permission g perm \<longleftrightarrow> sg_permission g = perm \<or> sg_permission g = SP_ADMIN"

record share_subject =
  su_tenant_id :: string
  su_user_id :: string
  su_workspace_id :: "string option"
  su_group_ids :: "string list"
  su_external_link_id :: "string option"

definition matches_subject :: "share_grant \<Rightarrow> share_subject \<Rightarrow> bool" where
  "matches_subject g su =
     (case sg_subject_type g of
        SS_USER \<Rightarrow> sg_subject_id g = su_user_id su
      | SS_GROUP \<Rightarrow> sg_subject_id g \<in> set (su_group_ids su)
      | SS_WORKSPACE \<Rightarrow> Some (sg_subject_id g) = su_workspace_id su
      | SS_TENANT \<Rightarrow> sg_subject_id g = su_tenant_id su
      | SS_EXTERNAL_LINK \<Rightarrow> Some (sg_subject_id g) = su_external_link_id su)"

definition share_grant_audit_metadata :: "share_grant \<Rightarrow> json_obj" where
  "share_grant_audit_metadata g =
     [(''grant_id'', JStr (sg_id g)), (''resource_type'', JStr (share_resource_type_value (sg_resource_type g))),
      (''resource_id'', JStr (sg_resource_id g)),
      (''subject_type'', JStr (share_subject_type_value (sg_subject_type g))),
      (''subject_id'', JStr (if sg_subject_type g = SS_EXTERNAL_LINK then ''[REDACTED]'' else sg_subject_id g)),
      (''permission'', JStr (share_permission_value (sg_permission g))),
      (''status'', JStr (share_grant_status_value (sg_status g))),
      (''expires_at'', opt_str (map_option isoformat (sg_expires_at g))),
      (''external_link_id_present'', if sg_subject_type g = SS_EXTERNAL_LINK then JBool True else JNull)]"

section \<open>The grant store\<close>

record thread_share_link =
  tl_id :: string
  tl_public_id :: string
  tl_tenant_id :: string
  tl_workspace_id :: string
  tl_thread_id :: string
  tl_token_hash :: string
  tl_status :: string
  tl_redaction_policy :: json_obj
  tl_expires_at :: datetime
  tl_created_by_user_id :: string
  tl_created_at :: datetime
  tl_revoked_by_user_id :: "string option"
  tl_revoked_at :: "datetime option"

record share_platform = id_platform +
  sh_grants :: "(string, share_grant) dict"
  sh_links :: "(string, thread_share_link) dict"

definition create_grant :: "share_grant_create \<Rightarrow> (share_platform, share_grant) op" where
  "create_grant request =
     andThen (on_store (new_id ''share'')) (\<lambda>i.
     andThen (on_store utc_now) (\<lambda>now.
     let grant = \<lparr>sg_id = i, sg_tenant_id = gc_tenant_id request, sg_resource_type = gc_resource_type request,
           sg_resource_id = gc_resource_id request, sg_subject_type = gc_subject_type request,
           sg_subject_id = gc_subject_id request, sg_permission = gc_permission request, sg_status = SG_ACTIVE,
           sg_reason = gc_reason request, sg_expires_at = gc_expires_at request,
           sg_created_by_user_id = gc_created_by_user_id request, sg_created_at = now,
           sg_revoked_by_user_id = None, sg_revoked_at = None\<rparr> in
     andThen (modify (\<lambda>p. p\<lparr>sh_grants := dict_set i grant (sh_grants p)\<rparr>)) (\<lambda>_. ret grant)))"

definition list_grants ::
  "string \<Rightarrow> share_resource_type option \<Rightarrow> string option \<Rightarrow> (share_platform, share_grant list) op" where
  "list_grants tenant_id resource_type resource_id =
     gets (\<lambda>p. sort_key (\<lambda>g. (sg_created_at g, sg_id g))
       (filter (\<lambda>g. sg_tenant_id g = tenant_id
          \<and> (resource_type = None \<or> resource_type = Some (sg_resource_type g))
          \<and> (resource_id = None \<or> resource_id = Some (sg_resource_id g))) (dict_values (sh_grants p))))"

definition get_grant :: "string \<Rightarrow> string \<Rightarrow> (share_platform, share_grant) op" where
  "get_grant tenant_id grant_id =
     andThen (gets (\<lambda>p. dict_get (sh_grants p) grant_id)) (\<lambda>found.
     case found of
       None \<Rightarrow> raise (NotFoundError (''Share grant not found: '' @ grant_id))
     | Some g \<Rightarrow>
         andThen (require (sg_tenant_id g = tenant_id) (NotFoundError (''Share grant not found: '' @ grant_id)))
           (\<lambda>_. ret g))"

definition revoke_grant ::
  "string \<Rightarrow> string \<Rightarrow> string \<Rightarrow> datetime option \<Rightarrow> (share_platform, share_grant) op" where
  "revoke_grant tenant_id grant_id revoked_by_user_id now =
     andThen (get_grant tenant_id grant_id) (\<lambda>g.
     andThen (platform_now now) (\<lambda>t.
     let revoked = g\<lparr>sg_status := SG_REVOKED, sg_revoked_by_user_id := Some revoked_by_user_id,
                      sg_revoked_at := Some t\<rparr> in
     andThen (modify (\<lambda>p. p\<lparr>sh_grants := dict_set grant_id revoked (sh_grants p)\<rparr>)) (\<lambda>_. ret revoked)))"

definition grant_authorizes ::
  "share_subject \<Rightarrow> share_resource_type \<Rightarrow> string \<Rightarrow> share_permission \<Rightarrow> datetime option \<Rightarrow> share_grant
   \<Rightarrow> (share_platform, bool) op" where
  "grant_authorizes su resource_type resource_id perm now g =
     (if sg_tenant_id g \<noteq> su_tenant_id su then ret False
      else if sg_resource_type g \<noteq> resource_type \<or> sg_resource_id g \<noteq> resource_id then ret False
      else
        andThen (platform_now now) (\<lambda>t.
        if \<not> grant_is_active g t then ret False
        else if \<not> grants_permission g perm then ret False
        else ret (matches_subject g su)))"

fun any_op :: "('a \<Rightarrow> ('s, bool) op) \<Rightarrow> 'a list \<Rightarrow> ('s, bool) op" where
  "any_op f [] = ret False"
| "any_op f (x # xs) = andThen (f x) (\<lambda>b. if b then ret True else any_op f xs)"

definition authorize ::
  "share_subject \<Rightarrow> share_resource_type \<Rightarrow> string \<Rightarrow> share_permission \<Rightarrow> datetime option
   \<Rightarrow> (share_platform, bool) op" where
  "authorize su resource_type resource_id perm now =
     andThen (list_grants (su_tenant_id su) None None) (any_op (grant_authorizes su resource_type resource_id perm now))"

section \<open>The handlers of the HTTP application\<close>

record share_settings =
  sh_platform :: platform_settings
  sh_external_share_links_enabled :: bool
  sh_token_hash_secret :: string
  sh_hmac_sha256_hex :: "string \<Rightarrow> string \<Rightarrow> string"
  sh_thread_hash_secret :: string
  sh_token_urlsafe :: "nat \<Rightarrow> nat \<Rightarrow> string"

definition require_external_share_links_enabled :: "share_settings \<Rightarrow> (share_platform, unit) op" where
  "require_external_share_links_enabled c =
     require (sh_external_share_links_enabled c) (TenantAccessError ''External share links are disabled'')"

definition external_share_link_subject_id :: "share_settings \<Rightarrow> string \<Rightarrow> string \<Rightarrow> string" where
  "external_share_link_subject_id c token tenant_id =
     ''hmac-sha256:'' @ sh_hmac_sha256_hex c (utf8_encode (sh_token_hash_secret c))
       (utf8_encode (tenant_id @ [CHR 0x00] @ token))"

definition share_audit ::
  "share_settings \<Rightarrow> string \<Rightarrow> string \<Rightarrow> audit_actor option \<Rightarrow> string \<Rightarrow> share_grant \<Rightarrow> (share_platform, unit) op" where
  "share_audit c tenant_id user_id actor event_type g =
     void (audit_record (sh_platform c)
       \<lparr>ae_tenant_id = tenant_id, ae_workspace_id = None, ae_user_id = Some user_id, ae_run_id = None,
        ae_event_type = event_type, ae_metadata = share_grant_audit_metadata g, ae_actor = actor\<rparr>)"

text \<open>The handler of \<open>POST /api/share-grants\<close>: the body's fields are those of \<open>request\<close>, tenant and creator
  come from the context; the validators of \<open>ShareGrantApiCreate\<close> have run.\<close>

definition create_share_grant ::
  "share_settings \<Rightarrow> audit_actor option \<Rightarrow> share_grant_create \<Rightarrow> (share_platform, share_grant) op" where
  "create_share_grant c actor request =
     (let tenant_id = gc_tenant_id request; user_id = gc_created_by_user_id request in
      andThen (require_permission tenant_id user_id ''sharing.manage'') (\<lambda>_.
      andThen (if gc_subject_type request = SS_EXTERNAL_LINK
               then andThen (require_external_share_links_enabled c) (\<lambda>_.
                 ret (request\<lparr>gc_subject_id := external_share_link_subject_id c (gc_subject_id request) tenant_id\<rparr>))
               else ret request) (\<lambda>create_payload.
      andThen (lift_error (make_share_grant_create create_payload)) (\<lambda>checked.
      andThen (create_grant checked) (\<lambda>g.
      andThen (share_audit c tenant_id user_id actor ''share.grant.created'' g) (\<lambda>_.
      ret g))))))"

definition list_share_grants ::
  "string \<Rightarrow> string \<Rightarrow> share_resource_type option \<Rightarrow> string option \<Rightarrow> (share_platform, share_grant list) op" where
  "list_share_grants tenant_id user_id resource_type resource_id =
     andThen (require_permission tenant_id user_id ''sharing.read'') (\<lambda>_.
     list_grants tenant_id resource_type resource_id)"

definition revoke_share_grant ::
  "share_settings \<Rightarrow> string \<Rightarrow> string \<Rightarrow> audit_actor option \<Rightarrow> string \<Rightarrow> (share_platform, share_grant) op" where
  "revoke_share_grant c tenant_id user_id actor grant_id =
     andThen (require_permission tenant_id user_id ''sharing.manage'') (\<lambda>_.
     andThen (revoke_grant tenant_id grant_id user_id None) (\<lambda>g.
     andThen (share_audit c tenant_id user_id actor ''share.grant.revoked'' g) (\<lambda>_.
     ret g)))"

text \<open>The sensitivity level the storage catalog keeps of an object is an argument.\<close>

definition external_subject :: "share_settings \<Rightarrow> string \<Rightarrow> string \<Rightarrow> string option \<Rightarrow> share_subject" where
  "external_subject c tenant_id external_link_id workspace_id =
     \<lparr>su_tenant_id = tenant_id, su_user_id = ''external_link'', su_workspace_id = workspace_id, su_group_ids = [],
      su_external_link_id = Some (external_share_link_subject_id c external_link_id tenant_id)\<rparr>"

definition require_external_artifact_read_access ::
  "share_settings \<Rightarrow> (string \<Rightarrow> string \<Rightarrow> error + int) \<Rightarrow> string \<Rightarrow> string \<Rightarrow> string \<Rightarrow> (share_platform, artifact) op" where
  "require_external_artifact_read_access c sensitivity tenant_id external_link_id artifact_id =
     andThen (require_external_share_links_enabled c) (\<lambda>_.
     andThen (on_store (get_artifact tenant_id artifact_id)) (\<lambda>a.
     andThen (if truthy (ar_storage_object_id a)
              then andThen (lift_error (sensitivity tenant_id (the (ar_storage_object_id a)))) (\<lambda>level.
                require (\<not> level > 0) (TenantAccessError ''External share link cannot access sensitive artifacts''))
              else ret ()) (\<lambda>_.
     andThen (authorize (external_subject c tenant_id external_link_id (ar_workspace_id a)) SR_ARTIFACT (ar_id a)
       SP_VIEW None) (\<lambda>allowed.
     andThen (require allowed (TenantAccessError ''External artifact share link denied'')) (\<lambda>_.
     ret a)))))"

section \<open>Public links to threads\<close>

record thread_share_create =
  xl_expires_in_seconds :: int
  xl_include_attachments :: bool
  xl_include_artifacts :: bool
  xl_redact_resource_refs :: bool

definition link_active :: "thread_share_link \<Rightarrow> datetime \<Rightarrow> bool" where
  "link_active l now \<longleftrightarrow> tl_status l = ''active'' \<and> tl_expires_at l > now"

definition put_link :: "thread_share_link \<Rightarrow> (share_platform, unit) op" where
  "put_link l = modify (\<lambda>p. p\<lparr>sh_links := dict_set (tl_id l) l (sh_links p)\<rparr>)"

definition get_link :: "string \<Rightarrow> string \<Rightarrow> (share_platform, thread_share_link) op" where
  "get_link tenant_id link_id =
     andThen (gets (\<lambda>p. dict_get (sh_links p) link_id)) (\<lambda>found.
     case found of
       None \<Rightarrow> raise (NotFoundError (''Thread share link not found: '' @ link_id))
     | Some l \<Rightarrow>
         andThen (require (tl_tenant_id l = tenant_id) (NotFoundError (''Thread share link not found: '' @ link_id)))
           (\<lambda>_. ret l))"

definition get_public_link :: "string \<Rightarrow> string \<Rightarrow> (share_platform, thread_share_link) op" where
  "get_public_link tenant_id public_id =
     andThen (gets (\<lambda>p. find (\<lambda>l. tl_tenant_id l = tenant_id \<and> tl_public_id l = public_id) (dict_values (sh_links p))))
       (\<lambda>found.
     case found of
       None \<Rightarrow> raise (NotFoundError ''Thread share link not found'')
     | Some l \<Rightarrow> ret l)"

definition list_links :: "string \<Rightarrow> string \<Rightarrow> (share_platform, thread_share_link list) op" where
  "list_links tenant_id thread_id =
     gets (\<lambda>p. filter (\<lambda>l. tl_tenant_id l = tenant_id \<and> tl_thread_id l = thread_id) (dict_values (sh_links p)))"

definition revoke_link :: "string \<Rightarrow> string \<Rightarrow> string \<Rightarrow> (share_platform, thread_share_link) op" where
  "revoke_link tenant_id link_id user_id =
     andThen (get_link tenant_id link_id) (\<lambda>l.
     andThen (on_store utc_now) (\<lambda>now.
     let revoked = l\<lparr>tl_status := ''revoked'', tl_revoked_by_user_id := Some user_id, tl_revoked_at := Some now\<rparr> in
     andThen (modify (\<lambda>p. p\<lparr>sh_links := dict_set link_id revoked (sh_links p)\<rparr>)) (\<lambda>_. ret revoked)))"

definition share_token_hash :: "share_settings \<Rightarrow> string \<Rightarrow> string" where
  "share_token_hash c token =
     ''hmac-sha256:'' @ sh_hmac_sha256_hex c (utf8_encode (sh_thread_hash_secret c)) (utf8_encode token)"

definition share_token :: "share_settings \<Rightarrow> nat \<Rightarrow> (share_platform, string) op" where
  "share_token c n = on_store (\<lambda>s. (Inr (sh_token_urlsafe c n (tick s)), s\<lparr>tick := Suc (tick s)\<rparr>))"

definition create_thread_link ::
  "share_settings \<Rightarrow> string \<Rightarrow> string \<Rightarrow> string \<Rightarrow> thread_share_create \<Rightarrow> (share_platform, thread_share_link \<times> string) op" where
  "create_thread_link c tenant_id user_id thread_id payload =
     andThen (on_store (get_chat_thread tenant_id thread_id)) (\<lambda>thread.
     andThen (share_token c 32) (\<lambda>token.
     andThen (on_store (new_id ''thread_share'')) (\<lambda>i.
     andThen (share_token c 12) (\<lambda>public_id.
     andThen (on_store utc_now) (\<lambda>now.
     andThen (on_store utc_now) (\<lambda>created_at.
     let l = \<lparr>tl_id = i, tl_public_id = public_id, tl_tenant_id = tenant_id, tl_workspace_id = th_workspace_id thread,
           tl_thread_id = th_id thread, tl_token_hash = share_token_hash c token, tl_status = ''active'',
           tl_redaction_policy =
             [(''include_attachments'', JBool (xl_include_attachments payload)),
              (''include_artifacts'', JBool (xl_include_artifacts payload)),
              (''redact_resource_refs'', JBool (xl_redact_resource_refs payload))],
           tl_expires_at = now + xl_expires_in_seconds payload * 1000000, tl_created_by_user_id = user_id,
           tl_created_at = created_at, tl_revoked_by_user_id = None, tl_revoked_at = None\<rparr> in
     andThen (put_link l) (\<lambda>_. ret (l, token))))))))"

definition dump_resource_reference :: "resource_reference \<Rightarrow> json" where
  "dump_resource_reference r = JObj [(''type'', JStr (rr_type r)), (''id'', JStr (rr_id r)), (''version'', opt_str (rr_version r))]"

text \<open>\<open>policy.get(key, default)\<close> as a truth value.\<close>

fun json_truth :: "json \<Rightarrow> bool" where
  "json_truth JNull = False"
| "json_truth (JBool b) = b"
| "json_truth (JInt i) = (i \<noteq> 0)"
| "json_truth (JFloat r) = (r \<noteq> 0)"
| "json_truth (JStr s) = (s \<noteq> [])"
| "json_truth (JArr xs) = (xs \<noteq> [])"
| "json_truth (JObj kvs) = (kvs \<noteq> [])"

definition policy_flag :: "json_obj \<Rightarrow> string \<Rightarrow> bool \<Rightarrow> bool" where
  "policy_flag policy key absent = (case map_of policy key of None \<Rightarrow> absent | Some v \<Rightarrow> json_truth v)"

fun public_role :: "chat_message_role \<Rightarrow> string option" where
  "public_role ROLE_USER = Some ''user''"
| "public_role ROLE_ASSISTANT = Some ''assistant''"
| "public_role _ = None"

definition public_message :: "json_obj \<Rightarrow> chat_message \<Rightarrow> json option" where
  "public_message policy m =
     (case public_role (m_role m) of
        None \<Rightarrow> None
      | Some role \<Rightarrow> Some (JObj (
          [(''id'', JStr (m_id m)), (''sequence'', JInt (m_sequence m)), (''role'', JStr role),
           (''content'', JStr (m_content m)), (''created_at'', JStr (isoformat (m_created_at m)))]
          @ (if policy_flag policy ''include_attachments'' False
             then [(''attachments'', JArr (map JStr (m_attachments m)))] else [])
          @ (if \<not> policy_flag policy ''redact_resource_refs'' True
             then [(''resource_refs'', JArr (map dump_resource_reference (m_resource_refs m)))] else []))))"

definition public_artifact :: "artifact \<Rightarrow> json" where
  "public_artifact a = JObj
     [(''id'', JStr (ar_id a)), (''name'', JStr (ar_name a)), (''artifact_type'', JStr (ar_artifact_type a)),
      (''content_type'', opt_str (ar_content_type a))]"

fun thread_artifacts :: "string \<Rightarrow> string \<Rightarrow> run list \<Rightarrow> (share_platform, json list) op" where
  "thread_artifacts tenant_id thread_id [] = ret []"
| "thread_artifacts tenant_id thread_id (r # rs) =
     (if r_thread_id r \<noteq> Some thread_id then thread_artifacts tenant_id thread_id rs
      else
        andThen (on_store (list_artifacts tenant_id (r_id r))) (\<lambda>as.
        andThen (thread_artifacts tenant_id thread_id rs) (\<lambda>rest.
        ret (map public_artifact as @ rest))))"

definition read_public_thread ::
  "share_settings \<Rightarrow> string \<Rightarrow> string \<Rightarrow> string \<Rightarrow> (share_platform, json) op" where
  "read_public_thread c tenant_id public_id token =
     andThen (get_public_link tenant_id public_id) (\<lambda>l.
     andThen (on_store utc_now) (\<lambda>now.
     andThen (if \<not> link_active l now then ret False
              else lift_error (compare_digest (tl_token_hash l) (share_token_hash c token))) (\<lambda>same.
     andThen (require same (NotFoundError ''Thread share link not found'')) (\<lambda>_.
     andThen (on_store (get_chat_thread (tl_tenant_id l) (tl_thread_id l))) (\<lambda>thread.
     andThen (on_store (list_chat_messages (tl_tenant_id l) (tl_thread_id l))) (\<lambda>messages.
     let policy = tl_redaction_policy l in
     andThen (if policy_flag policy ''include_artifacts'' True
              then andThen (on_store (list_runs (tl_tenant_id l) (Some (th_workspace_id thread)) None))
                (thread_artifacts (tl_tenant_id l) (th_id thread))
              else ret []) (\<lambda>artifacts.
     ret (JObj
       [(''thread'', JObj [(''id'', JStr (th_id thread)), (''title'', JStr (th_title thread)),
           (''created_at'', JStr (isoformat (th_created_at thread)))]),
        (''messages'', JArr (List.map_filter (public_message policy) messages)),
        (''artifacts'', JArr artifacts), (''expires_at'', JStr (isoformat (tl_expires_at l)))]))))))))"

text \<open>The handler of \<open>DELETE /api/threads/{thread_id}/shares/{share_id}\<close>.\<close>

definition revoke_thread_share ::
  "string \<Rightarrow> string \<Rightarrow> string \<Rightarrow> string \<Rightarrow> (share_platform, thread_share_link) op" where
  "revoke_thread_share tenant_id user_id thread_id share_id =
     andThen (get_link tenant_id share_id) (\<lambda>l.
     andThen (require (tl_thread_id l = thread_id) (NotFoundError (''Thread share link not found: '' @ share_id))) (\<lambda>_.
     revoke_link tenant_id share_id user_id))"

section \<open>Reading stored objects\<close>

text \<open>What the application reads of a storage object, and of the headers of a request.\<close>

record stored_object =
  so_id :: string
  so_is_artifact :: bool
  so_workspace_id :: "string option"
  so_sensitivity_level :: int
  so_acl_subjects :: "string list"

definition storage_clearance_level :: "string option \<Rightarrow> error + int" where
  "storage_clearance_level raw_clearance =
     (case raw_clearance of
        None \<Rightarrow> Inr 0
      | Some v \<Rightarrow> (case py_int v of
          Inl _ \<Rightarrow> Inl (TenantAccessError ''Invalid storage clearance level'')
        | Inr n \<Rightarrow> Inr n))"

definition raw_acl_subjects :: "string option \<Rightarrow> string list" where
  "raw_acl_subjects header = filter (\<lambda>s. s \<noteq> [])
     (map py_strip (split_on CHR '','' (case header of None \<Rightarrow> [] | Some v \<Rightarrow> v)))"

definition storage_acl_subjects :: "string option \<Rightarrow> string \<Rightarrow> string \<Rightarrow> string list" where
  "storage_acl_subjects header tenant_id user_id =
     raw_acl_subjects header @ [''user:'' @ user_id, ''tenant:'' @ tenant_id]"

definition storage_share_group_ids :: "string option \<Rightarrow> string list" where
  "storage_share_group_ids header = concat (map (\<lambda>s. s #
     (if prefix ''group:'' s then [snd (cut CHR '':'' s)] else [])) (raw_acl_subjects header))"

definition storage_share_grant_allows_read ::
  "string option \<Rightarrow> string \<Rightarrow> string \<Rightarrow> stored_object \<Rightarrow> (share_platform, bool) op" where
  "storage_share_grant_allows_read header tenant_id user_id ob =
     (if \<not> so_is_artifact ob then ret False
      else authorize \<lparr>su_tenant_id = tenant_id, su_user_id = user_id, su_workspace_id = so_workspace_id ob,
        su_group_ids = storage_share_group_ids header, su_external_link_id = None\<rparr>
        SR_ARTIFACT (so_id ob) SP_VIEW None)"

definition require_storage_read_access ::
  "string option \<Rightarrow> string option \<Rightarrow> string \<Rightarrow> string \<Rightarrow> stored_object \<Rightarrow> (share_platform, unit) op" where
  "require_storage_read_access clearance_header acl_header tenant_id user_id ob =
     andThen (lift_error (storage_clearance_level clearance_header)) (\<lambda>clearance_level.
     andThen (require (\<not> clearance_level < so_sensitivity_level ob)
       (TenantAccessError ''Storage object sensitivity exceeds requester clearance'')) (\<lambda>_.
     if so_acl_subjects ob = [] then ret ()
     else if set (storage_acl_subjects acl_header tenant_id user_id) \<inter> set (so_acl_subjects ob) \<noteq> {} then ret ()
     else
       andThen (storage_share_grant_allows_read acl_header tenant_id user_id ob) (\<lambda>allowed.
       require allowed (TenantAccessError ''Storage object ACL denied''))))"

definition require_external_share_link_storage_read_access ::
  "share_settings \<Rightarrow> string \<Rightarrow> string \<Rightarrow> stored_object \<Rightarrow> (share_platform, unit) op" where
  "require_external_share_link_storage_read_access c tenant_id external_link_id ob =
     andThen (require_external_share_links_enabled c) (\<lambda>_.
     andThen (require (so_is_artifact ob) (TenantAccessError ''External share links can only download artifacts'')) (\<lambda>_.
     andThen (require (\<not> so_sensitivity_level ob > 0)
       (TenantAccessError ''External share link cannot access sensitive artifacts'')) (\<lambda>_.
     andThen (authorize (external_subject c tenant_id external_link_id (so_workspace_id ob)) SR_ARTIFACT (so_id ob)
       SP_VIEW None) (\<lambda>allowed.
     require allowed (TenantAccessError ''External share link denied'')))))"

end
