(* ===== verification/SharingGuarantees.thy ===== *)
theory SharingGuarantees
  imports Sharing
begin

text \<open>
  What the shares of \<^theory_text>\<open>Sharing\<close> guarantee. Every stored grant passed its validators, so an external link
  only views one artifact, expires, and is stored as the hash of its token; what was revoked stays revoked;
  access is decided by the active grants alone; a public thread is read through an active link only, and
  shows messages of users and assistants only.
\<close>

section \<open>Decisions\<close>






section \<open>What stays\<close>

definition grant_valid :: "share_settings \<Rightarrow> share_grant \<Rightarrow> bool" where
  "grant_valid c g \<longleftrightarrow> sg_permission g \<in> set (resource_permissions (sg_resource_type g))
     \<and> (sg_subject_type g = SS_EXTERNAL_LINK \<longrightarrow> sg_permission g = SP_VIEW \<and> sg_resource_type g = SR_ARTIFACT
        \<and> sg_expires_at g \<noteq> None
        \<and> (\<exists>token. sg_subject_id g = external_share_link_subject_id c token (sg_tenant_id g)))"

definition shares_issued :: "share_platform \<Rightarrow> bool" where
  "shares_issued p \<longleftrightarrow> unique_uuids (pl_store p) \<and> dict_ok (sh_grants p)
     \<and> (\<forall>i g. dict_get (sh_grants p) i = Some g \<longrightarrow> issued ''share'' (pl_store p) i)
     \<and> (\<forall>i l. dict_get (sh_links p) i = Some l \<longrightarrow> issued ''thread_share'' (pl_store p) i)"

definition grant_revoked :: "share_platform \<Rightarrow> string \<Rightarrow> bool" where
  "grant_revoked p i \<longleftrightarrow> (\<exists>g. dict_get (sh_grants p) i = Some g \<and> sg_status g = SG_REVOKED)"

definition link_revoked :: "share_platform \<Rightarrow> string \<Rightarrow> bool" where
  "link_revoked p i \<longleftrightarrow> (\<exists>l. dict_get (sh_links p) i = Some l \<and> tl_status l = ''revoked'')"

definition share_inv :: "share_settings \<Rightarrow> string set \<Rightarrow> string set \<Rightarrow> share_platform \<Rightarrow> bool" where
  "share_inv c K L p \<longleftrightarrow> shares_issued p \<and> (\<forall>i g. dict_get (sh_grants p) i = Some g \<longrightarrow> grant_valid c g)
     \<and> (\<forall>i \<in> K. grant_revoked p i) \<and> (\<forall>i \<in> L. link_revoked p i)"

lemma share_inv_store:
  assumes "share_inv c K L p" and "uuid4_hex s = uuid4_hex (pl_store p)" and "tick (pl_store p) \<le> tick s"
  shows "share_inv c K L (p\<lparr>pl_store := s\<rparr>)"
proof -
  have "unique_uuids s" using assms(1,2) by (simp add: share_inv_def shares_issued_def unique_uuids_def)
  moreover have "issued x (pl_store p) i \<Longrightarrow> issued x s i" for x i
    using issued_mono assms(2,3) by blast
  ultimately show ?thesis
    using assms(1) by (auto simp: share_inv_def shares_issued_def grant_revoked_def link_revoked_def)
qed

interpretation shares: identity_frame "share_inv c K L" for c K L
  by unfold_locales
    (auto simp: share_inv_store, auto simp: share_inv_def shares_issued_def grant_revoked_def link_revoked_def)

lemma put_grant_inv:
  assumes "share_inv c K L p" and "issued ''share'' (pl_store p) i" and "grant_valid c g"
    and "i \<in> K \<Longrightarrow> sg_status g = SG_REVOKED"
  shows "share_inv c K L (p\<lparr>sh_grants := dict_set i g (sh_grants p)\<rparr>)"
proof -
  have "grant_revoked (p\<lparr>sh_grants := dict_set i g (sh_grants p)\<rparr>) j" if "j \<in> K" for j
    using assms(1,4) that by (cases "j = i") (auto simp: grant_revoked_def share_inv_def)
  then show ?thesis
    using assms(1-3) by (auto simp: share_inv_def shares_issued_def link_revoked_def)
qed

lemma put_link_inv:
  assumes "share_inv c K L p" and "issued ''thread_share'' (pl_store p) i"
    and "i \<in> L \<Longrightarrow> tl_status l = ''revoked''"
  shows "share_inv c K L (p\<lparr>sh_links := dict_set i l (sh_links p)\<rparr>)"
proof -
  have "link_revoked (p\<lparr>sh_links := dict_set i l (sh_links p)\<rparr>) j" if "j \<in> L" for j
    using assms(1,3) that by (cases "j = i") (auto simp: link_revoked_def share_inv_def)
  then show ?thesis
    using assms(1,2) by (auto simp: share_inv_def shares_issued_def grant_revoked_def)
qed

lemma drawn_id_eval:
  "on_store (new_id k) p = (Inr (k @ ''_'' @ uuid4_hex (pl_store p) (tick (pl_store p))),
     p\<lparr>pl_store := (pl_store p)\<lparr>tick := Suc (tick (pl_store p))\<rparr>\<rparr>)"
  by (simp add: on_store_eval new_id_def)

lemma new_id_issued:
  assumes "share_inv c K L p" and "on_store (new_id k) p = (Inr i, q)"
  shows "share_inv c K L q \<and> issued k (pl_store q) i \<and> \<not> issued k (pl_store p) i"
proof -
  have q: "q = p\<lparr>pl_store := (pl_store p)\<lparr>tick := Suc (tick (pl_store p))\<rparr>\<rparr>"
      "i = k @ ''_'' @ uuid4_hex (pl_store p) (tick (pl_store p))"
    using assms(2) by (simp_all add: drawn_id_eval)
  have "share_inv c K L q" unfolding q(1) by (rule share_inv_store [OF assms(1)]) simp_all
  moreover have "issued k (pl_store q) i" by (auto simp: issued_def q)
  moreover have "\<not> issued k (pl_store p) i"
    using assms(1) by (auto simp: issued_def q share_inv_def shares_issued_def unique_uuids_def dest: injD)
  ultimately show ?thesis by blast
qed

text \<open>A new identifier, then operations that leave shares alone, then the row.\<close>

lemma fresh_grant:
  assumes ok: "\<And>t. grant_valid c (mk i t) \<and> sg_status (mk i t) = SG_ACTIVE"
    and inv: "share_inv c K L p" and new: "on_store (new_id ''share'') p = (Inr i, p1)"
    and now: "on_store utc_now p1 = (Inr t, p2)"
  shows "share_inv c K L (p2\<lparr>sh_grants := dict_set i (mk i t) (sh_grants p2)\<rparr>)"
proof -
  note i = new_id_issued [OF inv new]
  have p2: "p2 = p1\<lparr>pl_store := (pl_store p1)\<lparr>tick := Suc (tick (pl_store p1))\<rparr>\<rparr>"
    using now by (simp add: on_store_eval utc_now_def)
  have "share_inv c K L p2" unfolding p2 by (rule share_inv_store) (use i in simp_all)
  moreover have "issued ''share'' (pl_store p2) i"
    by (rule issued_mono [of _ "pl_store p1"]) (use i in \<open>simp_all add: p2\<close>)
  moreover have "i \<notin> K"
    using inv i by (auto simp: share_inv_def shares_issued_def grant_revoked_def)
  ultimately show ?thesis using ok by (intro put_grant_inv) auto
qed

lemma first_message_None: "first_message ms = None \<longleftrightarrow> (\<forall>m \<in> set ms. m = None)"
  by (induction ms rule: first_message.induct) simp_all

lemma if_Some_None: "(if b then Some x else None) = None \<longleftrightarrow> \<not> b"
  by simp

lemma grant_semantics_None:
  assumes "grant_semantics r = None"
  shows "gc_permission r \<in> set (resource_permissions (gc_resource_type r))"
    and "gc_subject_type r = SS_EXTERNAL_LINK \<Longrightarrow> gc_expires_at r \<noteq> None"
    and "gc_subject_type r = SS_EXTERNAL_LINK \<Longrightarrow> gc_permission r = SP_VIEW"
    and "gc_subject_type r = SS_EXTERNAL_LINK \<Longrightarrow> gc_resource_type r = SR_ARTIFACT"
  using assms
  by (simp_all add: grant_semantics_def first_message_None if_Some_None validate_external_link_permission_def
      validate_external_link_resource_def)

lemma create_grant_inv:
  assumes "grant_semantics r = None"
    and "gc_subject_type r = SS_EXTERNAL_LINK \<Longrightarrow> \<exists>token. gc_subject_id r = external_share_link_subject_id c token (gc_tenant_id r)"
  shows "preserves (share_inv c K L) (create_grant r)"
proof (rule preservesI)
  fix p x q
  assume inv: "share_inv c K L p" and run: "create_grant r p = (x, q)"
  define mk where "mk = (\<lambda>i t. \<lparr>sg_id = i, sg_tenant_id = gc_tenant_id r, sg_resource_type = gc_resource_type r,
           sg_resource_id = gc_resource_id r, sg_subject_type = gc_subject_type r,
           sg_subject_id = gc_subject_id r, sg_permission = gc_permission r, sg_status = SG_ACTIVE,
           sg_reason = gc_reason r, sg_expires_at = gc_expires_at r,
           sg_created_by_user_id = gc_created_by_user_id r, sg_created_at = t,
           sg_revoked_by_user_id = None, sg_revoked_at = None\<rparr>)"
  obtain i p1 where new: "on_store (new_id ''share'') p = (Inr i, p1)" by (simp add: drawn_id_eval)
  obtain t p2 where now: "on_store utc_now p1 = (Inr t, p2)" by (simp add: on_store_eval utc_now_def)
  have "grant_valid c (mk i t) \<and> sg_status (mk i t) = SG_ACTIVE" for i t
    using assms
    by (simp add: grant_valid_def mk_def grant_semantics_None)
  from fresh_grant [where mk = mk, OF this inv new now] show "share_inv c K L q"
    using run by (simp add: create_grant_def andThen_apply new now Let_def op_simps mk_def)
qed

lemma revoke_grant_inv: "preserves (share_inv c K L) (revoke_grant t i u now)"
proof (rule preservesI)
  fix p x q
  assume inv: "share_inv c K L p" and run: "revoke_grant t i u now p = (x, q)"
  show "share_inv c K L q"
  proof (cases "dict_get (sh_grants p) i")
    case None
    then show ?thesis using run inv by (simp add: revoke_grant_def get_grant_def op_simps andThen_apply)
  next
    case (Some g)
    show ?thesis
    proof (cases "sg_tenant_id g = t")
      case False
      then show ?thesis using Some run inv by (simp add: revoke_grant_def get_grant_def op_simps andThen_apply)
    next
      case True
      obtain n p1 where now: "platform_now now p = (Inr n, p1)"
        by (cases now) (simp_all add: platform_now_def on_store_eval utc_now_def ret_def)
      have p1: "share_inv c K L p1" "sh_grants p1 = sh_grants p"
        using preservesD [OF shares.now_frame inv now] now
        by (auto simp: platform_now_def on_store_eval utc_now_def ret_def split: option.splits)
      have old: "issued ''share'' (pl_store p1) i" "grant_valid c g"
        using p1 Some by (auto simp: share_inv_def shares_issued_def)
      have "q = p1\<lparr>sh_grants := dict_set i (g\<lparr>sg_status := SG_REVOKED, sg_revoked_by_user_id := Some u,
          sg_revoked_at := Some n\<rparr>) (sh_grants p1)\<rparr>"
        using run Some True now by (simp add: revoke_grant_def get_grant_def op_simps andThen_apply Let_def)
      then show ?thesis
        using put_grant_inv [OF p1(1) old(1), of "g\<lparr>sg_status := SG_REVOKED, sg_revoked_by_user_id := Some u,
          sg_revoked_at := Some n\<rparr>"] old(2) by (simp add: grant_valid_def)
    qed
  qed
qed

lemma readonly_has_permission: "readonly (has_permission t u a r)"
proof -
  have "readonly (get_roles t is)" for "is"
    by (induction "is") (auto simp: get_role_def intro!: readonly_rules)
  then show ?thesis
    unfolding has_permission_def list_role_ids_for_user_def get_user_def by (intro readonly_rules)
qed

lemma require_permission_frame: "preserves I (require_permission t u a)"
  unfolding require_permission_def Let_def
  by (intro frame_rules readonly_preserves [OF readonly_has_permission])

lemma checked_grant_inv:
  assumes "gc_subject_type r = SS_EXTERNAL_LINK \<Longrightarrow> \<exists>token. gc_subject_id r = external_share_link_subject_id c token (gc_tenant_id r)"
    and "\<And>g. preserves (share_inv c K L) (k g)"
  shows "preserves (share_inv c K L)
    (andThen (lift_error (make_share_grant_create r)) (\<lambda>checked. andThen (create_grant checked) k))"
proof (cases "make_share_grant_create r")
  case (Inl e)
  then have "andThen (lift_error (make_share_grant_create r)) (\<lambda>checked. andThen (create_grant checked) k) = raise e"
    by (simp add: lift_error_def fun_eq_iff op_simps)
  then show ?thesis by (simp add: frame_rules)
next
  case (Inr g)
  then have "g = r" "grant_semantics r = None"
    by (simp_all add: make_share_grant_create_def split: if_split_asm option.split_asm)
  moreover have "andThen (lift_error (make_share_grant_create r)) (\<lambda>checked. andThen (create_grant checked) k)
      = andThen (create_grant g) k"
    using Inr by (simp add: lift_error_def fun_eq_iff op_simps)
  ultimately show ?thesis
    using create_grant_inv [OF _ assms(1)] assms(2) by (simp add: frame_rules)
qed

lemma share_audit_inv: "preserves (share_inv c K L) (share_audit d t u a ty g)"
  unfolding share_audit_def by (intro frame_rules shares.audit_frame)

lemma create_share_grant_inv: "preserves (share_inv c K L) (create_share_grant c a r)"
proof (cases "gc_subject_type r = SS_EXTERNAL_LINK")
  case True
  have "preserves (share_inv c K L) (andThen (lift_error (make_share_grant_create
      (r\<lparr>gc_subject_id := external_share_link_subject_id c (gc_subject_id r) (gc_tenant_id r)\<rparr>)))
      (\<lambda>checked. andThen (create_grant checked) (\<lambda>g.
        andThen (share_audit c (gc_tenant_id r) (gc_created_by_user_id r) a ''share.grant.created'' g) (\<lambda>_. ret g))))"
    by (rule checked_grant_inv) (auto intro!: frame_rules share_audit_inv)
  then show ?thesis
    unfolding create_share_grant_def require_external_share_links_enabled_def
    by (simp only: True Let_def andThen_assoc andThen_ret if_True simp_thms)
      (rule preserves_andThen [OF require_permission_frame], rule preserves_andThen [OF preserves_require], assumption)
next
  case False
  have "preserves (share_inv c K L) (andThen (lift_error (make_share_grant_create r))
      (\<lambda>checked. andThen (create_grant checked) (\<lambda>g.
        andThen (share_audit c (gc_tenant_id r) (gc_created_by_user_id r) a ''share.grant.created'' g) (\<lambda>_. ret g))))"
    by (rule checked_grant_inv) (use False in \<open>auto intro!: frame_rules share_audit_inv\<close>)
  then show ?thesis
    unfolding create_share_grant_def using False
    by (simp only: Let_def andThen_assoc andThen_ret if_False) (rule preserves_andThen [OF require_permission_frame], assumption)
qed

lemma revoke_share_grant_inv: "preserves (share_inv c K L) (revoke_share_grant d t u a i)"
  unfolding revoke_share_grant_def
  by (intro frame_rules require_permission_frame revoke_grant_inv share_audit_inv)

lemma readonly_get_link: "readonly (get_link t i)"
  unfolding get_link_def by (intro readonly_rules)

lemma create_thread_link_inv: "preserves (share_inv c K L) (create_thread_link d t u th payload)"
proof (rule preservesI)
  fix p x q
  assume inv: "share_inv c K L p" and run: "create_thread_link d t u th payload p = (x, q)"
  obtain r s where get: "get_chat_thread t th (pl_store p) = (r, s)" by (cases "get_chat_thread t th (pl_store p)")
  then have s: "s = pl_store p"
    by (rule readonlyD [rotated]) (unfold get_chat_thread_def, intro readonly_rules)
  show "share_inv c K L q"
  proof (cases r)
    case (Inl e)
    then show ?thesis
      using run inv get s by (simp add: create_thread_link_def andThen_apply on_store_eval)
  next
    case (Inr thread)
    let ?n = "tick (pl_store p)"
    let ?i = "''thread_share'' @ ''_'' @ uuid4_hex (pl_store p) (Suc ?n)"
    let ?p = "p\<lparr>pl_store := (pl_store p)\<lparr>tick := ?n + 5\<rparr>\<rparr>"
    obtain l where l: "q = ?p\<lparr>sh_links := dict_set ?i l (sh_links ?p)\<rparr>"
      using run Inr get s
      by (simp add: create_thread_link_def andThen_apply share_token_def on_store_eval new_id_def utc_now_def
          put_link_def op_simps Let_def numeral_eq_Suc) blast
    have "share_inv c K L ?p" by (rule share_inv_store [OF inv]) simp_all
    moreover have "issued ''thread_share'' (pl_store ?p) ?i"
      unfolding issued_def by (rule exI [of _ "Suc ?n"]) simp
    moreover have "?i \<notin> L"
    proof
      assume "?i \<in> L"
      then have "issued ''thread_share'' (pl_store p) ?i"
        using inv by (auto simp: share_inv_def shares_issued_def link_revoked_def)
      then show False
        using inv by (auto simp: share_inv_def shares_issued_def unique_uuids_def issued_def dest: injD)
    qed
    ultimately show ?thesis unfolding l by (intro put_link_inv) simp_all
  qed
qed

lemma revoke_link_inv: "preserves (share_inv c K L) (revoke_link t i u)"
proof (rule preservesI)
  fix p x q
  assume inv: "share_inv c K L p" and run: "revoke_link t i u p = (x, q)"
  show "share_inv c K L q"
  proof (cases "\<exists>l. dict_get (sh_links p) i = Some l \<and> tl_tenant_id l = t")
    case False
    then have "q = p"
      using run by (cases "dict_get (sh_links p) i") (simp_all add: revoke_link_def get_link_def op_simps andThen_apply)
    then show ?thesis using inv by simp
  next
    case True
    then obtain l where l: "dict_get (sh_links p) i = Some l" "tl_tenant_id l = t" by blast
    let ?p = "p\<lparr>pl_store := (pl_store p)\<lparr>tick := Suc (tick (pl_store p))\<rparr>\<rparr>"
    have inv': "share_inv c K L ?p" by (rule share_inv_store [OF inv]) simp_all
    have "issued ''thread_share'' (pl_store ?p) i"
      using inv' l(1) by (auto simp: share_inv_def shares_issued_def)
    moreover obtain r where "q = ?p\<lparr>sh_links := dict_set i r (sh_links ?p)\<rparr>" "tl_status r = ''revoked''"
      using run l by (auto simp: revoke_link_def get_link_def op_simps andThen_apply on_store_eval utc_now_def Let_def)
    ultimately show ?thesis using put_link_inv [OF inv'] by simp
  qed
qed

lemma revoke_thread_share_inv: "preserves (share_inv c K L) (revoke_thread_share t u th i)"
  unfolding revoke_thread_share_def
  by (intro frame_rules readonly_preserves [OF readonly_get_link] revoke_link_inv)

text \<open>One request that writes shares, a call of the identity service, or one that leaves grants and links alone.\<close>

inductive share_step :: "share_settings \<Rightarrow> identity_settings \<Rightarrow> share_platform \<Rightarrow> share_platform \<Rightarrow> bool" for c d where
  grant: "share_step c d p (snd (create_share_grant c a r p))"
| revoke: "share_step c d p (snd (revoke_share_grant c t u a i p))"
| link: "share_step c d p (snd (create_thread_link c t u th payload p))"
| unlink: "share_step c d p (snd (revoke_thread_share t u th i p))"
| user: "share_step c d p (snd (create_user d request p))"
| status: "share_step c d p (snd (set_user_status d t u st ty p))"
| role: "share_step c d p (snd (create_role d ro p))"
| assign: "share_step c d p (snd (assign_role d t u i p))"
| elsewhere: "uuid4_hex s = uuid4_hex (pl_store p) \<Longrightarrow> tick (pl_store p) \<le> tick s
    \<Longrightarrow> share_step c d p (p\<lparr>pl_store := s\<rparr>)"

inductive share_steps :: "share_settings \<Rightarrow> identity_settings \<Rightarrow> share_platform \<Rightarrow> share_platform \<Rightarrow> bool" for c d where
  stop: "share_steps c d p p"
| step: "share_steps c d p q \<Longrightarrow> share_step c d q r \<Longrightarrow> share_steps c d p r"

lemma share_step_inv: "share_step c d p q \<Longrightarrow> share_inv c K L p \<Longrightarrow> share_inv c K L q"
  by (induction rule: share_step.induct)
    (auto simp: share_inv_store intro: preserves_snd create_share_grant_inv revoke_share_grant_inv create_thread_link_inv
      revoke_thread_share_inv shares.create_user_frame shares.set_user_status_frame shares.create_role_frame
      shares.assign_role_frame)

lemma share_steps_inv: "share_steps c d p q \<Longrightarrow> share_inv c K L p \<Longrightarrow> share_inv c K L q"
  by (induction rule: share_steps.induct) (auto intro: share_step_inv)

text \<open>Whatever the services do, a revoked grant and a revoked link to a thread stay revoked.\<close>

theorem revoked_shares_stay_revoked:
  assumes "share_steps c d p q" and "share_inv c {} {} p"
  shows "{i. grant_revoked p i} \<subseteq> {i. grant_revoked q i} \<and> {i. link_revoked p i} \<subseteq> {i. link_revoked q i}"
proof -
  have "share_inv c {i. grant_revoked p i} {i. link_revoked p i} p"
    using assms(2) by (simp add: share_inv_def)
  from share_steps_inv [OF assms(1) this] show ?thesis
    by (auto simp: share_inv_def)
qed

text \<open>Every grant in the store carries a permission its kind of resource supports, and a grant to an
  external link only views an artifact, expires, and holds the keyed hash of a token, not the token.\<close>

theorem stored_grants_are_valid:
  assumes "share_steps c d p q" and "share_inv c {} {} p" and "g \<in> set (dict_values (sh_grants q))"
  shows "grant_valid c g"
proof -
  have "share_inv c {} {} q" by (rule share_steps_inv [OF assms(1,2)])
  then show ?thesis
    using assms(3) by (auto simp: share_inv_def shares_issued_def dict_values_get)
qed

section \<open>Reading by a link\<close>

definition shown_messages :: "json \<Rightarrow> json list" where
  "shown_messages v = (case v of JObj kvs \<Rightarrow> (case map_of kvs ''messages'' of Some (JArr ms) \<Rightarrow> ms | _ \<Rightarrow> []) | _ \<Rightarrow> [])"

lemma list_chat_messages_Inr:
  "list_chat_messages t th s = (Inr ms, s') \<Longrightarrow> s' = s \<and> set ms = {m \<in> set (dict_values (chat_messages s)).
     m_tenant_id m = t \<and> m_thread_id m = th}"
  by (auto simp: list_chat_messages_def get_chat_thread_def op_simps split: option.splits if_splits)

lemma get_public_link_Inr:
  "get_public_link t pub p = (Inr l, q) \<longleftrightarrow> q = p
     \<and> find (\<lambda>l. tl_tenant_id l = t \<and> tl_public_id l = pub) (dict_values (sh_links p)) = Some l"
  by (auto simp: get_public_link_def op_simps split: option.splits)

lemma read_public_thread_Inr:
  assumes "read_public_thread c t pub token p = (Inr v, q)"
  obtains l s ms s' th arts where "get_public_link t pub p = (Inr l, p)"
    and "s = (pl_store p)\<lparr>tick := Suc (tick (pl_store p))\<rparr>"
    and "link_active l (clock (pl_store p) (tick (pl_store p)))"
    and "compare_digest (tl_token_hash l) (share_token_hash c token) = Inr True"
    and "list_chat_messages (tl_tenant_id l) (tl_thread_id l) s = (Inr ms, s')"
    and "v = JObj [(''thread'', th), (''messages'', JArr (List.map_filter (public_message (tl_redaction_policy l)) ms)),
      (''artifacts'', arts), (''expires_at'', JStr (isoformat (tl_expires_at l)))]"
  using assms unfolding read_public_thread_def Let_def
  apply (elim andThen_Inr_E)
  apply (drule ret_Inr_iff [THEN iffD1])
  apply (elim conjE)
  subgoal premises prems for l p0 now p1 same p2 u p3 thread p4 messages p5 arts p6
  proof -
    have l: "p0 = p" "get_public_link t pub p = (Inr l, p)"
      using prems by (simp_all add: get_public_link_Inr)
    have now: "now = clock (pl_store p) (tick (pl_store p))"
        "p1 = p\<lparr>pl_store := (pl_store p)\<lparr>tick := Suc (tick (pl_store p))\<rparr>\<rparr>"
      using prems l(1) by (simp_all add: on_store_eval utc_now_def)
    have same: same "p3 = p2"
      using prems by (simp_all add: require_Inr_iff)
    have check: "(if \<not> link_active l now then ret False
        else lift_error (compare_digest (tl_token_hash l) (share_token_hash c token))) p1 = (Inr same, p2)"
      using prems by blast
    have act: "link_active l now" "compare_digest (tl_token_hash l) (share_token_hash c token) = Inr same" "p2 = p1"
      using check same(1) by (simp_all add: ret_Inr_iff lift_error_Inr split: if_split_asm)
    obtain s' where th: "p4 = p3\<lparr>pl_store := s'\<rparr>" "get_chat_thread (tl_tenant_id l) (tl_thread_id l) (pl_store p3) = (Inr thread, s')"
      using prems by (auto simp: on_store_Inr)
    have "s' = pl_store p3"
      using th(2) by (auto simp: get_chat_thread_def op_simps split: option.splits if_splits)
    moreover obtain s'' where "list_chat_messages (tl_tenant_id l) (tl_thread_id l) (pl_store p4) = (Inr messages, s'')"
      using prems by (auto simp: on_store_Inr)
    ultimately have ms: "list_chat_messages (tl_tenant_id l) (tl_thread_id l)
        ((pl_store p)\<lparr>tick := Suc (tick (pl_store p))\<rparr>) = (Inr messages, s'')"
      using act(3) same(2) th(1) now(2) by simp
    have "compare_digest (tl_token_hash l) (share_token_hash c token) = Inr True"
      using act(2) same(1) by simp
    then show thesis
      using prems by - (rule that [OF l(2) refl act(1) [unfolded now(1)] _ ms], assumption, rule sym, assumption)
  qed
  done

text \<open>C40: Whoever reads a public thread holds the token of a link that is neither revoked nor expired, and sees
  only messages of that link's thread by users and assistants, rendered under the link's own policy.\<close>

theorem public_threads_need_a_live_link:
  assumes "read_public_thread c t pub token p = (Inr v, q)"
  shows "\<exists>l \<in> set (dict_values (sh_links p)). tl_tenant_id l = t \<and> tl_public_id l = pub
    \<and> link_active l (clock (pl_store p) (tick (pl_store p))) \<and> tl_token_hash l = share_token_hash c token
    \<and> set (shown_messages v) = {j. \<exists>m \<in> set (dict_values (chat_messages (pl_store p))).
         m_tenant_id m = t \<and> m_thread_id m = tl_thread_id l \<and> m_role m \<in> {ROLE_USER, ROLE_ASSISTANT}
         \<and> public_message (tl_redaction_policy l) m = Some j}"
proof -
  let ?now = "clock (pl_store p) (tick (pl_store p))"
  obtain l p1 p2 p3 p4 th ms arts where
      find: "find (\<lambda>l. tl_tenant_id l = t \<and> tl_public_id l = pub) (dict_values (sh_links p)) = Some l"
      and p1: "p1 = p\<lparr>pl_store := (pl_store p)\<lparr>tick := Suc (tick (pl_store p))\<rparr>\<rparr>"
      and same: "link_active l ?now" "compare_digest (tl_token_hash l) (share_token_hash c token) = Inr True"
      and ms: "list_chat_messages (tl_tenant_id l) (tl_thread_id l) (pl_store p1) = (Inr ms, p4)"
      and v: "v = JObj [(''thread'', th), (''messages'', JArr (List.map_filter (public_message (tl_redaction_policy l)) ms)),
        (''artifacts'', arts), (''expires_at'', JStr (isoformat (tl_expires_at l)))]"
    by (rule read_public_thread_Inr [OF assms]) (auto simp: get_public_link_Inr intro!: that)
  have l: "l \<in> set (dict_values (sh_links p))" "tl_tenant_id l = t" "tl_public_id l = pub"
    using find by (auto simp: find_Some_iff)
  have roles: "public_message pol m = Some j \<Longrightarrow> m_role m \<in> {ROLE_USER, ROLE_ASSISTANT}" for pol m j
    by (cases "m_role m") (simp_all add: public_message_def)
  have "set (shown_messages v) = {j. \<exists>m \<in> set ms. public_message (tl_redaction_policy l) m = Some j}"
    by (force simp: v shown_messages_def List.map_filter_def)
  moreover have "set ms = {m \<in> set (dict_values (chat_messages (pl_store p))). m_tenant_id m = t \<and> m_thread_id m = tl_thread_id l}"
    using list_chat_messages_Inr [OF ms] by (simp add: p1 l)
  ultimately have "set (shown_messages v) = {j. \<exists>m \<in> set (dict_values (chat_messages (pl_store p))).
         m_tenant_id m = t \<and> m_thread_id m = tl_thread_id l \<and> m_role m \<in> {ROLE_USER, ROLE_ASSISTANT}
         \<and> public_message (tl_redaction_policy l) m = Some j}"
    using roles by blast
  with l same compare_digest_Inr [OF same(2)] show ?thesis by blast
qed








section \<open>Shares at work\<close>

definition demo_shares :: share_settings where
  "demo_shares = \<lparr>sh_platform = demo_settings, sh_external_share_links_enabled = True, sh_token_hash_secret = ''k'',
     sh_hmac_sha256_hex = (\<lambda>k m. rev m), sh_thread_hash_secret = ''h'', sh_token_urlsafe = (\<lambda>n k. ''token'')\<rparr>"

definition demo_grant :: share_grant where
  "demo_grant = \<lparr>sg_id = ''share_'', sg_tenant_id = ''t'', sg_resource_type = SR_ARTIFACT, sg_resource_id = ''a'',
     sg_subject_type = SS_WORKSPACE, sg_subject_id = ''w'', sg_permission = SP_VIEW, sg_status = SG_ACTIVE,
     sg_reason = None, sg_expires_at = None, sg_created_by_user_id = ''u'', sg_created_at = 0,
     sg_revoked_by_user_id = None, sg_revoked_at = None\<rparr>"

definition demo_link :: thread_share_link where
  "demo_link = \<lparr>tl_id = ''thread_share_'', tl_public_id = ''pub'', tl_tenant_id = ''t'', tl_workspace_id = ''w'',
     tl_thread_id = ''th'', tl_token_hash = share_token_hash demo_shares ''x'', tl_status = ''active'',
     tl_redaction_policy = [(''include_artifacts'', JBool False)], tl_expires_at = 1000, tl_created_by_user_id = ''u'',
     tl_created_at = 0, tl_revoked_by_user_id = None, tl_revoked_at = None\<rparr>"

definition demo_thread :: chat_thread where
  "demo_thread = \<lparr>th_id = ''th'', th_tenant_id = ''t'', th_workspace_id = ''w'', th_created_by_user_id = ''u'',
     th_title = ''T'', th_status = TS_ACTIVE, th_pinned = False, th_provider_id = None, th_model_id = None,
     th_reasoning_effort = None, th_sandbox_session_id = None, th_created_at = 0, th_updated_at = 0\<rparr>"

definition demo_message :: chat_message where
  "demo_message = \<lparr>m_id = ''m'', m_tenant_id = ''t'', m_workspace_id = ''w'', m_thread_id = ''th'', m_sequence = 1,
     m_created_by_user_id = None, m_role = ROLE_ASSISTANT, m_content = ''hi'', m_execution_content = None,
     m_kind = ''message'', m_dispatch_status = DS_COMPLETED, m_delivery_status = DL_DELIVERED, m_attachments = [],
     m_resource_refs = [], m_created_at = 0, m_updated_at = 0\<rparr>"

definition demo_artifact :: artifact where
  "demo_artifact = \<lparr>ar_id = ''a'', ar_tenant_id = ''t'', ar_run_id = ''r'', ar_name = ''A'', ar_artifact_type = ''file'',
     ar_uri = ''u'', ar_created_at = 0, ar_workspace_id = Some ''w'', ar_thread_id = None, ar_message_id = None,
     ar_storage_object_id = None, ar_content_type = None, ar_size_bytes = 0, ar_preview_payload = [],
     ar_dashboard_payload = None, ar_render_policy = [], ar_metadata = []\<rparr>"

definition demo_sharing :: "share_grant \<Rightarrow> thread_share_link \<Rightarrow> share_platform" where
  "demo_sharing g l = \<lparr>pl_store = (empty_store int (\<lambda>n. replicate n CHR ''x'') False)\<lparr>tick := 1,
       chat_threads := [(''th'', demo_thread)], chat_messages := [(''m'', demo_message)],
       artifacts := [(''r'', [demo_artifact])]\<rparr>,
     pl_last_status = [], pl_active_validation = [], id_users = [], id_user_ids_by_tenant_email = [],
     id_roles = [], id_assignments = [], sh_grants = [(''share_'', g)], sh_links = [(''thread_share_'', l)]\<rparr>"

lemma demo_sharing_inv: "grant_valid c g \<Longrightarrow> share_inv c {} {} (demo_sharing g l)"
  by (auto simp: share_inv_def shares_issued_def demo_sharing_def dict_ok_def unique_uuids_def inj_def issued_def
      empty_store_def split: if_splits)

lemma demo_grant_valid: "grant_valid c (demo_grant\<lparr>sg_status := st\<rparr>)"
  by (simp add: grant_valid_def demo_grant_def)

definition demo_revoked :: share_platform where
  "demo_revoked = demo_sharing (demo_grant\<lparr>sg_status := SG_REVOKED\<rparr>) (demo_link\<lparr>tl_status := ''revoked''\<rparr>)"

definition demo_link_request :: thread_share_create where
  "demo_link_request = \<lparr>xl_expires_in_seconds = 60, xl_include_attachments = False, xl_include_artifacts = False,
     xl_redact_resource_refs = True\<rparr>"

lemma revoked_shares_stay_revoked_witness:
  "{''share_''} \<subseteq> {i. grant_revoked (snd (create_thread_link demo_shares ''t'' ''u'' ''th'' demo_link_request demo_revoked)) i}
   \<and> {''thread_share_''} \<subseteq> {i. link_revoked (snd (create_thread_link demo_shares ''t'' ''u'' ''th'' demo_link_request demo_revoked)) i}"
proof -
  have revoked: "{''share_''} \<subseteq> {i. grant_revoked demo_revoked i}" "{''thread_share_''} \<subseteq> {i. link_revoked demo_revoked i}"
    by (simp_all add: grant_revoked_def link_revoked_def demo_revoked_def demo_sharing_def)
  have inv: "share_inv demo_shares {} {} demo_revoked"
    unfolding demo_revoked_def by (rule demo_sharing_inv [OF demo_grant_valid])
  note stay = revoked_shares_stay_revoked [OF share_steps.step [OF share_steps.stop share_step.link] inv]
  show ?thesis
    by (intro conjI; rule subset_trans; rule revoked stay [THEN conjunct1] stay [THEN conjunct2])
qed

lemma stored_grants_are_valid_witness: "grant_valid demo_shares demo_grant"
proof (rule stored_grants_are_valid [OF share_steps.stop])
  let ?p = "demo_sharing (demo_grant\<lparr>sg_status := SG_ACTIVE\<rparr>) demo_link"
  show "share_inv demo_shares {} {} ?p" by (rule demo_sharing_inv [OF demo_grant_valid])
  show "demo_grant \<in> set (dict_values (sh_grants ?p))"
    by (simp add: demo_sharing_def dict_values_def demo_grant_def)
qed




lemma demo_reads_thread:
  "case fst (read_public_thread demo_shares ''t'' ''pub'' ''x'' (demo_sharing demo_grant demo_link)) of
     Inl e \<Rightarrow> False | Inr v \<Rightarrow> True"
  by code_simp

lemma public_threads_need_a_live_link_witness:
  "\<exists>v. fst (read_public_thread demo_shares ''t'' ''pub'' ''x'' (demo_sharing demo_grant demo_link)) = Inr v
     \<and> set (shown_messages v) \<noteq> {}"
proof -
  let ?p = "demo_sharing demo_grant demo_link"
  obtain v q where run: "read_public_thread demo_shares ''t'' ''pub'' ''x'' ?p = (Inr v, q)"
    using demo_reads_thread by (auto simp: prod_eq_iff split: sum.splits)
  from public_threads_need_a_live_link [OF run] obtain l where
      l: "l \<in> set (dict_values (sh_links ?p))"
      and shown: "set (shown_messages v) = {j. \<exists>m \<in> set (dict_values (chat_messages (pl_store ?p))).
         m_tenant_id m = ''t'' \<and> m_thread_id m = tl_thread_id l \<and> m_role m \<in> {ROLE_USER, ROLE_ASSISTANT}
         \<and> public_message (tl_redaction_policy l) m = Some j}"
    by blast
  have "dict_values (chat_messages (pl_store ?p)) = [demo_message]" "l = demo_link"
    using l by (simp_all add: demo_sharing_def dict_values_def)
  then have "the (public_message (tl_redaction_policy demo_link) demo_message) \<in> set (shown_messages v)"
    unfolding shown by (simp add: demo_message_def demo_link_def public_message_def)
  with run show ?thesis by auto
qed

text \<open>The clearance of a reader, and the subjects and groups the reader stands for, are what the client's
  headers say: clearance 9 and the right subject open any object.\<close>

lemma headers_open_stored_objects:
  assumes "so_sensitivity_level ob \<le> 9" and "s \<in> set (so_acl_subjects ob)" and "py_strip s = s" and "s \<noteq> []"
    and "CHR '','' \<notin> set s"
  shows "require_storage_read_access (Some ''9'') (Some s) t u ob p = (Inr (), p)"
proof -
  have "storage_clearance_level (Some ''9'') = Inr 9"
    by code_simp
  moreover have "split_on CHR '','' s = [s]"
    using assms(5) by (induction s) auto
  then have "s \<in> set (storage_acl_subjects (Some s) t u)"
    using assms(3,4) by (simp add: storage_acl_subjects_def raw_acl_subjects_def)
  ultimately show ?thesis
    using assms(1,2) by (auto simp: require_storage_read_access_def lift_error_def op_simps)
qed

end
