(* ===== verification/Spec2Isabelle.thy ===== *)
theory Spec2Isabelle
  imports EventLog TenantTables ActionLeases MemoryQueue RedisQueue WorkflowGuarantees Idempotency ModelAccess ToolSchema Pagination TriggerWebhook AuthGuarantees Organization Licensing SharingGuarantees
begin

text \<open>
  Verification of the control plane of Taroai, the Python service under
  \<^verbatim>\<open>src/apps/api/src/taroai\<close> (paths below are relative to it). The control plane keeps the tenants, the
  chat threads, the runs of agents and their events, hands work to background workers, schedules the
  tasks of a workflow, and guards all of it: who may log in, call a model, change a tenant.

  \<^bold>\<open>How the parts interact.\<close> The HTTP application (\<^verbatim>\<open>app.py\<close>) authenticates a request
  (\<^verbatim>\<open>auth/service.py\<close>), checks a permission (\<^verbatim>\<open>identity/service.py\<close>) and calls services. These keep
  their state in the control plane store (\<^verbatim>\<open>store.py\<close>) and record audit events
  (\<^verbatim>\<open>audit/service.py\<close>), for which they ask the license (\<^verbatim>\<open>licensing/service.py\<close>). Runs are put on a job
  queue (\<^verbatim>\<open>workers/queue.py\<close>); workers claim agent actions in the store under leases. The workflow
  coordinator (\<^verbatim>\<open>workflow.py\<close>) starts child runs in the store as their dependencies succeed. Triggers
  (\<^verbatim>\<open>triggers\<close>) start runs by schedule or webhook.

  \<^bold>\<open>How a part is modelled.\<close> A pydantic model is a \<^theory_text>\<open>record\<close>, an \<open>Enum\<close> a \<^theory_text>\<open>datatype\<close> with its values, an
  object with mutable fields a record that operations return updated. An operation is a value of
  \<open>('s, 'a) op\<close>, a function from a state to a result and a state: \<open>Inr x\<close> is a return, \<open>Inl e\<close> an
  exception of \<open>error\<close>, with the message the code gives it; what was written before an exception stays
  written. \<open>andThen\<close>, \<open>require\<close>, \<open>ret\<close>, \<open>raise\<close>, \<open>gets\<close> and \<open>modify\<close> (\<^theory_text>\<open>Prelude\<close>) compose operations in
  the order of the statements. Dictionaries are association lists in insertion order. The rules of
  \<open>preserves\<close> (collection \<open>frame_rules\<close>) and of \<open>Inr\<close>-results (\<open>Inr_iffs\<close>) carry the component proofs. The
  services around the store have a wider state: \<open>platform\<close> adds the license state, \<open>id_platform\<close> the
  accounts, \<open>auth_platform\<close> the sessions, \<open>share_platform\<close> the shares, each a record extension; \<open>on_store\<close> lifts an operation of the store.

  \<^bold>\<open>Which theory models what.\<close>
  \<^item> \<^theory_text>\<open>Prelude\<close>, \<^theory_text>\<open>Json\<close>, \<^theory_text>\<open>PyText\<close>, \<^theory_text>\<open>Base64\<close>, \<^theory_text>\<open>Calendar\<close>: the monad, exceptions (\<^verbatim>\<open>errors.py\<close> and the classes of
    the services), dictionaries, and what the code uses of the standard library: \<open>json.dumps\<close>, string
    methods, \<open>base64\<close>, the calendar of \<open>datetime\<close>.
  \<^item> \<^theory_text>\<open>Domain\<close>, \<^theory_text>\<open>AgentModels\<close>: the records of \<^verbatim>\<open>domain.py\<close>, \<^verbatim>\<open>agent/models.py\<close>, \<^verbatim>\<open>agent/state.py\<close>.
  \<^item> \<^theory_text>\<open>StoreCore\<close>, \<^theory_text>\<open>StoreChat\<close>, \<^theory_text>\<open>StoreRuns\<close>, \<^theory_text>\<open>StoreRecords\<close>, \<^theory_text>\<open>StoreWorkflows\<close>, \<^theory_text>\<open>StoreActions\<close>: the class
    \<open>InMemoryControlPlaneStore\<close> of \<^verbatim>\<open>store.py\<close>, every public operation. \<^theory_text>\<open>StoreOps\<close> collects those that change
    the state into \<open>store_op\<close> and the states they reach into \<open>reachable\<close>; its locales say per part of the
    class what an invariant must promise, and \<^theory_text>\<open>Scenario\<close> is a session for the witnesses.
  \<^item> \<^theory_text>\<open>EventLog\<close>, \<^theory_text>\<open>Ownership\<close>, \<^theory_text>\<open>TenantTables\<close>, \<^theory_text>\<open>ActionLeases\<close>: what the store guarantees. Events carry the
    numbers 1, 2, 3, \<dots>; owners never change and contents stay in their tenant; lookups answer the asking
    tenant's rows only (the interface \<open>tenant_table\<close>); an action moves along its life cycle and its lease
    fence admits one worker.
  \<^item> \<^theory_text>\<open>JobModels\<close>, \<^theory_text>\<open>JobQueue\<close>, \<^theory_text>\<open>MemoryQueue\<close>, \<^theory_text>\<open>RedisQueue\<close>: \<^verbatim>\<open>workers/models.py\<close> and the two queues of
    \<^verbatim>\<open>workers/queue.py\<close> as implementations of one contract, the locale \<open>job_queue\<close>: bounded delivery,
    exclusive leases, no lost job; and that the loop of the Redis claim returns.
  \<^item> \<^theory_text>\<open>WorkflowSpec\<close>, \<^theory_text>\<open>WorkflowCoordinator\<close>, \<^theory_text>\<open>WorkflowScheduling\<close>, \<^theory_text>\<open>WorkflowScenario\<close>, \<^theory_text>\<open>WorkflowGuarantees\<close>:
    \<^verbatim>\<open>workflow.py\<close>. Validation accepts the acyclic graphs; the coordinator refines an abstract scheduler
    (\<open>flow_step\<close>), so tasks wait for their dependencies, never exceed the concurrency limit and never stall.
  \<^item> \<^theory_text>\<open>Idempotency\<close>: \<^verbatim>\<open>api/idempotency.py\<close> and \<open>execute_idempotently\<close> of \<^verbatim>\<open>chat/service.py\<close>, for one caller
    and as a protocol of many whose store operations interleave.
  \<^item> \<^theory_text>\<open>ModelAccess\<close>: \<^verbatim>\<open>model_gateway/budget.py\<close> and \<^verbatim>\<open>policy.py\<close>. \<^theory_text>\<open>ToolSchema\<close>: \<^verbatim>\<open>tool_gateway/schema.py\<close>
    against an inductive \<open>conforms\<close>. \<^theory_text>\<open>Pagination\<close>: \<^verbatim>\<open>api/pagination.py\<close>.
  \<^item> \<^theory_text>\<open>Triggers\<close>, \<^theory_text>\<open>CronSchedule\<close>, \<^theory_text>\<open>TriggerWebhook\<close>: \<^verbatim>\<open>triggers\<close> without its SQL store.
  \<^item> \<^theory_text>\<open>Entitlements\<close>, \<^theory_text>\<open>AuditTrail\<close>, \<^theory_text>\<open>Identity\<close>, \<^theory_text>\<open>Auth\<close>, \<^theory_text>\<open>AuthGuarantees\<close>: \<^verbatim>\<open>licensing/service.py\<close> (decisions),
    \<^verbatim>\<open>audit/service.py\<close>, \<^verbatim>\<open>identity/service.py\<close>, \<^verbatim>\<open>policy/service.py\<close>, \<^verbatim>\<open>auth/service.py\<close>, \<^verbatim>\<open>auth/sessions.py\<close>.
    Audit events hold no credentials, tokens rest on live sessions, revocation is for ever, permissions come
    from roles of the own tenant.
  \<^item> \<^theory_text>\<open>Organization\<close>: \<^verbatim>\<open>tenancy.py\<close>. An invitation is accepted once, by the holder of its token, and what it
    settled stays settled.
  \<^item> \<^theory_text>\<open>Licensing\<close>: \<^verbatim>\<open>licensing/signing.py\<close>, validation and import. An imported license is genuine.
  \<^item> \<^theory_text>\<open>Sharing\<close>, \<^theory_text>\<open>SharingGuarantees\<close>: \<^verbatim>\<open>sharing\<close> and the guards of \<^verbatim>\<open>app.py\<close> over it. Access is decided by
    active grants, public threads are read through live links, revoked shares stay revoked.

  \<^bold>\<open>Conventions.\<close> Floats are rationals and datetimes are microseconds since 1970 in UTC (an aware or naive
  value read from outside is a \<open>py_datetime\<close>); rounding, and the range of years, are not modelled. Strings hold
  code points below 256; bytes are characters. The clock, \<open>uuid4\<close> and \<open>token_urlsafe\<close> are streams of the
  environment, read at the counter \<open>tick\<close>; results that need identifiers not to repeat assume
  \<open>unique_uuids\<close>. Deep copies make objects values, so aliasing does not arise in the store; the
  in-memory queue hands out the envelopes it stores, which callers are taken not to change. An operation of the store holds its lock and is one
  step; \<open>event_notifier\<close> is a flag and the trace \<open>notified\<close>. Field constraints that FastAPI checks before a
  handler runs are assumed of requests; a constructor the modelled code calls checks its own. Keyword updates
  (\<open>**changes\<close>) are lists of typed changes.

  \<^bold>\<open>Parameters.\<close> Code that is not in the repository is an argument: SHA-256, HMAC, PBKDF2, the Redis client
  (\<open>redis_ok\<close>), how floats and datetimes print and what pydantic reads back (\<open>read_back\<close>), time zones, the
  stream of the model gateway. What is relied on is a named hypothesis, and the witnesses instantiate it.

  \<^bold>\<open>Bounds and fuel.\<close> Recursions are structural or carry a termination proof (the depth-first search, the
  Redis claim). The cron search runs \<open>search_limit\<close> minutes, the 366 * 5 days of the code; catch-up runs
  \<open>max_catch_up_runs\<close> times; waiting for an idempotent answer takes a number of polls as an argument, which no
  result bounds.

  \<^bold>\<open>Not modelled.\<close> HTTP routing, dependency injection and request parsing; every SQL repository (the text is
  executed by a database that is not in the sources); model providers, sandboxes, connectors, browsers,
  storage and mail (external services); the agent loop and its graph, whose steps are calls of these; the
  deployment checks, which read evidence files of installations; retrieval, memory, skills and evaluation.
  Of modelled files: the per-process lock of the idempotency service (the protocol holds without it), the
  interleaving inside \<open>stream_response\<close>, and the texts of \<open>TypeError\<close> and \<open>AttributeError\<close> that only an
  ill-formed schema provokes. The manifest lists every part with its status.
\<close>

end
